(* ===== verification/Prelude.thy ===== *)
theory Prelude
  imports Main "HOL-Library.Word"
begin

text \<open>
  Shared vocabulary of the development: the machine integers of the kernel, the ways a
  kernel path can stop (\<open>panic\<close>), the result type of fallible code, Rust's checked
  arithmetic and slice indexing, and the generic lemmas on lists and words that several
  components use.

  The kernel is built with the development profile (\<^verbatim>\<open>target/x86_64-rixOS/debug\<close> in
  \<^verbatim>\<open>kernel/build.log\<close>), so the operators \<open>+\<close>, \<open>-\<close> and \<open>*\<close> on machine integers panic on
  overflow; casts written \<open>as\<close> truncate, and atomic \<open>fetch_add\<close> wraps around.
\<close>

unbundle bit_operations_syntax

section \<open>Automation collections\<close>

named_theorems outcome_simps \<open>rewriting of fallible computations\<close>
named_theorems kernel_defs \<open>definitions that unfold a whole operation\<close>

section \<open>Machine integers\<close>

type_synonym u8 = "8 word"
type_synonym u16 = "16 word"
type_synonym u32 = "32 word"
type_synonym u64 = "64 word"
type_synonym i32 = "32 word"

section \<open>Panics and fallible results\<close>

text \<open>
  Every way a kernel path ends other than by returning: the panic handler of
  \<^verbatim>\<open>main.rs\<close> and the allocation error handler both halt the processor for good. \<open>RawOutOfBounds\<close> is a write
  through a raw pointer outside the buffer it was made from: no panic, but undefined behaviour.
\<close>

datatype panic =
    IndexOutOfBounds
  | ArithmeticOverflow
  | UnwrapNone
  | ExpectFailed string
  | AssertFailed
  | ExplicitPanic string
  | AllocationError
  | InvalidOpcode
  | RawOutOfBounds

type_synonym 'a outcome = "panic + 'a"

text \<open>Sequencing: what Rust does after a call that may not return.\<close>

definition and_then :: "'a outcome \<Rightarrow> ('a \<Rightarrow> 'b outcome) \<Rightarrow> 'b outcome" where
  "and_then m f = (case m of Inl e \<Rightarrow> Inl e | Inr x \<Rightarrow> f x)"

definition ensure :: "panic \<Rightarrow> bool \<Rightarrow> unit outcome" where
  "ensure e b = (if b then Inr () else Inl e)"

definition unwrap :: "'a option \<Rightarrow> 'a outcome" where
  "unwrap x = (case x of None \<Rightarrow> Inl UnwrapNone | Some y \<Rightarrow> Inr y)"

definition expect :: "string \<Rightarrow> 'a option \<Rightarrow> 'a outcome" where
  "expect msg x = (case x of None \<Rightarrow> Inl (ExpectFailed msg) | Some y \<Rightarrow> Inr y)"

lemma and_then_Inl [simp, outcome_simps]: "and_then (Inl e) f = Inl e"
  by (simp add: and_then_def)

lemma and_then_Inr [simp, outcome_simps]: "and_then (Inr x) f = f x"
  by (simp add: and_then_def)

lemma and_then_eq_Inr [outcome_simps]:
  "and_then m f = Inr y \<longleftrightarrow> (\<exists>x. m = Inr x \<and> f x = Inr y)"
  by (cases m) auto

lemma and_then_eq_Inl [outcome_simps]:
  "and_then m f = Inl e \<longleftrightarrow> m = Inl e \<or> (\<exists>x. m = Inr x \<and> f x = Inl e)"
  by (cases m) auto

lemma and_then_assoc: "and_then (and_then m f) g = and_then m (\<lambda>x. and_then (f x) g)"
  by (cases m) auto

lemma and_then_cong: "m = m' \<Longrightarrow> (\<And>x. f x = f' x) \<Longrightarrow> and_then m f = and_then m' f'"
  by (cases m') auto

lemma and_then_return [simp]: "and_then m Inr = m"
  by (cases m) auto

lemma ensure_simps [simp, outcome_simps]:
  "ensure e True = Inr ()" "ensure e False = Inl e"
  by (simp_all add: ensure_def)

lemma ensure_eq_Inr [outcome_simps]: "ensure e b = Inr u \<longleftrightarrow> b"
  by (simp add: ensure_def)

lemma unwrap_simps [simp, outcome_simps]:
  "unwrap None = Inl UnwrapNone" "unwrap (Some y) = Inr y"
  by (simp_all add: unwrap_def)

lemma unwrap_eq_Inr [outcome_simps]: "unwrap x = Inr y \<longleftrightarrow> x = Some y"
  by (cases x) auto

lemma expect_simps [simp, outcome_simps]:
  "expect msg None = Inl (ExpectFailed msg)" "expect msg (Some y) = Inr y"
  by (simp_all add: expect_def)

section \<open>Checked arithmetic\<close>

definition add_checked :: "'a::len word \<Rightarrow> 'a word \<Rightarrow> 'a word outcome" where
  "add_checked a b =
     (if unat a + unat b < 2 ^ LENGTH('a) then Inr (a + b) else Inl ArithmeticOverflow)"

definition sub_checked :: "'a::len word \<Rightarrow> 'a word \<Rightarrow> 'a word outcome" where
  "sub_checked a b = (if b \<le> a then Inr (a - b) else Inl ArithmeticOverflow)"

definition mul_checked :: "'a::len word \<Rightarrow> 'a word \<Rightarrow> 'a word outcome" where
  "mul_checked a b =
     (if unat a * unat b < 2 ^ LENGTH('a) then Inr (a * b) else Inl ArithmeticOverflow)"

lemma add_checked_unat:
  "add_checked a b = Inr c \<Longrightarrow> unat c = unat a + unat b"
  by (auto simp: add_checked_def unat_word_ariths split: if_splits)

lemma sub_checked_unat:
  "sub_checked a b = Inr c \<Longrightarrow> unat c = unat a - unat b"
  by (auto simp: sub_checked_def unat_sub split: if_splits)

lemma mul_checked_unat:
  "mul_checked a b = Inr c \<Longrightarrow> unat c = unat a * unat b"
  by (auto simp: mul_checked_def unat_word_ariths split: if_splits)

section \<open>Vectors\<close>

text \<open>Slice and \<open>Vec\<close> indexing panics out of range.\<close>

definition vec_get :: "'a list \<Rightarrow> nat \<Rightarrow> 'a outcome" where
  "vec_get xs i = (if i < length xs then Inr (xs ! i) else Inl IndexOutOfBounds)"

definition vec_set :: "'a list \<Rightarrow> nat \<Rightarrow> 'a \<Rightarrow> 'a list outcome" where
  "vec_set xs i v = (if i < length xs then Inr (xs[i := v]) else Inl IndexOutOfBounds)"

lemma vec_get_in [simp]: "i < length xs \<Longrightarrow> vec_get xs i = Inr (xs ! i)"
  by (simp add: vec_get_def)

lemma vec_get_out [simp]: "\<not> i < length xs \<Longrightarrow> vec_get xs i = Inl IndexOutOfBounds"
  by (simp add: vec_get_def)

lemma vec_get_eq_Inr [outcome_simps]: "vec_get xs i = Inr v \<longleftrightarrow> i < length xs \<and> xs ! i = v"
  by (auto simp: vec_get_def)

lemma vec_set_in [simp]: "i < length xs \<Longrightarrow> vec_set xs i v = Inr (xs[i := v])"
  by (simp add: vec_set_def)

lemma vec_set_out [simp]: "\<not> i < length xs \<Longrightarrow> vec_set xs i v = Inl IndexOutOfBounds"
  by (simp add: vec_set_def)

section \<open>Lists\<close>

lemma find_Some_split:
  assumes "find P xs = Some x"
  shows "\<exists>ys zs. xs = ys @ x # zs \<and> P x \<and> (\<forall>y \<in> set ys. \<not> P y)"
  using assms
proof (induction xs)
  case (Cons a xs)
  show ?case
  proof (cases "P a")
    case True
    with Cons.prems show ?thesis by (intro exI [of _ "[]"] exI [of _ xs]) auto
  next
    case False
    with Cons obtain ys zs where "xs = ys @ x # zs" "P x" "\<forall>y \<in> set ys. \<not> P y" by auto
    with False show ?thesis by (intro exI [of _ "a # ys"] exI [of _ zs]) auto
  qed
qed simp

lemma find_map: "find P (map f xs) = map_option f (find (P \<circ> f) xs)"
  by (induction xs) auto

lemma find_by_key:
  "distinct (map f xs) \<Longrightarrow> x \<in> set xs \<Longrightarrow> find (\<lambda>y. f y = f x) xs = Some x"
  by (induction xs) (auto simp: image_iff)

lemma distinct_nth_inj:
  "distinct xs \<Longrightarrow> i < length xs \<Longrightarrow> j < length xs \<Longrightarrow> xs ! i = xs ! j \<Longrightarrow> i = j"
  by (simp add: nth_eq_iff_index_eq)

lemma map_list_update_same:
  "i < length xs \<Longrightarrow> f v = f (xs ! i) \<Longrightarrow> map f (xs[i := v]) = map f xs"
  by (metis list_update_id map_update)

lemma mod_add_cancel_left_less:
  assumes "(m + i) mod n = (m + j) mod n" "i < n" "j < n"
  shows "i = (j::nat)"
proof -
  have "a = b" if "a \<le> b" "b < n" "(m + a) mod n = (m + b) mod n" for a b
  proof -
    have "n dvd (m + b) - (m + a)"
      using that by (metis add_left_mono mod_eq_dvd_iff_nat)
    then have "n dvd b - a" by simp
    then have "b - a = 0" using that by (metis gr0I le_imp_less_Suc less_imp_diff_less nat_dvd_not_less)
    then show ?thesis using that by simp
  qed
  then show ?thesis using assms by (metis nat_le_linear)
qed

lemma rotate_list_update:
  assumes "i < length xs"
  shows "rotate m (xs[(m + i) mod length xs := v]) = (rotate m xs)[i := v]"
proof (rule nth_equalityI)
  fix k assume "k < length (rotate m (xs[(m + i) mod length xs := v]))"
  then have k: "k < length xs" by simp
  then have in_range: "(m + k) mod length xs < length xs" by (intro mod_less_divisor) auto
  show "rotate m (xs[(m + i) mod length xs := v]) ! k = (rotate m xs)[i := v] ! k"
  proof (cases "i = k")
    case True
    with k in_range show ?thesis by (simp add: nth_rotate)
  next
    case False
    then have "(m + i) mod length xs \<noteq> (m + k) mod length xs"
      using assms k mod_add_cancel_left_less by blast
    with False k show ?thesis by (simp add: nth_rotate)
  qed
qed simp

section \<open>Words\<close>

lemma and_not_mask_eq: "x AND NOT (mask n) = x - take_bit n x" for x :: "'a::len word"
proof -
  have "NOT x AND take_bit n x = 0" by (rule bit_eqI) (auto simp: bit_simps)
  then have "x - take_bit n x = x AND NOT (take_bit n x)" by (rule disjunctive_diff_eq_and_not)
  also have "\<dots> = x AND NOT (mask n)" by (rule bit_eqI) (auto simp: bit_simps)
  finally show ?thesis by simp
qed

lemma unat_take_bit: "unat (take_bit n x) = unat x mod 2 ^ n" for x :: "'a::len word"
  by (simp only: unsigned_take_bit_eq) (simp add: take_bit_eq_mod)

lemma unat_align_down: "unat (x AND NOT (mask n)) = unat x - unat x mod 2 ^ n" for x :: "'a::len word"
proof -
  have "take_bit n x \<le> x" by (simp add: word_le_nat_alt unat_take_bit)
  then show ?thesis by (simp add: and_not_mask_eq unat_sub unat_take_bit)
qed

lemma unat_u64_less: "unat (x :: u64) < 2 ^ 64"
  using unsigned_less [of x, where ?'a = nat] by simp

lemma succ_u64_iff: "unat x + 1 < 2 ^ 64 \<longleftrightarrow> x \<noteq> - 1" for x :: u64
  using unat_u64_less [of x] word_unat_eq_iff [of x "- 1"]
  by (auto simp: unsigned_minus_1_eq_mask mask_eq_exp_minus_1)

end
