(* ===== verification/Byte_Memory.thy ===== *)
theory Byte_Memory
  imports Prelude
begin

text \<open>
  Byte-addressed memory as raw pointers see it: a total map from 64-bit addresses to
  bytes, with little-endian loads and stores of \<open>n\<close> bytes. Raw pointer accesses of
  \<^verbatim>\<open>scheduler.rs\<close>, the stack traffic of \<^verbatim>\<open>context.rs\<close>, the page-table walk of
  \<^verbatim>\<open>memory/mod.rs\<close> and \<open>read_addr\<close>/\<open>write_addr\<close> of \<^verbatim>\<open>acpi/handler.rs\<close> all go through
  it. The two laws that matter are: a load returns what the last store to the same
  place wrote, and a store leaves loads from disjoint places alone.
\<close>

type_synonym mem = "u64 \<Rightarrow> u8"

fun word_of_bytes :: "u8 list \<Rightarrow> 'a::len word" where
  "word_of_bytes [] = 0"
| "word_of_bytes (b # bs) = ucast b OR push_bit 8 (word_of_bytes bs)"

definition load :: "nat \<Rightarrow> mem \<Rightarrow> u64 \<Rightarrow> 'a::len word" where
  "load n m a = word_of_bytes (map (\<lambda>i. m (a + of_nat i)) [0..<n])"

definition store :: "nat \<Rightarrow> mem \<Rightarrow> u64 \<Rightarrow> 'a::len word \<Rightarrow> mem" where
  "store n m a w =
     (\<lambda>x. if unat (x - a) < n then ucast (drop_bit (8 * unat (x - a)) w) else m x)"

abbreviation load64 :: "mem \<Rightarrow> u64 \<Rightarrow> u64" where
  "load64 \<equiv> load 8"

abbreviation store64 :: "mem \<Rightarrow> u64 \<Rightarrow> u64 \<Rightarrow> mem" where
  "store64 \<equiv> store 8"

text \<open>\<open>[b, b + k)\<close> and \<open>[a, a + n)\<close> do not overlap, on the address circle.\<close>

definition apart :: "u64 \<Rightarrow> nat \<Rightarrow> u64 \<Rightarrow> nat \<Rightarrow> bool" where
  "apart a n b k \<longleftrightarrow> n \<le> unat (b - a) \<and> k \<le> unat (a - b)"

text \<open>Consecutive 64-bit slots, lowest address first.\<close>

fun store_words :: "mem \<Rightarrow> u64 \<Rightarrow> u64 list \<Rightarrow> mem" where
  "store_words m a [] = m"
| "store_words m a (v # vs) = store64 (store_words m (a + 8) vs) a v"

fun load_words :: "mem \<Rightarrow> u64 \<Rightarrow> nat \<Rightarrow> u64 list" where
  "load_words m a 0 = []"
| "load_words m a (Suc n) = load64 m a # load_words m (a + 8) n"

lemma bit_word_of_bytes:
  "bit (word_of_bytes bs :: 'a::len word) k \<longleftrightarrow>
     k < LENGTH('a) \<and> k div 8 < length bs \<and> bit (bs ! (k div 8)) (k mod 8)"
proof (induction bs arbitrary: k)
  case (Cons b bs)
  have small: "bit b k \<Longrightarrow> k < 8" for k
    using bit_imp_le_length [of b k] by simp
  show ?case
  proof (cases "k < 8")
    case True
    then show ?thesis by (auto simp: bit_simps dest: small)
  next
    case False
    then have "k div 8 = Suc ((k - 8) div 8)" "k mod 8 = (k - 8) mod 8"
      by (auto simp: div_if mod_if [of k])
    with False Cons.IH [of "k - 8"] show ?thesis
      by (auto simp: bit_simps dest: small)
  qed
qed simp

lemma load_store_same:
  assumes "LENGTH('a) = 8 * n" and "n < 2 ^ 64"
  shows "load n (store n m a (w :: 'a::len word)) a = w"
proof -
  have un: "unat (word_of_nat i :: u64) = i" if "i < n" for i
    using that assms(2) by (simp add: unat_of_nat)
  show ?thesis
  proof (rule bit_eqI)
    fix k assume "possible_bit TYPE('a word) k"
    then have k: "k < LENGTH('a)" by simp
    then have kn: "k div 8 < n" using assms(1) by auto
    have "bit (load n (store n m a w) a :: 'a word) k \<longleftrightarrow>
        bit (ucast (drop_bit (8 * (k div 8)) w) :: u8) (k mod 8)"
      using k kn by (simp add: load_def store_def bit_word_of_bytes un)
    also have "\<dots> \<longleftrightarrow> bit w (8 * (k div 8) + k mod 8)"
      by (simp add: bit_simps)
    finally show "bit (load n (store n m a w) a :: 'a word) k \<longleftrightarrow> bit w k" by simp
  qed
qed

lemma unat_diff_flip:
  "a \<noteq> b \<Longrightarrow> unat (a - b) = 2 ^ 64 - unat (b - a)" for a b :: u64
  using unsigned_less [of a, where ?'a = nat] unsigned_less [of b, where ?'a = nat]
  by (auto simp: unat_sub_if' word_unat_eq_iff)

lemma unat_diff_add_apart:
  assumes "apart a n b k" and "i < k"
  shows "n \<le> unat (b + of_nat i - a)"
proof -
  have i: "i < unat (a - b)" using assms by (simp add: apart_def)
  then have i64: "i < 2 ^ 64"
    using unsigned_less [of "a - b", where ?'a = nat] by simp
  from i have "a \<noteq> b" by auto
  then have "unat (b - a) + i < 2 ^ 64"
    using i unat_diff_flip [of a b] by linarith
  then have "unat (b - a + word_of_nat i) = unat (b - a) + i"
    using i64 by (simp add: unat_word_ariths unat_of_nat)
  then have "unat (b + word_of_nat i - a) = unat (b - a) + i"
    by (simp only: diff_add_eq)
  then show ?thesis using assms(1) by (simp add: apart_def)
qed

lemma load_store_apart:
  "apart a n b k \<Longrightarrow> load k (store n m a w) b = load k m b"
  unfolding load_def store_def
  by (rule arg_cong [where f = word_of_bytes], rule map_cong)
    (auto dest: unat_diff_add_apart)

lemma store_apart_byte: "n \<le> unat (x - a) \<Longrightarrow> store n m a w x = m x"
  by (simp add: store_def)

lemma load_cong:
  "(\<And>i. i < n \<Longrightarrow> m (a + of_nat i) = m' (a + of_nat i)) \<Longrightarrow> load n m a = load n m' a"
  unfolding load_def by (rule arg_cong [where f = word_of_bytes], rule map_cong) auto

lemma apart_sym: "apart a n b k \<longleftrightarrow> apart b k a n"
  by (auto simp: apart_def)

text \<open>Places at known offsets from a common base.\<close>

lemma apart_offsets:
  assumes "i + n \<le> j" "j + k \<le> 2 ^ 64" "0 < n" "0 < k"
  shows "apart (f + of_nat i) n (f + of_nat j) k"
proof -
  have d: "(f + of_nat j) - (f + of_nat i) = (of_nat (j - i) :: u64)"
    using assms by (simp add: of_nat_diff)
  have u: "unat ((f + of_nat j) - (f + of_nat i)) = j - i"
    unfolding d unat_of_nat using assms by simp
  then have "f + of_nat i \<noteq> f + of_nat j" using assms by auto
  then have "unat ((f + of_nat i) - (f + of_nat j)) = 2 ^ 64 - (j - i)"
    using u unat_diff_flip by metis
  with u show ?thesis
    unfolding apart_def using assms by linarith
qed

lemma apart_within:
  assumes "apart a n b k" "i + n' \<le> n" "j + k' \<le> k" "0 < n'" "0 < k'"
  shows "apart (a + of_nat i) n' (b + of_nat j) k'"
proof -
  define d where "d = unat (b - a)"
  have ab: "a \<noteq> b" using assms by (auto simp: apart_def)
  have nd: "n \<le> d" "k \<le> 2 ^ 64 - d" "d < 2 ^ 64"
    using assms(1) unat_diff_flip [OF ab] unsigned_less [of "b - a", where ?'a = nat]
    by (auto simp: apart_def d_def)
  have "b = a + of_nat d" by (simp add: d_def)
  then have "b + of_nat j = a + of_nat (d + j)" by (simp add: ac_simps)
  moreover have "apart (a + of_nat i) n' (a + of_nat (d + j)) k'"
    using assms nd by (intro apart_offsets) linarith+
  ultimately show ?thesis by (simp only:)
qed

lemma load_store_words_apart:
  assumes "apart a (8 * length vs) b k" "0 < k"
  shows "load k (store_words m a vs) b = load k m b"
  using assms
proof (induction vs arbitrary: a)
  case (Cons v vs)
  have head: "apart a 8 b k"
    using apart_within [OF Cons.prems(1), of 0 8 0 k] Cons.prems(2) by simp
  show ?case
  proof (cases "vs = []")
    case True
    then show ?thesis using head by (simp add: load_store_apart)
  next
    case False
    then have "apart (a + 8) (8 * length vs) b k"
      using apart_within [OF Cons.prems(1), of 8 "8 * length vs" 0 k] Cons.prems(2) by simp
    then show ?thesis using head Cons.IH Cons.prems(2) by (simp add: load_store_apart)
  qed
qed simp

lemma load_words_cong:
  assumes "\<And>i. i < n \<Longrightarrow> load64 m (a + of_nat (8 * i)) = load64 m' (a + of_nat (8 * i))"
  shows "load_words m a n = load_words m' a n"
  using assms
proof (induction n arbitrary: a)
  case (Suc n)
  have "load64 m a = load64 m' a" using Suc.prems [of 0] by simp
  moreover have "load_words m (a + 8) n = load_words m' (a + 8) n"
    by (rule Suc.IH) (use Suc.prems [of "Suc i" for i] in \<open>simp add: ac_simps\<close>)
  ultimately show ?case by simp
qed simp

lemma load_words_store_apart:
  assumes "apart a n b (8 * k)" "0 < n"
  shows "load_words (store n m a w) b k = load_words m b k"
proof (rule load_words_cong)
  fix i assume "i < k"
  then have "apart a n (b + of_nat (8 * i)) 8"
    using apart_within [OF assms(1), of 0 n "8 * i" 8] assms(2) by simp
  then show "load64 (store n m a w) (b + of_nat (8 * i)) = load64 m (b + of_nat (8 * i))"
    by (rule load_store_apart)
qed

lemma load_words_store_words_apart:
  assumes "apart a (8 * length vs) b (8 * k)"
  shows "load_words (store_words m a vs) b k = load_words m b k"
proof (cases "vs = []")
  case False
  show ?thesis
  proof (rule load_words_cong)
    fix i assume "i < k"
    then have "apart a (8 * length vs) (b + of_nat (8 * i)) 8"
      using apart_within [OF assms, of 0 "8 * length vs" "8 * i" 8] False by simp
    then show "load64 (store_words m a vs) (b + of_nat (8 * i)) = load64 m (b + of_nat (8 * i))"
      by (rule load_store_words_apart) simp
  qed
qed simp

lemma load_words_store_words_same:
  "8 * length vs \<le> 2 ^ 64 \<Longrightarrow> load_words (store_words m a vs) a (length vs) = vs"
proof (induction vs arbitrary: a)
  case (Cons v vs)
  have "load_words (store64 (store_words m (a + 8) vs) a v) (a + 8) (length vs)
      = load_words (store_words m (a + 8) vs) (a + 8) (length vs)"
  proof (cases "vs = []")
    case False
    then have "apart (a + of_nat 0) 8 (a + of_nat 8) (8 * length vs)"
      using Cons.prems by (intro apart_offsets) auto
    then show ?thesis by (intro load_words_store_apart) simp_all
  qed simp
  then show ?case using Cons by (simp add: load_store_same)
qed simp

text \<open>Disjoint stores commute, so the order in which slots are filled does not matter.\<close>

lemma store_commute:
  assumes "apart a n b k"
  shows "store n (store k m b w) a v = store k (store n m a v) b w"
proof
  fix x
  have "n \<le> unat (x - a)" if "unat (x - b) < k"
  proof -
    have "x = b + of_nat (unat (x - b))" by simp
    then show ?thesis using unat_diff_add_apart [OF assms that] by metis
  qed
  then show "store n (store k m b w) a v x = store k (store n m a v) b w x"
    by (auto simp: store_def)
qed

lemma store_words_commute:
  assumes "apart a n b (8 * length vs)" "0 < n"
  shows "store_words (store n m a v) b vs = store n (store_words m b vs) a v"
  using assms
proof (induction vs arbitrary: b)
  case (Cons w ws)
  have head: "apart a n b 8"
    using apart_within [OF Cons.prems(1), of 0 n 0 8] Cons.prems(2) by simp
  show ?case
  proof (cases "ws = []")
    case True
    then show ?thesis using head by (simp add: store_commute)
  next
    case False
    then have "apart a n (b + 8) (8 * length ws)"
      using apart_within [OF Cons.prems(1), of 0 n 8 "8 * length ws"] Cons.prems(2) by simp
    then show ?thesis using Cons.IH Cons.prems(2) head by (simp add: store_commute)
  qed
qed simp

text \<open>Filling slots upwards, as \<open>*ptr.add(k) = \<dots>\<close> statements in increasing \<open>k\<close> do.\<close>

fun write_slots :: "u64 \<Rightarrow> u64 list \<Rightarrow> mem \<Rightarrow> mem" where
  "write_slots p [] m = m"
| "write_slots p (v # vs) m = write_slots (p + 8) vs (store64 m p v)"

lemma write_slots_eq:
  "8 * length vs \<le> 2 ^ 64 \<Longrightarrow> write_slots p vs m = store_words m p vs"
proof (induction vs arbitrary: p m)
  case (Cons v vs)
  have "store_words (store64 m p v) (p + 8) vs = store64 (store_words m (p + 8) vs) p v"
  proof (cases "vs = []")
    case False
    then have "apart (p + of_nat 0) 8 (p + of_nat 8) (8 * length vs)"
      using Cons.prems by (intro apart_offsets) auto
    then show ?thesis by (intro store_words_commute) simp_all
  qed simp
  then show ?case using Cons by simp
qed simp

end
