(* ===== verification/Context.thy ===== *)
theory Context
  imports Byte_Memory
begin

text \<open>
  The context switch of \<^verbatim>\<open>kernel/src/context.rs\<close> and the thread trampoline of
  \<^verbatim>\<open>kernel/src/scheduler.rs\<close>, as the instruction sequences the source writes in
  \<open>naked_asm!\<close>, run on the registers and the byte memory of one processor. A thread that is
  not running is \<open>parked\<close>: its \<open>TaskContext\<close> holds a stack pointer below which nothing of
  it is live and above which seven words (the callee-saved registers and the return
  address) wait to be popped.
\<close>

section \<open>Processor state\<close>

datatype reg = RBX | RBP | R12 | R13 | R14 | R15 | RSP | RDI | RSI

record machine =
  regs :: "reg \<Rightarrow> u64"
  rip :: u64
  interrupt_flag :: bool
  ram :: mem

text \<open>\<^verbatim>\<open>TaskContext { rsp }\<close>, \<open>#[repr(C)]\<close>: one 64-bit word at the address of the struct.\<close>

record TaskContext =
  ctx_rsp :: u64

definition TaskContext_empty :: TaskContext where
  "TaskContext_empty = \<lparr>ctx_rsp = 0\<rparr>"

section \<open>Instructions\<close>

text \<open>The instructions the two naked functions use, with their encoded lengths in bytes.\<close>

datatype instr =
    PUSH reg
  | POP reg
  | MOV_TO_MEM reg reg    \<comment> \<open>\<open>mov [a], b\<close>\<close>
  | MOV_FROM_MEM reg reg  \<comment> \<open>\<open>mov a, [b]\<close>\<close>
  | RET
  | STI
  | CALL reg
  | UD2

fun extended_reg :: "reg \<Rightarrow> bool" where
  "extended_reg R12 = True"
| "extended_reg R13 = True"
| "extended_reg R14 = True"
| "extended_reg R15 = True"
| "extended_reg _ = False"

fun instr_length :: "instr \<Rightarrow> u64" where
  "instr_length (PUSH r) = (if extended_reg r then 2 else 1)"
| "instr_length (POP r) = (if extended_reg r then 2 else 1)"
| "instr_length (MOV_TO_MEM _ _) = 3"
| "instr_length (MOV_FROM_MEM _ _) = 3"
| "instr_length RET = 1"
| "instr_length STI = 1"
| "instr_length (CALL r) = (if extended_reg r then 3 else 2)"
| "instr_length UD2 = 2"

definition push_word :: "u64 \<Rightarrow> machine \<Rightarrow> machine" where
  "push_word v m = m\<lparr>regs := (regs m)(RSP := regs m RSP - 8),
                     ram := store64 (ram m) (regs m RSP - 8) v\<rparr>"

definition pop_to :: "reg \<Rightarrow> machine \<Rightarrow> machine" where
  "pop_to r m = m\<lparr>regs := (regs m)(RSP := regs m RSP + 8, r := load64 (ram m) (regs m RSP))\<rparr>"

definition next_rip :: "instr \<Rightarrow> machine \<Rightarrow> machine" where
  "next_rip i m = m\<lparr>rip := rip m + instr_length i\<rparr>"

fun exec1 :: "instr \<Rightarrow> machine \<Rightarrow> machine outcome" where
  "exec1 (PUSH r) m = Inr (next_rip (PUSH r) (push_word (regs m r) m))"
| "exec1 (POP r) m = Inr (next_rip (POP r) (pop_to r m))"
| "exec1 (MOV_TO_MEM a b) m =
     Inr (next_rip (MOV_TO_MEM a b) (m\<lparr>ram := store64 (ram m) (regs m a) (regs m b)\<rparr>))"
| "exec1 (MOV_FROM_MEM a b) m =
     Inr (next_rip (MOV_FROM_MEM a b) (m\<lparr>regs := (regs m)(a := load64 (ram m) (regs m b))\<rparr>))"
| "exec1 RET m = Inr (m\<lparr>rip := load64 (ram m) (regs m RSP),
                        regs := (regs m)(RSP := regs m RSP + 8)\<rparr>)"
| "exec1 STI m = Inr (next_rip STI (m\<lparr>interrupt_flag := True\<rparr>))"
| "exec1 (CALL r) m =
     Inr ((push_word (rip m + instr_length (CALL r)) m)\<lparr>rip := regs m r\<rparr>)"
| "exec1 UD2 m = Inl InvalidOpcode"

fun exec :: "instr list \<Rightarrow> machine \<Rightarrow> machine outcome" where
  "exec [] m = Inr m"
| "exec (i # is) m = and_then (exec1 i m) (exec is)"

section \<open>The two naked functions\<close>

definition context_switch_code :: "instr list" where
  "context_switch_code =
     [PUSH RBX, PUSH RBP, PUSH R12, PUSH R13, PUSH R14, PUSH R15,
      MOV_TO_MEM RDI RSP,
      MOV_FROM_MEM RSP RSI,
      POP R15, POP R14, POP R13, POP R12, POP RBP, POP RBX,
      RET]"

text \<open>
  \<open>context_switch(old, new)\<close> under the System V convention: the call pushes the return
  address, \<open>rdi\<close> and \<open>rsi\<close> carry the two pointers.
\<close>

definition context_switch :: "u64 \<Rightarrow> u64 \<Rightarrow> u64 \<Rightarrow> machine \<Rightarrow> machine outcome" where
  "context_switch ret old new m =
     exec context_switch_code
       (push_word ret (m\<lparr>regs := (regs m)(RDI := old, RSI := new)\<rparr>))"

definition thread_trampoline_code :: "instr list" where
  "thread_trampoline_code = [STI, CALL R12, UD2]"

text \<open>Up to the entry of the called function, which does not return.\<close>

definition thread_trampoline :: "machine \<Rightarrow> machine outcome" where
  "thread_trampoline m = exec (take 2 thread_trampoline_code) m"

section \<open>Parked threads\<close>

definition callee_saved :: "reg list" where
  "callee_saved = [R15, R14, R13, R12, RBP, RBX]"

definition saved_frame :: "machine \<Rightarrow> u64 \<Rightarrow> u64 list" where
  "saved_frame m ret = map (regs m) callee_saved @ [ret]"

definition parked :: "mem \<Rightarrow> u64 \<Rightarrow> u64 \<Rightarrow> u64 list \<Rightarrow> bool" where
  "parked m ctx sp fr \<longleftrightarrow> load64 m ctx = sp \<and> load_words m sp 7 = fr"

lemma load_words_7:
  "load_words m a 7 =
     [load64 m a, load64 m (a + 8), load64 m (a + 16), load64 m (a + 24),
      load64 m (a + 32), load64 m (a + 40), load64 m (a + 48)]"
proof -
  have seven: "(7::nat) = Suc (Suc (Suc (Suc (Suc (Suc (Suc 0))))))" by simp
  show ?thesis unfolding seven load_words.simps by (simp add: add.assoc)
qed

text \<open>The write set of a switch: seven words below the caller's stack pointer, and \<open>*old\<close>.\<close>

definition switch_ram :: "u64 \<Rightarrow> u64 \<Rightarrow> machine \<Rightarrow> mem" where
  "switch_ram ret old m =
     store64 (store_words (ram m) (regs m RSP - 56) (saved_frame m ret)) old (regs m RSP - 56)"

lemma context_switch_run:
  "context_switch ret old new m =
     (let r = switch_ram ret old m; sp = load64 r new
      in Inr \<lparr>regs = (regs m)(RDI := old, RSI := new, R15 := load64 r sp,
                 R14 := load64 r (sp + 8), R13 := load64 r (sp + 16), R12 := load64 r (sp + 24),
                 RBP := load64 r (sp + 32), RBX := load64 r (sp + 40), RSP := sp + 56),
              rip = load64 r (sp + 48),
              interrupt_flag = interrupt_flag m, ram = r, \<dots> = machine.more m\<rparr>)"
proof -
  have ram: "switch_ram ret old m =
      store64 (store64 (store64 (store64 (store64 (store64 (store64 (store64 (ram m)
        (regs m RSP - 8) ret) (regs m RSP - 16) (regs m RBX)) (regs m RSP - 24) (regs m RBP))
        (regs m RSP - 32) (regs m R12)) (regs m RSP - 40) (regs m R13))
        (regs m RSP - 48) (regs m R14)) (regs m RSP - 56) (regs m R15)) old (regs m RSP - 56)"
    by (simp add: switch_ram_def saved_frame_def callee_saved_def algebra_simps)
  show ?thesis
    unfolding Let_def ram
    by (simp add: context_switch_def context_switch_code_def push_word_def pop_to_def
        next_rip_def algebra_simps fun_upd_twist)
qed

text \<open>What a switch leaves alone, stated for one place at a time.\<close>

definition spared :: "u64 \<Rightarrow> u64 \<Rightarrow> u64 \<Rightarrow> nat \<Rightarrow> bool" where
  "spared s old a n \<longleftrightarrow> apart s 56 a n \<and> apart old 8 a n"

lemma saved_frame_length [simp]: "length (saved_frame m ret) = 7"
  by (simp add: saved_frame_def callee_saved_def)

lemma switch_ram_load:
  "spared (regs m RSP - 56) old a 8 \<Longrightarrow> load64 (switch_ram ret old m) a = load64 (ram m) a"
  by (simp add: switch_ram_def spared_def load_store_apart load_store_words_apart)

lemma switch_ram_load_words:
  "spared (regs m RSP - 56) old a 56 \<Longrightarrow>
     load_words (switch_ram ret old m) a 7 = load_words (ram m) a 7"
  by (simp add: switch_ram_def spared_def load_words_store_apart load_words_store_words_apart)

lemma switch_ram_parked:
  "parked (ram m) ctx sp fr \<Longrightarrow> spared (regs m RSP - 56) old ctx 8 \<Longrightarrow>
     spared (regs m RSP - 56) old sp 56 \<Longrightarrow> parked (switch_ram ret old m) ctx sp fr"
  by (simp add: parked_def switch_ram_load switch_ram_load_words)

lemma switch_ram_saves:
  assumes "apart old 8 (regs m RSP - 56) 56"
  shows "parked (switch_ram ret old m) old (regs m RSP - 56) (saved_frame m ret)"
proof -
  have "load_words (store_words (ram m) (regs m RSP - 56) (saved_frame m ret))
      (regs m RSP - 56) (length (saved_frame m ret)) = saved_frame m ret"
    by (rule load_words_store_words_same) simp
  then show ?thesis
    using assms by (simp add: parked_def switch_ram_def load_store_same load_words_store_apart)
qed

text \<open>
  The contract of \<open>context_switch\<close>: it returns; the caller is parked at \<open>old\<close> with its own
  registers; the processor continues as the thread parked at \<open>new\<close>; every third parked
  thread stays parked; the interrupt flag is not touched.
\<close>

lemma context_switch_contract:
  assumes new: "parked (ram m) new sp fr"
    and sep: "spared (regs m RSP - 56) old new 8" "spared (regs m RSP - 56) old sp 56"
      "apart old 8 (regs m RSP - 56) 56"
  obtains m' where "context_switch ret old new m = Inr m'"
    and "saved_frame m' (rip m') = fr" and "regs m' RSP = sp + 56"
    and "interrupt_flag m' = interrupt_flag m"
    and "ram m' = switch_ram ret old m"
    and "parked (ram m') old (regs m RSP - 56) (saved_frame m ret)"
proof -
  let ?r = "switch_ram ret old m"
  have sp: "load64 ?r new = sp" and fr: "load_words ?r sp 7 = fr"
    using switch_ram_parked [OF new sep(1,2), of ret] by (auto simp: parked_def)
  obtain m' where m': "context_switch ret old new m = Inr m'"
    by (simp add: context_switch_run Let_def)
  then have "saved_frame m' (rip m') = fr" "regs m' RSP = sp + 56"
      "interrupt_flag m' = interrupt_flag m" "ram m' = ?r"
    using sp fr [symmetric]
    by (auto simp: context_switch_run Let_def saved_frame_def callee_saved_def load_words_7)
  with m' switch_ram_saves [OF sep(3), of ret] that show thesis by simp
qed

lemma thread_trampoline_run:
  "thread_trampoline m =
     Inr ((push_word (rip m + 4) m)\<lparr>rip := regs m R12, interrupt_flag := True\<rparr>)"
  by (simp add: thread_trampoline_def thread_trampoline_code_def next_rip_def push_word_def
      numeral_2_eq_2 add.assoc)

section \<open>Properties\<close>

text \<open>
  C7. Switching away and back is invisible to a thread: when a thread calls \<open>context_switch\<close>,
  and later some other thread switches back to it while its saved context and its seven saved
  stack words still hold what the first switch wrote, it continues at its return address with
  its six callee-saved registers and its stack pointer as they were at the call.
\<close>

theorem context_switch_roundtrip:
  assumes away: "context_switch ret old new m = Inr m1" "apart old 8 (regs m RSP - 56) 56"
    and kept: "load64 (ram m2) old = load64 (ram m1) old"
      "load_words (ram m2) (regs m RSP - 56) 7 = load_words (ram m1) (regs m RSP - 56) 7"
    and home: "context_switch ret2 other old m2 = Inr m3"
      "spared (regs m2 RSP - 56) other old 8"
      "spared (regs m2 RSP - 56) other (regs m RSP - 56) 56"
      "apart other 8 (regs m2 RSP - 56) 56"
  shows "saved_frame m3 (rip m3) = saved_frame m ret \<and> regs m3 RSP = regs m RSP"
proof -
  have "ram m1 = switch_ram ret old m"
    using away(1) by (auto simp: context_switch_run Let_def)
  then have "parked (ram m2) old (regs m RSP - 56) (saved_frame m ret)"
    using switch_ram_saves [OF away(2), of ret] kept by (simp add: parked_def)
  then obtain m3' where "context_switch ret2 other old m2 = Inr m3'"
      "saved_frame m3' (rip m3') = saved_frame m ret" "regs m3' RSP = regs m RSP - 56 + 56"
    using home(2-4) by (rule context_switch_contract)
  with home(1) show ?thesis by simp
qed

text \<open>A concrete pair of switches for the witness: one stack at 0x9000, the other at 0x5000.\<close>

definition example_machine :: machine where
  "example_machine =
     \<lparr>regs = (\<lambda>r. case r of RSP \<Rightarrow> 0x9000 | RBX \<Rightarrow> 1 | RBP \<Rightarrow> 2 | R12 \<Rightarrow> 3 | R13 \<Rightarrow> 4 | R14 \<Rightarrow> 5
              | R15 \<Rightarrow> 6 | _ \<Rightarrow> 0),
      rip = 0, interrupt_flag = False, ram = (\<lambda>_. 0)\<rparr>"

theorem context_switch_roundtrip_witness:
  "\<exists>m1 m2 m3. context_switch 0x77 0x1000 0x1040 example_machine = Inr m1 \<and>
     m2 = m1\<lparr>regs := (regs m1)(RSP := 0x5000)\<rparr> \<and>
     context_switch 0x88 0x1040 0x1000 m2 = Inr m3 \<and>
     saved_frame m3 (rip m3) = [6, 5, 4, 3, 2, 1, 0x77] \<and> regs m3 RSP = 0x9000"
proof -
  obtain m1 where m1: "context_switch 0x77 0x1000 0x1040 example_machine = Inr m1"
    by (simp add: context_switch_run Let_def)
  define m2 where "m2 = m1\<lparr>regs := (regs m1)(RSP := 0x5000)\<rparr>"
  obtain m3 where m3: "context_switch 0x88 0x1040 0x1000 m2 = Inr m3"
    by (simp add: context_switch_run Let_def)
  have "saved_frame m3 (rip m3) = saved_frame example_machine 0x77 \<and>
      regs m3 RSP = regs example_machine RSP"
    by (rule context_switch_roundtrip [OF m1 _ _ _ m3])
      (simp_all add: m2_def example_machine_def spared_def apart_def)
  then have "saved_frame m3 (rip m3) = [6, 5, 4, 3, 2, 1, 0x77]" "regs m3 RSP = 0x9000"
    by (simp_all add: saved_frame_def callee_saved_def example_machine_def)
  with m1 m3 m2_def show ?thesis by blast
qed

end
