(* ===== verification/Logging.thy ===== *)
theory Logging
  imports Prelude
begin

text \<open>
  The logging component: \<^verbatim>\<open>kernel/src/logging.rs\<close>. Kernel code submits records through
  the macros \<open>error!\<close> \<dots> \<open>trace!\<close>; the model keeps a submitted record as its level,
  its format string as the source writes it, and its arguments. \<open>SimpleLogger\<close> turns an
  accepted record into one coloured line on the serial port.
\<close>

datatype Level = Error | Warn | Info | Debug | Trace

datatype LevelFilter = Off | UpTo Level

datatype fmt_arg =
    ArgU64 u64
  | ArgU8 u8
  | ArgU16 u16
  | ArgU32 u32
  | ArgI32 i32
  | ArgUsize nat
  | ArgStr string
  | ArgLevel Level
  | ArgFmt string "fmt_arg list"

abbreviation NL :: string where
  "NL \<equiv> [CHR 0x0A]"

record log_record =
  log_level :: Level
  log_format :: string
  log_args :: "fmt_arg list"

abbreviation info :: "string \<Rightarrow> fmt_arg list \<Rightarrow> log_record" where
  "info f as \<equiv> \<lparr>log_level = Info, log_format = f, log_args = as\<rparr>"

abbreviation warn :: "string \<Rightarrow> fmt_arg list \<Rightarrow> log_record" where
  "warn f as \<equiv> \<lparr>log_level = Warn, log_format = f, log_args = as\<rparr>"

abbreviation error :: "string \<Rightarrow> fmt_arg list \<Rightarrow> log_record" where
  "error f as \<equiv> \<lparr>log_level = Error, log_format = f, log_args = as\<rparr>"

abbreviation debug :: "string \<Rightarrow> fmt_arg list \<Rightarrow> log_record" where
  "debug f as \<equiv> \<lparr>log_level = Debug, log_format = f, log_args = as\<rparr>"

section \<open>SimpleLogger\<close>

definition SimpleLogger_enabled :: "log_record \<Rightarrow> bool" where
  "SimpleLogger_enabled metadata = True"

fun level_color :: "Level \<Rightarrow> u8" where
  "level_color Error = 31"
| "level_color Warn = 93"
| "level_color Info = 34"
| "level_color Debug = 32"
| "level_color Trace = 90"

text \<open>The line a record becomes on the serial port, as format string and arguments.\<close>

definition SimpleLogger_log :: "log_record \<Rightarrow> (string \<times> fmt_arg list) list" where
  "SimpleLogger_log record =
     (if \<not> SimpleLogger_enabled record then []
      else (let color = level_color (log_level record) in
        [([CHR 0x1B] @ ''[{}m[{:>5}] {}'' @ [CHR 0x1B] @ ''[0m'' @ NL,
          [ArgU8 color, ArgLevel (log_level record), ArgFmt (log_format record) (log_args record)])]))"

definition SimpleLogger_flush :: unit where
  "SimpleLogger_flush = ()"

section \<open>logging::init\<close>

record logger_state =
  logger_set :: bool
  max_level :: LevelFilter

definition level_filter :: "string option \<Rightarrow> LevelFilter" where
  "level_filter env =
     (if env = Some ''ERROR'' then UpTo Error
      else if env = Some ''WARN'' then UpTo Warn
      else if env = Some ''INFO'' then UpTo Info
      else if env = Some ''DEBUG'' then UpTo Debug
      else if env = Some ''TRACE'' then UpTo Trace
      else Off)"

text \<open>\<open>set_logger\<close> fails when a logger has been set before; \<open>unwrap\<close> then panics.\<close>

definition logging_init :: "string option \<Rightarrow> logger_state \<Rightarrow> logger_state outcome" where
  "logging_init LOG_LEVEL st =
     (if logger_set st then Inl (ExpectFailed ''called Result::unwrap() on an Err value'')
      else Inr (st\<lparr>logger_set := True, max_level := level_filter LOG_LEVEL\<rparr>))"

text \<open>
  What reaches the serial port of a sequence of records. \<open>passes\<close> is the \<^verbatim>\<open>log\<close> crate's filter;
  \<open>log_docs\<close> is its documentation: a record passes when its level is at most the maximum.
\<close>

definition log_output ::
  "(LevelFilter \<Rightarrow> Level \<Rightarrow> bool) \<Rightarrow> logger_state \<Rightarrow> log_record list \<Rightarrow> (string \<times> fmt_arg list) list" where
  "log_output passes st rs = concat (map SimpleLogger_log (filter (\<lambda>r. passes (max_level st) (log_level r)) rs))"

fun level_rank :: "Level \<Rightarrow> nat" where
  "level_rank Error = 1"
| "level_rank Warn = 2"
| "level_rank Info = 3"
| "level_rank Debug = 4"
| "level_rank Trace = 5"

definition log_docs :: "(LevelFilter \<Rightarrow> Level \<Rightarrow> bool) \<Rightarrow> bool" where
  "log_docs passes \<longleftrightarrow> (\<forall>l. \<not> passes Off l) \<and> (\<forall>m l. passes (UpTo m) l \<longleftrightarrow> level_rank l \<le> level_rank m)"

text \<open>
  Logging at boot: the first initialisation succeeds and a second one panics; without one of the
  five level names in \<open>LOG_LEVEL\<close> at build time nothing is ever logged; with \<open>INFO\<close> exactly the errors,
  warnings and informational records appear, one line each, in order; with \<open>TRACE\<close> all do.
\<close>

theorem logging_levels:
  assumes "log_docs passes" "\<not> logger_set st"
  shows "(\<exists>st'. logging_init env st = Inr st' \<and>
      (\<exists>e. logging_init env st' = Inl e) \<and>
      (env \<notin> Some ` {''ERROR'', ''WARN'', ''INFO'', ''DEBUG'', ''TRACE''} \<longrightarrow> log_output passes st' rs = []) \<and>
      (env = Some ''INFO'' \<longrightarrow> log_output passes st' rs =
         concat (map SimpleLogger_log (filter (\<lambda>r. log_level r \<in> {Error, Warn, Info}) rs))) \<and>
      (env = Some ''TRACE'' \<longrightarrow> length (log_output passes st' rs) = length rs))"
proof -
  have info: "level_rank l \<le> 3 \<longleftrightarrow> l \<in> {Error, Warn, Info}" and all: "level_rank l \<le> 5" for l
    by (cases l; simp)+
  have len: "length (concat (map SimpleLogger_log rs)) = length rs" for rs
    by (induction rs) (simp_all add: SimpleLogger_log_def SimpleLogger_enabled_def Let_def)
  show ?thesis
    using assms by (simp add: logging_init_def log_output_def log_docs_def level_filter_def info all len)
qed

theorem logging_levels_witness:
  "\<exists>st'. logging_init (Some ''INFO'') \<lparr>logger_set = False, max_level = Off\<rparr> = Inr st' \<and>
     log_output (\<lambda>f l. case f of Off \<Rightarrow> False | UpTo m \<Rightarrow> level_rank l \<le> level_rank m) st'
       [debug ''a'' [], warn ''b'' []] = SimpleLogger_log (warn ''b'' [])"
proof -
  have "log_docs (\<lambda>f l. case f of Off \<Rightarrow> False | UpTo m \<Rightarrow> level_rank l \<le> level_rank m)"
    by (simp add: log_docs_def)
  from logging_levels [OF this, of "\<lparr>logger_set = False, max_level = Off\<rparr>" "Some ''INFO''"
      "[debug ''a'' [], warn ''b'' []]"] show ?thesis by auto
qed

end
