(* ===== verification/Scheduler.thy ===== *)
theory Scheduler
  imports Context Logging
begin

text \<open>
  The round-robin thread scheduler, \<^verbatim>\<open>kernel/src/scheduler.rs\<close>: thread control blocks, the
  scheduler's vector of threads and its current index, the creation of a thread with its
  first stack frame, and the timer tick that picks the next thread and switches to it.

  \<open>Vec<u8>\<close> of a kernel stack is its pointer and length, its contents are in \<open>ram\<close>. The
  address the global allocator returns for a new stack is an argument (\<open>None\<close> when it is
  out of memory, which ends in the allocation error handler). \<open>*mut TaskContext\<close> pointers
  into the vector are indices of the vector; \<open>tick\<close> is given the addresses its elements
  have while the assembly runs.
\<close>

section \<open>Data\<close>

definition KERNEL_STACK_SIZE :: u64 where
  "KERNEL_STACK_SIZE = 4096 * 4"

datatype ThreadState = Ready | Running | Blocked | Exited

record vec_u8 =
  vec_ptr :: u64
  vec_len :: nat

record ThreadControlBlock =
  t_tid :: u64
  t_pid :: u64
  t_state :: ThreadState
  t_context :: TaskContext
  t_stack :: vec_u8

record Scheduler =
  threads :: "ThreadControlBlock list"
  current :: nat

text \<open>The module's statics, and the processor they run on.\<close>

record sched_state =
  SCHEDULER :: Scheduler
  NEXT_TID :: u64
  cpu :: machine

section \<open>Creating a thread\<close>

definition zero_fill :: "u64 \<Rightarrow> nat \<Rightarrow> mem \<Rightarrow> mem" where
  "zero_fill p n m = (\<lambda>x. if unat (x - p) < n then 0 else m x)"

definition initial_frame :: "u64 \<Rightarrow> u64 \<Rightarrow> u64 list" where
  "initial_frame entry_fn trampoline = [0, 0, 0, entry_fn, 0, 0, trampoline]"

definition ThreadControlBlock_new ::
  "u64 \<Rightarrow> u64 option \<Rightarrow> u64 \<Rightarrow> u64 \<Rightarrow> 'a sched_state_scheme
     \<Rightarrow> (ThreadControlBlock \<times> 'a sched_state_scheme) outcome" where
  "ThreadControlBlock_new trampoline stack pid entry_fn st =
     (let tid = NEXT_TID st; st = st\<lparr>NEXT_TID := NEXT_TID st + 1\<rparr> in
      case stack of
        None \<Rightarrow> Inl AllocationError
      | Some p \<Rightarrow>
          (let r = zero_fill p (unat KERNEL_STACK_SIZE) (ram (cpu st)) in
           and_then (add_checked p KERNEL_STACK_SIZE) (\<lambda>top.
           and_then (sub_checked (top AND NOT 0xF) (7 * 8)) (\<lambda>rsp.
             Inr (\<lparr>t_tid = tid, t_pid = pid, t_state = Ready, t_context = \<lparr>ctx_rsp = rsp\<rparr>,
                   t_stack = \<lparr>vec_ptr = p, vec_len = unat KERNEL_STACK_SIZE\<rparr>\<rparr>,
                  st\<lparr>cpu := (cpu st)\<lparr>ram := write_slots rsp (initial_frame entry_fn trampoline) r\<rparr>\<rparr>)))))"

section \<open>The scheduler\<close>

definition Scheduler_new :: Scheduler where
  "Scheduler_new = \<lparr>threads = [], current = 0\<rparr>"

definition add_thread :: "ThreadControlBlock \<Rightarrow> Scheduler \<Rightarrow> Scheduler" where
  "add_thread tcb s = s\<lparr>threads := threads s @ [tcb]\<rparr>"

text \<open>\<open>for i in 1..n\<close> of \<open>next_ready_thread\<close>, from iteration \<open>i\<close> on.\<close>

function next_ready_loop :: "ThreadControlBlock list \<Rightarrow> nat \<Rightarrow> nat \<Rightarrow> nat option outcome" where
  "next_ready_loop ts cur i =
     (if i < length ts then
        (let idx = (cur + i) mod length ts in
         and_then (vec_get ts idx) (\<lambda>t.
           if t_state t = Ready then Inr (Some idx) else next_ready_loop ts cur (Suc i)))
      else Inr None)"
  by pat_completeness auto
termination
  by (relation "measure (\<lambda>(ts, cur, i). length ts - i)") auto

declare next_ready_loop.simps [simp del]

definition next_ready_thread :: "Scheduler \<Rightarrow> nat option outcome" where
  "next_ready_thread s =
     (let n = length (threads s) in
      if n \<le> 1 then Inr None else next_ready_loop (threads s) (current s) 1)"

definition set_state :: "ThreadControlBlock list \<Rightarrow> nat \<Rightarrow> ThreadState \<Rightarrow> ThreadControlBlock list outcome" where
  "set_state ts i st = and_then (vec_get ts i) (\<lambda>t. vec_set ts i (t\<lparr>t_state := st\<rparr>))"

definition prepare_switch :: "Scheduler \<Rightarrow> (Scheduler \<times> (nat \<times> nat) option) outcome" where
  "prepare_switch s =
     and_then (next_ready_thread s) (\<lambda>nx.
       case nx of
         None \<Rightarrow> Inr (s, None)
       | Some next_idx \<Rightarrow>
           (let current_idx = current s in
            and_then (vec_get (threads s) current_idx) (\<lambda>cur.
            and_then (if t_state cur = Running then set_state (threads s) current_idx Ready
                      else Inr (threads s)) (\<lambda>ts.
            and_then (set_state ts next_idx Running) (\<lambda>ts'.
              Inr (s\<lparr>threads := ts', current := next_idx\<rparr>, Some (current_idx, next_idx)))))))"

definition Scheduler_current_tid :: "Scheduler \<Rightarrow> u64 outcome" where
  "Scheduler_current_tid s = and_then (vec_get (threads s) (current s)) (\<lambda>t. Inr (t_tid t))"

definition Scheduler_current_pid :: "Scheduler \<Rightarrow> u64 outcome" where
  "Scheduler_current_pid s = and_then (vec_get (threads s) (current s)) (\<lambda>t. Inr (t_pid t))"

fun mark_exited_in :: "u64 \<Rightarrow> ThreadControlBlock list \<Rightarrow> ThreadControlBlock list" where
  "mark_exited_in tid [] = []"
| "mark_exited_in tid (t # ts) =
     (if t_tid t = tid then t\<lparr>t_state := Exited\<rparr> # ts else t # mark_exited_in tid ts)"

definition mark_exited :: "u64 \<Rightarrow> Scheduler \<Rightarrow> Scheduler" where
  "mark_exited tid s = s\<lparr>threads := mark_exited_in tid (threads s)\<rparr>"

definition thread_count :: "Scheduler \<Rightarrow> nat" where
  "thread_count s = length (threads s)"

section \<open>The module's entry points\<close>

text \<open>
  The vector's elements as the assembly sees them: \<open>addr i\<close> is the address of the
  \<open>TaskContext\<close> of element \<open>i\<close>.
\<close>

definition spill_contexts :: "(nat \<Rightarrow> u64) \<Rightarrow> ThreadControlBlock list \<Rightarrow> mem \<Rightarrow> mem" where
  "spill_contexts addr ts m =
     fold (\<lambda>i r. store64 r (addr i) (ctx_rsp (t_context (ts ! i)))) [0..<length ts] m"

definition tick :: "(nat \<Rightarrow> u64) \<Rightarrow> u64 \<Rightarrow> 'a sched_state_scheme \<Rightarrow> 'a sched_state_scheme outcome" where
  "tick addr ret st =
     and_then (prepare_switch (SCHEDULER st)) (\<lambda>(s, switch_info).
       case switch_info of
         None \<Rightarrow> Inr (st\<lparr>SCHEDULER := s\<rparr>)
       | Some (old, new) \<Rightarrow>
           and_then (context_switch ret (addr old) (addr new)
                      ((cpu st)\<lparr>ram := spill_contexts addr (threads s) (ram (cpu st))\<rparr>)) (\<lambda>m.
             Inr (st\<lparr>SCHEDULER := s\<lparr>threads :=
                        (threads s)[old := (threads s ! old)\<lparr>t_context :=
                                             \<lparr>ctx_rsp = load64 (ram m) (addr old)\<rparr>\<rparr>]\<rparr>,
                     cpu := m\<rparr>)))"

definition spawn_thread ::
  "u64 \<Rightarrow> u64 option \<Rightarrow> u64 \<Rightarrow> u64 \<Rightarrow> 'a sched_state_scheme \<Rightarrow> (u64 \<times> 'a sched_state_scheme) outcome" where
  "spawn_thread trampoline stack pid entry_fn st =
     and_then (ThreadControlBlock_new trampoline stack pid entry_fn st) (\<lambda>(tcb, st).
       Inr (t_tid tcb, st\<lparr>SCHEDULER := add_thread tcb (SCHEDULER st)\<rparr>))"

definition mark_thread_exited :: "u64 \<Rightarrow> 'a sched_state_scheme \<Rightarrow> 'a sched_state_scheme" where
  "mark_thread_exited tid st = st\<lparr>SCHEDULER := mark_exited tid (SCHEDULER st)\<rparr>"

definition current_tid :: "'a sched_state_scheme \<Rightarrow> u64 outcome" where
  "current_tid st = Scheduler_current_tid (SCHEDULER st)"

definition current_pid :: "'a sched_state_scheme \<Rightarrow> u64 outcome" where
  "current_pid st = Scheduler_current_pid (SCHEDULER st)"

section \<open>Well-formedness\<close>

definition sched_wf :: "Scheduler \<Rightarrow> bool" where
  "sched_wf s \<longleftrightarrow>
     (if threads s = [] then current s = 0 else current s < length (threads s)) \<and>
     (\<forall>i < length (threads s). i \<noteq> current s \<longrightarrow> t_state (threads s ! i) \<noteq> Running)"

section \<open>Choosing the next thread\<close>

text \<open>The loop against its reference: the first ready index in cyclic order after \<open>current\<close>.\<close>

definition candidates :: "Scheduler \<Rightarrow> nat list" where
  "candidates s = map (\<lambda>k. (current s + k) mod length (threads s)) [1..<length (threads s)]"

abbreviation is_ready :: "Scheduler \<Rightarrow> nat \<Rightarrow> bool" where
  "is_ready s i \<equiv> t_state (threads s ! i) = Ready"

lemma next_ready_loop_find:
  "next_ready_loop ts cur i =
     Inr (find (\<lambda>idx. t_state (ts ! idx) = Ready)
           (map (\<lambda>k. (cur + k) mod length ts) [i..<length ts]))"
proof (induction ts cur i rule: next_ready_loop.induct)
  case (1 ts cur i)
  show ?case
  proof (cases "i < length ts")
    case True
    then have "(cur + i) mod length ts < length ts" by (intro mod_less_divisor) auto
    with True 1 show ?thesis
      by (simp add: next_ready_loop.simps [of ts cur i] upt_conv_Cons Let_def)
  next
    case False
    then show ?thesis by (simp add: next_ready_loop.simps [of ts cur i])
  qed
qed

lemma next_ready_thread_find: "next_ready_thread s = Inr (find (is_ready s) (candidates s))"
  by (auto simp: next_ready_thread_def next_ready_loop_find candidates_def Let_def le_Suc_eq)

lemma candidates_nth:
  "k < length (threads s) - 1 \<Longrightarrow>
     candidates s ! k = (current s + Suc k) mod length (threads s)"
  by (simp add: candidates_def)

lemma length_candidates [simp]: "length (candidates s) = length (threads s) - 1"
  by (simp add: candidates_def)

lemma candidates_less: "i \<in> set (candidates s) \<Longrightarrow> i < length (threads s)"
  by (auto simp: candidates_def intro!: mod_less_divisor)

lemma candidates_neq_current:
  assumes "i \<in> set (candidates s)" "current s < length (threads s)"
  shows "i \<noteq> current s"
proof
  assume "i = current s"
  with assms obtain k where "1 \<le> k" "k < length (threads s)"
      "(current s + k) mod length (threads s) = (current s + 0) mod length (threads s)"
    by (auto simp: candidates_def)
  with assms show False using mod_add_cancel_left_less [of "current s" k _ 0] by fastforce
qed

lemma find_ready_position:
  assumes "find (is_ready s) (candidates s) = Some j"
  obtains p where "p < length (threads s) - 1" "j = (current s + Suc p) mod length (threads s)"
    "is_ready s j" "\<And>i. i < p \<Longrightarrow> \<not> is_ready s ((current s + Suc i) mod length (threads s))"
proof -
  from assms obtain p where "p < length (candidates s)" "j = candidates s ! p" "is_ready s j"
      "\<forall>i < p. \<not> is_ready s (candidates s ! i)"
    by (auto simp: find_Some_iff)
  with that show thesis by (auto simp: candidates_nth)
qed

section \<open>The switch\<close>

definition demote :: "ThreadControlBlock \<Rightarrow> ThreadControlBlock" where
  "demote t = (if t_state t = Running then t\<lparr>t_state := Ready\<rparr> else t)"

definition promote :: "ThreadControlBlock \<Rightarrow> ThreadControlBlock" where
  "promote t = t\<lparr>t_state := Running\<rparr>"

definition switch_to :: "Scheduler \<Rightarrow> nat \<Rightarrow> Scheduler" where
  "switch_to s j =
     s\<lparr>threads := (threads s)[current s := demote (threads s ! current s), j := promote (threads s ! j)],
       current := j\<rparr>"

lemma prepare_switch_wf:
  assumes "sched_wf s"
  shows "prepare_switch s =
     Inr (case find (is_ready s) (candidates s) of
            None \<Rightarrow> (s, None)
          | Some j \<Rightarrow> (switch_to s j, Some (current s, j)))"
proof (cases "find (is_ready s) (candidates s)")
  case None
  then show ?thesis by (simp add: prepare_switch_def next_ready_thread_find)
next
  case (Some j)
  then have "j \<in> set (candidates s)" by (auto simp: find_Some_iff)
  moreover from this have "threads s \<noteq> []" by (auto simp: candidates_def)
  with assms have cur: "current s < length (threads s)" by (simp add: sched_wf_def)
  ultimately have "j < length (threads s)" "j \<noteq> current s"
    by (auto dest: candidates_less candidates_neq_current)
  with Some cur show ?thesis
    by (simp add: prepare_switch_def next_ready_thread_find set_state_def switch_to_def
        demote_def promote_def Let_def nth_list_update_neq)
qed

lemma demote_simps [simp]:
  "t_tid (demote t) = t_tid t" "t_pid (demote t) = t_pid t"
  "t_state (demote t) = (if t_state t = Running then Ready else t_state t)"
  "t_context (demote t) = t_context t" "t_stack (demote t) = t_stack t"
  by (simp_all add: demote_def)

lemma promote_simps [simp]:
  "t_tid (promote t) = t_tid t" "t_pid (promote t) = t_pid t" "t_state (promote t) = Running"
  "t_context (promote t) = t_context t" "t_stack (promote t) = t_stack t"
  by (simp_all add: promote_def)

lemma switch_to_simps [simp]:
  "current (switch_to s j) = j" "length (threads (switch_to s j)) = length (threads s)"
  by (simp_all add: switch_to_def)

lemma switch_to_wf:
  assumes "sched_wf s" "j < length (threads s)"
  shows "sched_wf (switch_to s j)"
  using assms by (auto simp: sched_wf_def switch_to_def nth_list_update)

end
