(* ===== verification/Thread_Creation.thy ===== *)
theory Thread_Creation
  imports Scheduler
begin

text \<open>
  What \<open>ThreadControlBlock::new\<close> and \<open>spawn_thread\<close> establish: the first stack frame lies
  inside the new stack and is laid out as \<open>context_switch\<close> pops it, identifiers are fresh,
  and the interface \<open>thread_service\<close> that \<^verbatim>\<open>process.rs\<close> relies on, with its interpretation
  on the scheduler's operations.
\<close>

section \<open>The first frame of a thread\<close>

lemma initial_frame_length [simp]: "length (initial_frame e t) = 7"
  by (simp add: initial_frame_def)

definition stack_pointer_of :: "u64 \<Rightarrow> u64" where
  "stack_pointer_of p = ((p + KERNEL_STACK_SIZE) AND NOT 0xF) - 56"

lemma stack_pointer_bounds:
  assumes "unat p + 16384 < 2 ^ 64"
  shows "unat p \<le> unat (stack_pointer_of p)"
    and "unat (stack_pointer_of p) + 56 \<le> unat p + 16384"
    and "(stack_pointer_of p + 56) AND 0xF = 0"
    and "56 \<le> (p + KERNEL_STACK_SIZE) AND NOT 0xF"
proof -
  let ?top = "(p + KERNEL_STACK_SIZE) AND NOT 0xF"
  have mask4: "(0xF :: u64) = mask 4" by (simp add: mask_eq_exp_minus_1)
  have sum: "unat (p + KERNEL_STACK_SIZE) = unat p + 16384"
    using assms by (simp add: KERNEL_STACK_SIZE_def unat_word_ariths)
  have top: "unat ?top = (unat p + 16384) - (unat p + 16384) mod 16"
    unfolding mask4 unat_align_down sum by simp
  then have range: "unat p + 16384 - 15 \<le> unat ?top" "unat ?top \<le> unat p + 16384"
    by (auto intro: diff_le_mono2 simp: less_Suc_eq_le [symmetric])
  then show le: "56 \<le> ?top" by (simp add: word_le_nat_alt)
  then have sp: "unat (stack_pointer_of p) = unat ?top - 56"
    by (simp add: stack_pointer_of_def unat_sub)
  show "unat p \<le> unat (stack_pointer_of p)" using range sp by linarith
  show "unat (stack_pointer_of p) + 56 \<le> unat p + 16384" using range sp by linarith
  have "?top AND 0xF = 0" by (rule bit_eqI) (auto simp: bit_simps)
  then show "(stack_pointer_of p + 56) AND 0xF = 0" by (simp add: stack_pointer_of_def)
qed

definition new_thread :: "u64 \<Rightarrow> u64 \<Rightarrow> u64 \<Rightarrow> ThreadControlBlock" where
  "new_thread tid pid p =
     \<lparr>t_tid = tid, t_pid = pid, t_state = Ready, t_context = \<lparr>ctx_rsp = stack_pointer_of p\<rparr>,
      t_stack = \<lparr>vec_ptr = p, vec_len = unat KERNEL_STACK_SIZE\<rparr>\<rparr>"

definition stack_ram :: "u64 \<Rightarrow> u64 \<Rightarrow> u64 \<Rightarrow> mem \<Rightarrow> mem" where
  "stack_ram trampoline entry_fn p m =
     store_words (zero_fill p (unat KERNEL_STACK_SIZE) m) (stack_pointer_of p)
       (initial_frame entry_fn trampoline)"

lemma ThreadControlBlock_new_run:
  assumes "unat p + 16384 < 2 ^ 64"
  shows "ThreadControlBlock_new trampoline (Some p) pid entry_fn st =
     Inr (new_thread (NEXT_TID st) pid p,
          st\<lparr>NEXT_TID := NEXT_TID st + 1,
             cpu := (cpu st)\<lparr>ram := stack_ram trampoline entry_fn p (ram (cpu st))\<rparr>\<rparr>)"
proof -
  have "add_checked p KERNEL_STACK_SIZE = Inr (p + KERNEL_STACK_SIZE)"
    using assms by (simp add: add_checked_def KERNEL_STACK_SIZE_def)
  moreover have "sub_checked ((p + KERNEL_STACK_SIZE) AND NOT 0xF) 56 = Inr (stack_pointer_of p)"
    using stack_pointer_bounds(4) [OF assms] by (simp add: sub_checked_def stack_pointer_of_def)
  ultimately show ?thesis
    by (simp add: ThreadControlBlock_new_def Let_def write_slots_eq new_thread_def stack_ram_def)
qed

lemma stack_ram_frame:
  "load_words (stack_ram trampoline entry_fn p m) (stack_pointer_of p) 7 = initial_frame entry_fn trampoline"
  unfolding stack_ram_def
  using load_words_store_words_same [of "initial_frame entry_fn trampoline"] by simp

lemma spawn_thread_run:
  assumes "unat p + 16384 < 2 ^ 64"
  shows "spawn_thread trampoline (Some p) pid entry_fn st =
     Inr (NEXT_TID st,
          st\<lparr>NEXT_TID := NEXT_TID st + 1,
             SCHEDULER := add_thread (new_thread (NEXT_TID st) pid p) (SCHEDULER st),
             cpu := (cpu st)\<lparr>ram := stack_ram trampoline entry_fn p (ram (cpu st))\<rparr>\<rparr>)"
  by (simp add: spawn_thread_def ThreadControlBlock_new_run [OF assms] new_thread_def)

lemma spawn_thread_out_of_memory:
  "spawn_thread trampoline None pid entry_fn st = Inl AllocationError"
  by (simp add: spawn_thread_def ThreadControlBlock_new_def Let_def)

section \<open>Thread identities\<close>

text \<open>
  \<open>tids_wf\<close>: identifiers are pairwise different and all below \<open>NEXT_TID\<close>, so the next one
  \<open>fetch_add\<close> returns is fresh. It is kept by \<open>spawn_thread\<close> as long as the counter has
  not reached its last value, where \<open>fetch_add\<close> wraps to 0.
\<close>

definition tids_wf :: "'a sched_state_scheme \<Rightarrow> bool" where
  "tids_wf st \<longleftrightarrow> distinct (map t_tid (threads (SCHEDULER st))) \<and>
     (\<forall>t \<in> set (threads (SCHEDULER st)). t_tid t < NEXT_TID st)"

definition thread_state :: "'a sched_state_scheme \<Rightarrow> u64 \<Rightarrow> ThreadState option" where
  "thread_state st tid = map_option t_state (find (\<lambda>t. t_tid t = tid) (threads (SCHEDULER st)))"

lemma mark_exited_in_map:
  "distinct (map t_tid ts) \<Longrightarrow>
     mark_exited_in tid ts = map (\<lambda>t. if t_tid t = tid then t\<lparr>t_state := Exited\<rparr> else t) ts"
proof (induction ts)
  case (Cons t ts)
  have "map (\<lambda>u. if t_tid u = t_tid t then u\<lparr>t_state := Exited\<rparr> else u) ts = ts"
    using Cons.prems by (intro map_idI) (force simp: image_iff)
  with Cons show ?case by auto
qed simp

lemma mark_exited_in_absent: "tid \<notin> set (map t_tid ts) \<Longrightarrow> mark_exited_in tid ts = ts"
  by (induction ts) auto

lemma mark_exited_in_shape [simp]:
  "map t_tid (mark_exited_in tid ts) = map t_tid ts"
  "map t_pid (mark_exited_in tid ts) = map t_pid ts"
  "length (mark_exited_in tid ts) = length ts"
  by (induction ts) auto

lemma tids_less_shape:
  assumes "map t_tid ts = map t_tid us"
  shows "(\<forall>t \<in> set ts. P (t_tid t)) \<longleftrightarrow> (\<forall>u \<in> set us. P (t_tid u))"
  using arg_cong [OF assms, of set] by (auto simp: image_def set_eq_iff) metis+

lemma mark_thread_exited_tids_wf: "tids_wf st \<Longrightarrow> tids_wf (mark_thread_exited tid st)"
  using tids_less_shape [of "mark_exited_in tid (threads (SCHEDULER st))" "threads (SCHEDULER st)"
      "\<lambda>t. t < NEXT_TID st"]
  by (simp add: tids_wf_def mark_thread_exited_def mark_exited_def)

lemma mark_thread_exited_state:
  assumes "tids_wf st"
  shows "thread_state (mark_thread_exited tid st) tid' =
    (if tid' = tid \<and> thread_state st tid \<noteq> None then Some Exited else thread_state st tid')"
proof -
  have "map_option t_state (find (\<lambda>t. t_tid t = tid') (mark_exited_in tid ts)) =
     (if tid' = tid \<and> find (\<lambda>t. t_tid t = tid) ts \<noteq> None then Some Exited
      else map_option t_state (find (\<lambda>t. t_tid t = tid') ts))" for ts
    by (induction ts) auto
  then show ?thesis by (simp add: thread_state_def mark_thread_exited_def mark_exited_def)
qed

lemma thread_state_None_iff:
  "thread_state st tid = None \<longleftrightarrow> tid \<notin> t_tid ` set (threads (SCHEDULER st))"
  by (auto simp: thread_state_def find_None_iff)

lemma find_append: "find P (xs @ ys) = (case find P xs of None \<Rightarrow> find P ys | Some x \<Rightarrow> Some x)"
  by (induction xs) auto

lemma less_succ_u64: "x < n \<Longrightarrow> n \<noteq> - 1 \<Longrightarrow> x < n + 1" for x n :: u64
  using unatSuc [of n] by (simp add: word_less_nat_alt add.commute add_eq_0_iff)

lemma less_succ_self_u64: "n \<noteq> - 1 \<Longrightarrow> n < n + 1" for n :: u64
  using unatSuc [of n] by (simp add: word_less_nat_alt add.commute add_eq_0_iff)

lemma ThreadControlBlock_new_fields:
  assumes "ThreadControlBlock_new trampoline stack pid entry_fn st = Inr (tcb, st')"
  shows "t_tid tcb = NEXT_TID st" "t_pid tcb = pid" "t_state tcb = Ready"
    and "NEXT_TID st' = NEXT_TID st + 1" "SCHEDULER st' = SCHEDULER st"
    and "sched_state.more st' = sched_state.more st"
  using assms
  by (auto simp: ThreadControlBlock_new_def Let_def outcome_simps split: option.splits)

lemma spawn_thread_Inr:
  assumes "spawn_thread trampoline stack pid entry_fn st = Inr (tid, st')"
  obtains tcb where "t_tid tcb = tid" "t_pid tcb = pid" "t_state tcb = Ready" "tid = NEXT_TID st"
    "NEXT_TID st' = NEXT_TID st + 1" "SCHEDULER st' = add_thread tcb (SCHEDULER st)"
    "sched_state.more st' = sched_state.more st"
proof -
  from assms obtain tcb st1
    where new: "ThreadControlBlock_new trampoline stack pid entry_fn st = Inr (tcb, st1)"
      and st': "tid = t_tid tcb" "st' = st1\<lparr>SCHEDULER := add_thread tcb (SCHEDULER st1)\<rparr>"
    by (auto simp: spawn_thread_def outcome_simps)
  show thesis
    using ThreadControlBlock_new_fields [OF new] st' by (intro that [of tcb]) simp_all
qed

lemma spawn_thread_laws:
  assumes "tids_wf st" "NEXT_TID st \<noteq> - 1"
    and spawn: "spawn_thread trampoline stack pid entry_fn st = Inr (tid, st')"
  shows "thread_state st tid = None" "tids_wf st'" "NEXT_TID st' = NEXT_TID st + 1"
    and "thread_state st' = (thread_state st)(tid \<mapsto> Ready)"
proof -
  from spawn obtain tcb where tid: "tid = NEXT_TID st" "t_tid tcb = tid" "t_state tcb = Ready"
    and st': "NEXT_TID st' = NEXT_TID st + 1" "SCHEDULER st' = add_thread tcb (SCHEDULER st)"
    by (rule spawn_thread_Inr) simp
  have fresh: "t_tid t < NEXT_TID st + 1" "t_tid t \<noteq> NEXT_TID st"
    if "t \<in> set (threads (SCHEDULER st))" for t
    using assms(1,2) that less_succ_u64 by (auto simp: tids_wf_def)
  show none: "thread_state st tid = None" "NEXT_TID st' = NEXT_TID st + 1"
    using fresh(2) tid st' unfolding thread_state_None_iff by force+
  show "tids_wf st'"
    using assms(1) fresh st' tid less_succ_self_u64 [OF assms(2)]
    by (auto simp: tids_wf_def add_thread_def)
  show "thread_state st' = (thread_state st)(tid \<mapsto> Ready)"
    using none tid st'
    by (auto simp: thread_state_def add_thread_def find_append fun_eq_iff split: option.splits)
qed

text \<open>
  The interface \<^verbatim>\<open>process.rs\<close> uses: it creates threads, asks for their exit by identifier
  and never looks inside the scheduler. The contract is over \<open>state_of\<close>, the state of a
  thread by its identifier.
\<close>

locale thread_service =
  fixes state_of :: "'s \<Rightarrow> u64 \<Rightarrow> ThreadState option"
    and mark :: "u64 \<Rightarrow> 's \<Rightarrow> 's"
    and spawn :: "'req \<Rightarrow> 's \<Rightarrow> (u64 \<times> 's) outcome"
    and ids_ok :: "'s \<Rightarrow> bool"
    and ids_left :: "'s \<Rightarrow> bool"
  assumes state_of_mark: "ids_ok s \<Longrightarrow>
      state_of (mark t s) t' = (if t' = t \<and> state_of s t \<noteq> None then Some Exited else state_of s t')"
    and ids_ok_mark: "ids_ok s \<Longrightarrow> ids_ok (mark t s)"
    and spawn_fresh: "ids_ok s \<Longrightarrow> ids_left s \<Longrightarrow> spawn r s = Inr (t, s') \<Longrightarrow> state_of s t = None"
    and state_of_spawn: "ids_ok s \<Longrightarrow> ids_left s \<Longrightarrow> spawn r s = Inr (t, s') \<Longrightarrow>
      state_of s' t' = (if t' = t then Some Ready else state_of s t')"
    and ids_ok_spawn: "ids_ok s \<Longrightarrow> ids_left s \<Longrightarrow> spawn r s = Inr (t, s') \<Longrightarrow> ids_ok s'"
begin

lemma ids_ok_mark_all: "ids_ok s \<Longrightarrow> ids_ok (fold mark ts s)"
  by (induction ts arbitrary: s) (auto intro: ids_ok_mark)

lemma state_of_mark_all:
  "ids_ok s \<Longrightarrow>
     state_of (fold mark ts s) t' =
       (if t' \<in> set ts \<and> state_of s t' \<noteq> None then Some Exited else state_of s t')"
  by (induction ts arbitrary: s) (auto simp: ids_ok_mark state_of_mark)

text \<open>A thread created and then marked is gone for good, and nobody else notices.\<close>

lemma spawn_then_mark:
  assumes "ids_ok s" "ids_left s" "spawn r s = Inr (t, s')"
  shows "state_of (mark t s') t = Some Exited"
    and "t' \<noteq> t \<Longrightarrow> state_of (mark t s') t' = state_of s t'"
  using assms ids_ok_spawn state_of_mark state_of_spawn by auto

end

interpretation sched_threads: thread_service thread_state mark_thread_exited
  "\<lambda>(trampoline, stack, pid, entry_fn). spawn_thread trampoline stack pid entry_fn"
  tids_wf "\<lambda>st :: 'a sched_state_scheme. NEXT_TID st \<noteq> - 1"
  by unfold_locales
    (auto simp: mark_thread_exited_state mark_thread_exited_tids_wf dest: spawn_thread_laws)

section \<open>Starting a thread\<close>

lemma new_thread_first_switch:
  assumes room: "unat p + 16384 < 2 ^ 64"
    and new: "ThreadControlBlock_new trampoline (Some p) pid entry_fn st = Inr (tcb, st')"
    and placed: "ram m = store64 (ram (cpu st')) ctx (ctx_rsp (t_context tcb))"
      "apart ctx 8 (ctx_rsp (t_context tcb)) 56"
    and sep: "spared (regs m RSP - 56) old ctx 8"
      "spared (regs m RSP - 56) old (ctx_rsp (t_context tcb)) 56"
      "apart old 8 (regs m RSP - 56) 56"
  shows "unat p \<le> unat (ctx_rsp (t_context tcb)) \<and>
         unat (ctx_rsp (t_context tcb)) + 56 \<le> unat p + 16384 \<and>
         (\<exists>m1 m2. context_switch ret old ctx m = Inr m1 \<and> rip m1 = trampoline \<and>
            thread_trampoline m1 = Inr m2 \<and> rip m2 = entry_fn \<and> interrupt_flag m2 \<and>
            (regs m2 RSP + 8) AND 0xF = 0 \<and> unat p \<le> unat (regs m2 RSP) \<and>
            unat (regs m2 RSP) + 8 \<le> unat p + 16384)"
proof -
  let ?sp = "stack_pointer_of p"
  note bounds = stack_pointer_bounds [OF room]
  have tcb: "ctx_rsp (t_context tcb) = ?sp"
    and ram: "ram (cpu st') = stack_ram trampoline entry_fn p (ram (cpu st))"
    using new by (auto simp: ThreadControlBlock_new_run [OF room] new_thread_def)
  have "parked (ram m) ctx ?sp (initial_frame entry_fn trampoline)"
    using placed by (simp add: parked_def tcb ram load_store_same load_words_store_apart
        stack_ram_frame)
  then obtain m1 where m1: "context_switch ret old ctx m = Inr m1"
      "saved_frame m1 (rip m1) = initial_frame entry_fn trampoline" "regs m1 RSP = ?sp + 56"
    using sep unfolding tcb by (rule context_switch_contract)
  then have entry: "rip m1 = trampoline" "regs m1 R12 = entry_fn"
    by (auto simp: saved_frame_def callee_saved_def initial_frame_def)
  have "unat (48 + ?sp) = 48 + unat ?sp"
    using bounds(2) room by (simp add: unat_word_ariths)
  then show ?thesis
    using m1 entry bounds by (simp add: tcb thread_trampoline_run push_word_def)
qed

text \<open>
  C12. A new thread starts correctly: \<open>ThreadControlBlock::new\<close> never panics on a stack that does
  not touch the end of the address space, its frame lies inside the stack, and the first switch to it
  followed by the trampoline reaches \<open>entry_fn\<close> with interrupts enabled, with the stack pointer
  inside the new stack and aligned as the System V ABI requires at a function entry
  (\<open>rsp + 8\<close> a multiple of 16).
\<close>

theorem new_thread_starts:
  assumes room: "unat p + 16384 < 2 ^ 64"
  shows "\<exists>tcb st'. ThreadControlBlock_new trampoline (Some p) pid entry_fn st = Inr (tcb, st') \<and>
     unat p \<le> unat (ctx_rsp (t_context tcb)) \<and> unat (ctx_rsp (t_context tcb)) + 56 \<le> unat p + 16384 \<and>
     (\<forall>m ctx old ret. ram m = store64 (ram (cpu st')) ctx (ctx_rsp (t_context tcb)) \<and>
        apart ctx 8 (ctx_rsp (t_context tcb)) 56 \<and> spared (regs m RSP - 56) old ctx 8 \<and>
        spared (regs m RSP - 56) old (ctx_rsp (t_context tcb)) 56 \<and> apart old 8 (regs m RSP - 56) 56 \<longrightarrow>
        (\<exists>m1 m2. context_switch ret old ctx m = Inr m1 \<and> rip m1 = trampoline \<and>
           thread_trampoline m1 = Inr m2 \<and> rip m2 = entry_fn \<and> interrupt_flag m2 \<and>
           (regs m2 RSP + 8) AND 0xF = 0 \<and> unat p \<le> unat (regs m2 RSP) \<and>
           unat (regs m2 RSP) + 8 \<le> unat p + 16384))"
proof -
  obtain tcb st' where new: "ThreadControlBlock_new trampoline (Some p) pid entry_fn st = Inr (tcb, st')"
    by (simp add: ThreadControlBlock_new_run [OF room])
  then have "ctx_rsp (t_context tcb) = stack_pointer_of p"
    by (auto simp: ThreadControlBlock_new_run [OF room] new_thread_def)
  moreover note stack_pointer_bounds [OF room] new_thread_first_switch [OF room new, THEN conjunct2, THEN conjunct2]
  ultimately show ?thesis
    by (intro exI [of _ tcb] exI [of _ st'] conjI allI impI new) auto
qed

theorem new_thread_starts_witness:
  "\<exists>tcb st' m1 m2.
     ThreadControlBlock_new 0xAAAA (Some 0x20000) 5 0xBBBB
       \<lparr>SCHEDULER = Scheduler_new, NEXT_TID = 1, cpu = example_machine\<rparr> = Inr (tcb, st') \<and>
     context_switch 0x77 0x1000 0x1040
       (example_machine\<lparr>ram := store64 (ram (cpu st')) 0x1040 (ctx_rsp (t_context tcb))\<rparr>) = Inr m1 \<and>
     thread_trampoline m1 = Inr m2 \<and> rip m2 = 0xBBBB \<and> interrupt_flag m2"
proof -
  let ?st = "\<lparr>SCHEDULER = Scheduler_new, NEXT_TID = 1, cpu = example_machine\<rparr> :: sched_state"
  have room: "unat (0x20000 :: u64) + 16384 < 2 ^ 64" by simp
  from new_thread_starts [OF this, of "0xAAAA" 5 "0xBBBB" ?st]
  obtain tcb st' where new: "ThreadControlBlock_new 0xAAAA (Some 0x20000) 5 0xBBBB ?st = Inr (tcb, st')"
    and switch: "\<And>m ctx old ret. ram m = store64 (ram (cpu st')) ctx (ctx_rsp (t_context tcb)) \<and>
        apart ctx 8 (ctx_rsp (t_context tcb)) 56 \<and> spared (regs m RSP - 56) old ctx 8 \<and>
        spared (regs m RSP - 56) old (ctx_rsp (t_context tcb)) 56 \<and> apart old 8 (regs m RSP - 56) 56 \<Longrightarrow>
        \<exists>m1 m2. context_switch ret old ctx m = Inr m1 \<and> thread_trampoline m1 = Inr m2 \<and> rip m2 = 0xBBBB \<and> interrupt_flag m2"
    by blast
  then have sp: "ctx_rsp (t_context tcb) = 0x20000 + 16384 - 56"
    by (auto simp: ThreadControlBlock_new_run [OF room] new_thread_def stack_pointer_of_def
        KERNEL_STACK_SIZE_def)
  let ?m = "example_machine\<lparr>ram := store64 (ram (cpu st')) 0x1040 (ctx_rsp (t_context tcb))\<rparr>"
  have "\<exists>m1 m2. context_switch 0x77 0x1000 0x1040 ?m = Inr m1 \<and> thread_trampoline m1 = Inr m2 \<and> rip m2 = 0xBBBB \<and> interrupt_flag m2"
    by (rule switch) (simp_all add: sp example_machine_def spared_def apart_def)
  with new show ?thesis by blast
qed

end
