(* ===== verification/Btree_Map.thy ===== *)
theory Btree_Map
  imports Prelude
begin

text \<open>
  \<open>BTreeMap\<close> of the standard library, as far as the kernel uses it: \<open>new\<close>, \<open>insert\<close>
  (which replaces), \<open>get\<close>, mutation through \<open>get_mut\<close>, and \<open>len\<close>. The representation is the
  list of entries in key order. The locale \<open>ordered_map\<close> is what its client, the process
  table, may rely on; it is interpreted here on the entry list.
\<close>

type_synonym ('k, 'v) btree_map = "('k \<times> 'v) list"

definition btree_new :: "('k::linorder, 'v) btree_map" where
  "btree_new = []"

fun btree_insert :: "'k::linorder \<Rightarrow> 'v \<Rightarrow> ('k, 'v) btree_map \<Rightarrow> ('k, 'v) btree_map" where
  "btree_insert k v [] = [(k, v)]"
| "btree_insert k v ((k', v') # m) =
     (if k < k' then (k, v) # (k', v') # m
      else if k = k' then (k, v) # m
      else (k', v') # btree_insert k v m)"

definition btree_get :: "('k::linorder, 'v) btree_map \<Rightarrow> 'k \<Rightarrow> 'v option" where
  "btree_get m k = map_of m k"

text \<open>A mutation of the value \<open>get_mut\<close> hands out; nothing happens when the key is absent.\<close>

definition btree_modify :: "'k::linorder \<Rightarrow> ('v \<Rightarrow> 'v) \<Rightarrow> ('k, 'v) btree_map \<Rightarrow> ('k, 'v) btree_map" where
  "btree_modify k f m = map (\<lambda>(k', v). (k', if k' = k then f v else v)) m"

definition btree_len :: "('k::linorder, 'v) btree_map \<Rightarrow> nat" where
  "btree_len m = length m"

definition btree_wf :: "('k::linorder, 'v) btree_map \<Rightarrow> bool" where
  "btree_wf m \<longleftrightarrow> sorted_wrt (<) (map fst m)"

lemma btree_insert_keys: "fst ` set (btree_insert k v m) = insert k (fst ` set m)"
  by (induction k v m rule: btree_insert.induct) (simp_all add: insert_commute)

lemma btree_insert_wf: "btree_wf m \<Longrightarrow> btree_wf (btree_insert k v m)"
proof (induction m)
  case (Cons e m)
  obtain k' v' where e: "e = (k', v')" by (cases e)
  have "\<forall>x \<in> fst ` set (btree_insert k v m). k' < x" if "k' < k"
    using that Cons.prems unfolding btree_insert_keys e by (auto simp: btree_wf_def)
  with Cons show ?case
    unfolding e btree_wf_def by (fastforce simp: not_less_iff_gr_or_eq)
qed (simp add: btree_wf_def)

lemma btree_get_insert: "btree_wf m \<Longrightarrow> btree_get (btree_insert k v m) = (btree_get m)(k \<mapsto> v)"
  unfolding btree_get_def btree_wf_def by (induction m) (auto simp: fun_eq_iff)

lemma btree_modify_keys [simp]: "map fst (btree_modify k f m) = map fst m"
  by (auto simp: btree_modify_def)

lemma btree_get_modify:
  "btree_get (btree_modify k f m) k' =
     (if k' = k then map_option f (btree_get m k) else btree_get m k')"
  unfolding btree_get_def btree_modify_def by (induction m) auto

locale ordered_map =
  fixes new :: 'm
    and insert :: "'k \<Rightarrow> 'v \<Rightarrow> 'm \<Rightarrow> 'm"
    and get :: "'m \<Rightarrow> 'k \<Rightarrow> 'v option"
    and modify :: "'k \<Rightarrow> ('v \<Rightarrow> 'v) \<Rightarrow> 'm \<Rightarrow> 'm"
    and len :: "'m \<Rightarrow> nat"
    and wf :: "'m \<Rightarrow> bool"
  assumes get_new: "get new k = None"
    and get_insert: "wf m \<Longrightarrow> get (insert k v m) = (get m)(k \<mapsto> v)"
    and get_modify: "get (modify k f m) k' = (if k' = k then map_option f (get m k) else get m k')"
    and len_dom: "wf m \<Longrightarrow> len m = card (dom (get m))"
    and wf_new: "wf new"
    and wf_insert: "wf m \<Longrightarrow> wf (insert k v m)"
    and wf_modify: "wf m \<Longrightarrow> wf (modify k f m)"
begin

lemma dom_modify: "dom (get (modify k f m)) = dom (get m)"
  by (auto simp: get_modify dom_def split: if_splits)

lemma insert_modify:
  "wf m \<Longrightarrow> get (modify k f (insert k v m)) = (get m)(k \<mapsto> f v)"
  by (auto simp: get_modify get_insert fun_eq_iff)

lemma len_insert_fresh:
  assumes "wf m" "get m k = None" "finite (dom (get m))"
  shows "len (insert k v m) = Suc (len m)"
proof -
  have "k \<notin> dom (get m)" using assms(2) by auto
  with assms show ?thesis by (simp add: len_dom wf_insert get_insert)
qed

end

interpretation btree: ordered_map btree_new btree_insert btree_get btree_modify btree_len
  "btree_wf :: ('k::linorder, 'v) btree_map \<Rightarrow> bool"
proof unfold_locales
  fix m :: "('k, 'v) btree_map"
  assume "btree_wf m"
  then have "distinct (map fst m)" by (simp add: btree_wf_def strict_sorted_iff)
  then show "btree_len m = card (dom (btree_get m))"
    unfolding btree_len_def btree_get_def
    by (metis distinct_card dom_map_of_conv_image_fst length_map set_map)
next
  fix m :: "('k, 'v) btree_map" and k f
  show "btree_wf m \<Longrightarrow> btree_wf (btree_modify k f m)"
    unfolding btree_wf_def by simp
qed (simp_all add: btree_get_insert btree_get_modify btree_insert_wf, simp_all add: btree_get_def btree_new_def btree_wf_def)

end
