(* ===== verification/Process.thy ===== *)
theory Process
  imports Thread_Creation Btree_Map
begin

text \<open>
  Processes, \<^verbatim>\<open>kernel/src/process.rs\<close>, and the boot-time initialisation of scheduler and
  process table that \<^verbatim>\<open>scheduler.rs\<close> performs in \<open>init\<close>. A process owns a list of thread
  identifiers; creating one spawns its main thread, exiting one marks its threads through
  the scheduler's interface. \<open>Cr3::read\<close> is the register \<open>CR3\<close> of the state (the physical
  address of the active page table).
\<close>

section \<open>Data\<close>

datatype ProcessState = P_Running | P_Zombie | P_Exited

record ProcessControlBlock =
  p_pid :: u64
  p_name :: string
  p_state :: ProcessState
  p_parent :: "u64 option"
  p_threads :: "u64 list"
  p_exit_code :: "i32 option"
  p_page_table :: u64

record ProcessTable =
  processes :: "(u64, ProcessControlBlock) btree_map"
  next_pid :: u64

record kernel_state = sched_state +
  PROCESS_TABLE :: ProcessTable
  CR3 :: u64
  KLOG :: "log_record list"

section \<open>The process table\<close>

definition ProcessTable_new :: ProcessTable where
  "ProcessTable_new = \<lparr>processes = btree_new, next_pid = 0\<rparr>"

definition alloc_pid :: "ProcessTable \<Rightarrow> (u64 \<times> ProcessTable) outcome" where
  "alloc_pid t = (let pid = next_pid t in
     and_then (add_checked (next_pid t) 1) (\<lambda>n. Inr (pid, t\<lparr>next_pid := n\<rparr>)))"

definition insert_process :: "ProcessControlBlock \<Rightarrow> ProcessTable \<Rightarrow> ProcessTable" where
  "insert_process pcb t = t\<lparr>processes := btree_insert (p_pid pcb) pcb (processes t)\<rparr>"

definition get_process :: "ProcessTable \<Rightarrow> u64 \<Rightarrow> ProcessControlBlock option" where
  "get_process t pid = btree_get (processes t) pid"

definition modify_process ::
  "u64 \<Rightarrow> (ProcessControlBlock \<Rightarrow> ProcessControlBlock) \<Rightarrow> ProcessTable \<Rightarrow> ProcessTable" where
  "modify_process pid f t = t\<lparr>processes := btree_modify pid f (processes t)\<rparr>"

definition process_count :: "ProcessTable \<Rightarrow> nat" where
  "process_count t = btree_len (processes t)"

section \<open>Operations\<close>

definition klog :: "log_record \<Rightarrow> 'a kernel_state_scheme \<Rightarrow> 'a kernel_state_scheme" where
  "klog r st = st\<lparr>KLOG := KLOG st @ [r]\<rparr>"

definition new_pcb :: "u64 \<Rightarrow> string \<Rightarrow> u64 \<Rightarrow> ProcessControlBlock" where
  "new_pcb pid name page_table =
     \<lparr>p_pid = pid, p_name = name, p_state = P_Running,
      p_parent = (if pid = 0 then None else Some 0),
      p_threads = [], p_exit_code = None, p_page_table = page_table\<rparr>"

text \<open>The three sections of \<open>create_process\<close>, each under one hold of a lock.\<close>

definition register_process ::
  "string \<Rightarrow> 'a kernel_state_scheme \<Rightarrow> (u64 \<times> 'a kernel_state_scheme) outcome" where
  "register_process name st =
     and_then (alloc_pid (PROCESS_TABLE st)) (\<lambda>(pid, table).
       Inr (pid, st\<lparr>PROCESS_TABLE := insert_process (new_pcb pid name (CR3 st)) table\<rparr>))"

definition record_thread :: "u64 \<Rightarrow> u64 \<Rightarrow> 'a kernel_state_scheme \<Rightarrow> 'a kernel_state_scheme" where
  "record_thread pid tid st =
     st\<lparr>PROCESS_TABLE :=
          modify_process pid (\<lambda>pcb. pcb\<lparr>p_threads := p_threads pcb @ [tid]\<rparr>) (PROCESS_TABLE st)\<rparr>"

definition create_process ::
  "u64 \<Rightarrow> u64 option \<Rightarrow> string \<Rightarrow> u64 \<Rightarrow> 'a kernel_state_scheme
     \<Rightarrow> (u64 \<times> 'a kernel_state_scheme) outcome" where
  "create_process trampoline stack name entry_fn st =
     and_then (register_process name st) (\<lambda>(pid, st).
     and_then (spawn_thread trampoline stack pid entry_fn st) (\<lambda>(tid, st).
       Inr (pid, klog (info ''Process {} ({}) created with main thread {}''
                         [ArgU64 pid, ArgStr name, ArgU64 tid])
                   (record_thread pid tid st))))"

text \<open>
  The section of \<open>exit_process\<close> under the table's lock gives the list of threads, or nothing for an unknown
  pid; each \<open>mark_thread_exited\<close> then takes the scheduler's lock on its own.
\<close>

definition begin_exit :: "u64 \<Rightarrow> i32 \<Rightarrow> 'a kernel_state_scheme \<Rightarrow> (u64 list \<times> 'a kernel_state_scheme) option" where
  "begin_exit pid exit_code st =
     (case get_process (PROCESS_TABLE st) pid of
        None \<Rightarrow> None
      | Some pcb \<Rightarrow>
          Some (p_threads pcb,
                st\<lparr>PROCESS_TABLE := modify_process pid
                     (\<lambda>pcb. pcb\<lparr>p_state := P_Zombie, p_exit_code := Some exit_code\<rparr>)
                     (PROCESS_TABLE st)\<rparr>))"

definition end_exit :: "u64 \<Rightarrow> i32 \<Rightarrow> 'a kernel_state_scheme \<Rightarrow> 'a kernel_state_scheme" where
  "end_exit pid exit_code st = klog (info ''Process {} exited with code {}'' [ArgU64 pid, ArgI32 exit_code]) st"

definition exit_process :: "u64 \<Rightarrow> i32 \<Rightarrow> 'a kernel_state_scheme \<Rightarrow> 'a kernel_state_scheme" where
  "exit_process pid exit_code st =
     (case begin_exit pid exit_code st of
        None \<Rightarrow> st
      | Some (thread_ids, st) \<Rightarrow> end_exit pid exit_code (fold mark_thread_exited thread_ids st))"

lemma exit_process_unfold:
  "exit_process pid exit_code st =
     (case get_process (PROCESS_TABLE st) pid of
        None \<Rightarrow> st
      | Some pcb \<Rightarrow>
          klog (info ''Process {} exited with code {}'' [ArgU64 pid, ArgI32 exit_code])
            (fold mark_thread_exited (p_threads pcb)
              (st\<lparr>PROCESS_TABLE := modify_process pid
                   (\<lambda>pcb. pcb\<lparr>p_state := P_Zombie, p_exit_code := Some exit_code\<rparr>) (PROCESS_TABLE st)\<rparr>)))"
  by (simp add: exit_process_def begin_exit_def end_exit_def split: option.split)

definition process_current_pid :: "'a kernel_state_scheme \<Rightarrow> u64 outcome" where
  "process_current_pid st = current_pid st"

definition process_init :: "'a kernel_state_scheme \<Rightarrow> 'a kernel_state_scheme" where
  "process_init st = klog (info ''Process table initialized'' []) st"

section \<open>scheduler::init\<close>

text \<open>One iteration of the two demo tasks' endless loops.\<close>

definition demo_task_iter :: "u64 \<Rightarrow> u64 \<Rightarrow> u64 \<Rightarrow> (log_record list \<times> u64) outcome" where
  "demo_task_iter pid tid count =
     and_then (add_checked count 1) (\<lambda>count'.
       Inr (if count mod 10000000 = 0
            then [info ''Process {} / Thread {}: tick {}''
                    [ArgU64 pid, ArgU64 tid, ArgU64 (count div 10000000)]]
            else [], count'))"

definition idle_thread :: ThreadControlBlock where
  "idle_thread = \<lparr>t_tid = 0, t_pid = 0, t_state = Running, t_context = TaskContext_empty,
                  t_stack = \<lparr>vec_ptr = 1, vec_len = 0\<rparr>\<rparr>"

text \<open>
  \<open>demo_a\<close> and \<open>demo_b\<close> are the addresses of the two task functions, \<open>stack_a\<close> and \<open>stack_b\<close>
  the allocator's answers for their stacks.
\<close>

definition scheduler_init ::
  "u64 \<Rightarrow> u64 option \<Rightarrow> u64 option \<Rightarrow> u64 \<Rightarrow> u64 \<Rightarrow> 'a kernel_state_scheme
     \<Rightarrow> 'a kernel_state_scheme outcome" where
  "scheduler_init trampoline stack_a stack_b demo_a demo_b st =
     and_then (alloc_pid (PROCESS_TABLE st)) (\<lambda>(pid, table).
     let pcb = \<lparr>p_pid = pid, p_name = ''kernel'', p_state = P_Running, p_parent = None,
                p_threads = [0], p_exit_code = None, p_page_table = CR3 st\<rparr>;
         st = st\<lparr>PROCESS_TABLE := insert_process pcb table\<rparr>;
         st = st\<lparr>SCHEDULER := add_thread idle_thread (SCHEDULER st)\<rparr>
     in and_then (create_process trampoline stack_a ''demo_a'' demo_a st) (\<lambda>(_, st).
        and_then (create_process trampoline stack_b ''demo_b'' demo_b st) (\<lambda>(_, st).
          Inr (klog (info ''Scheduler initialized with {} threads''
                       [ArgUsize (thread_count (SCHEDULER st))]) st))))"

section \<open>Laws of the operations\<close>

definition table_wf :: "ProcessTable \<Rightarrow> bool" where
  "table_wf t \<longleftrightarrow> btree_wf (processes t) \<and>
     (\<forall>pid pcb. get_process t pid = Some pcb \<longrightarrow> p_pid pcb = pid \<and> pid < next_pid t)"

lemma get_process_next [simp]: "get_process (t\<lparr>next_pid := n\<rparr>) = get_process t"
  by (simp add: get_process_def fun_eq_iff)

lemma new_pcb_simps [simp]:
  "p_pid (new_pcb pid name pt) = pid" "p_state (new_pcb pid name pt) = P_Running"
  "p_threads (new_pcb pid name pt) = []" "p_exit_code (new_pcb pid name pt) = None"
  "p_parent (new_pcb pid name pt) = (if pid = 0 then None else Some 0)"
  by (simp_all add: new_pcb_def)

lemma get_insert_process:
  "table_wf t \<Longrightarrow> get_process (insert_process pcb t) = (get_process t)(p_pid pcb \<mapsto> pcb)"
  by (auto simp: table_wf_def insert_process_def get_process_def btree.get_insert fun_eq_iff)

lemma get_modify_process:
  "get_process (modify_process pid f t) pid' =
     (if pid' = pid then map_option f (get_process t pid) else get_process t pid')"
  by (simp add: modify_process_def get_process_def btree.get_modify)

lemma modify_process_next [simp]: "next_pid (modify_process pid f t) = next_pid t"
  by (simp add: modify_process_def)

lemma insert_process_next [simp]: "next_pid (insert_process pcb t) = next_pid t"
  by (simp add: insert_process_def)

lemma modify_process_wf:
  "table_wf t \<Longrightarrow> (\<And>pcb. p_pid (f pcb) = p_pid pcb) \<Longrightarrow> table_wf (modify_process pid f t)"
  unfolding table_wf_def get_modify_process
  by (auto simp: modify_process_def btree.wf_modify split: if_splits)

lemma alloc_pid_Inr:
  "alloc_pid t = Inr (pid, t') \<longleftrightarrow>
     next_pid t \<noteq> - 1 \<and> pid = next_pid t \<and> t' = t\<lparr>next_pid := next_pid t + 1\<rparr>"
proof -
  have "unat (next_pid t) + 1 < 2 ^ 64 \<longleftrightarrow> next_pid t \<noteq> - 1"
    using unsigned_less [of "next_pid t", where ?'a = nat] word_unat_eq_iff [of "next_pid t" "- 1"]
    by (auto simp: unsigned_minus_1_eq_mask mask_eq_exp_minus_1)
  then show ?thesis by (auto simp: alloc_pid_def add_checked_def Let_def)
qed

lemma table_wf_fresh: "table_wf t \<Longrightarrow> get_process t (next_pid t) = None"
  unfolding table_wf_def by (metis less_irrefl not_Some_eq)

lemma register_process_laws:
  assumes "register_process name st = Inr (pid, st')" "table_wf (PROCESS_TABLE st)"
  shows "pid = next_pid (PROCESS_TABLE st)" "get_process (PROCESS_TABLE st) pid = None"
    and "get_process (PROCESS_TABLE st') = (get_process (PROCESS_TABLE st))(pid \<mapsto> new_pcb pid name (CR3 st))"
    and "table_wf (PROCESS_TABLE st')" "next_pid (PROCESS_TABLE st') = pid + 1"
    and "st' = st\<lparr>PROCESS_TABLE := PROCESS_TABLE st'\<rparr>"
proof -
  from assms(1) have reg: "next_pid (PROCESS_TABLE st) \<noteq> - 1" "pid = next_pid (PROCESS_TABLE st)"
      "st' = st\<lparr>PROCESS_TABLE := insert_process (new_pcb pid name (CR3 st))
                ((PROCESS_TABLE st)\<lparr>next_pid := pid + 1\<rparr>)\<rparr>"
    by (auto simp: register_process_def outcome_simps alloc_pid_Inr)
  let ?t = "(PROCESS_TABLE st)\<lparr>next_pid := pid + 1\<rparr>"
  have lt: "x < pid + 1" if "x < pid" for x using that reg less_succ_u64 by blast
  have wf: "table_wf ?t"
    using assms(2) lt reg(2) by (auto simp: table_wf_def)
  show "pid = next_pid (PROCESS_TABLE st)" "get_process (PROCESS_TABLE st) pid = None"
    "st' = st\<lparr>PROCESS_TABLE := PROCESS_TABLE st'\<rparr>" "next_pid (PROCESS_TABLE st') = pid + 1"
    using reg assms(2) by (simp_all add: table_wf_fresh)
  show get: "get_process (PROCESS_TABLE st') =
      (get_process (PROCESS_TABLE st))(pid \<mapsto> new_pcb pid name (CR3 st))"
    using get_insert_process [OF wf] reg(3) by simp
  show "table_wf (PROCESS_TABLE st')"
    using wf reg get less_succ_self_u64 [OF reg(1)] assms(2) lt
    by (auto simp: table_wf_def insert_process_def btree.wf_insert split: if_splits)
qed

lemma finite_processes: "finite (dom (get_process t))"
  by (simp add: get_process_def btree_get_def finite_dom_map_of)

lemma process_count_modify: "table_wf t \<Longrightarrow> process_count (modify_process pid f t) = process_count t"
  unfolding process_count_def modify_process_def table_wf_def
  by (simp add: btree.len_dom btree.wf_modify btree.dom_modify)

lemma new_table_wf: "table_wf ProcessTable_new"
  by (simp add: table_wf_def ProcessTable_new_def btree_wf_def btree_new_def get_process_def btree_get_def)

text \<open>
  C15. The process table keeps its type and behaves as a map from pids to control blocks. A new table is
  well-formed and empty. On a well-formed table (entries sorted by pid, each under its own pid, all
  below \<open>next_pid\<close>) \<open>alloc_pid\<close> panics exactly when the pids are used up and otherwise returns one that is
  not in the table; inserting its control block keeps the table well-formed, adds that entry and counts one
  more; a mutation through \<open>get_mut\<close> that keeps the pid changes just that entry and not the count.
\<close>

theorem process_table_map:
  assumes "table_wf t"
  shows "table_wf ProcessTable_new \<and> get_process ProcessTable_new = Map.empty \<and> process_count ProcessTable_new = 0 \<and>
     (case alloc_pid t of
        Inl e \<Rightarrow> e = ArithmeticOverflow \<and> next_pid t = - 1
      | Inr (pid, t') \<Rightarrow> next_pid t \<noteq> - 1 \<and> get_process t pid = None \<and>
          (\<forall>pcb. p_pid pcb = pid \<longrightarrow> table_wf (insert_process pcb t') \<and>
             get_process (insert_process pcb t') = (get_process t)(pid \<mapsto> pcb) \<and>
             process_count (insert_process pcb t') = Suc (process_count t))) \<and>
     (\<forall>pid f. (\<forall>pcb. p_pid (f pcb) = p_pid pcb) \<longrightarrow> table_wf (modify_process pid f t) \<and>
        get_process (modify_process pid f t) = (get_process t)(pid := map_option f (get_process t pid)) \<and>
        process_count (modify_process pid f t) = process_count t)"
proof -
  have new: "get_process ProcessTable_new = Map.empty" "process_count ProcessTable_new = 0"
    by (simp_all add: get_process_def ProcessTable_new_def fun_eq_iff process_count_def btree_len_def btree_new_def btree_get_def)
  have "table_wf (insert_process pcb t') \<and> get_process (insert_process pcb t') = (get_process t)(pid \<mapsto> pcb) \<and>
      process_count (insert_process pcb t') = Suc (process_count t) \<and> get_process t pid = None"
    if alloc: "alloc_pid t = Inr (pid, t')" and pcb: "p_pid pcb = pid" for pid t' pcb
  proof -
    have t': "next_pid t \<noteq> - 1" "pid = next_pid t" "t' = t\<lparr>next_pid := next_pid t + 1\<rparr>" using alloc by (auto simp: alloc_pid_Inr)
    have "x < pid + 1" if "x < pid" for x using that t' less_succ_u64 by blast
    then have wf: "table_wf t'" using assms t' by (auto simp: table_wf_def)
    have fresh: "get_process t pid = None" using table_wf_fresh [OF assms] t'(2) by simp
    have get: "get_process (insert_process pcb t') = (get_process t)(pid \<mapsto> pcb)"
      using get_insert_process [OF wf] pcb t'(3) by simp
    moreover have "table_wf (insert_process pcb t')"
      using wf get pcb less_succ_self_u64 [OF t'(1)] t' assms
      by (auto simp: table_wf_def insert_process_def btree.wf_insert split: if_splits)
    moreover have "process_count (insert_process pcb t') = Suc (process_count t)"
      using btree.len_insert_fresh [of "processes t" pid pcb] assms fresh finite_processes [of t] t'(3) pcb
      by (simp add: process_count_def insert_process_def table_wf_def get_process_def [abs_def])
    ultimately show ?thesis using fresh by blast
  qed
  note ins = this
  have "next_pid t = - 1 \<and> e = ArithmeticOverflow" if "alloc_pid t = Inl e" for e
    using that succ_u64_iff [of "next_pid t"] by (auto simp: alloc_pid_def add_checked_def Let_def split: if_splits)
  moreover have "get_process (modify_process pid f t) = (get_process t)(pid := map_option f (get_process t pid))" for pid f
    by (simp add: fun_eq_iff get_modify_process)
  ultimately show ?thesis
    using new_table_wf new ins modify_process_wf [OF assms] process_count_modify [OF assms] alloc_pid_Inr table_wf_fresh [OF assms]
    by (auto split: sum.splits)
qed

theorem process_table_map_witness:
  "\<exists>pid t'. alloc_pid ProcessTable_new = Inr (pid, t') \<and> process_count (insert_process (new_pcb pid ''a'' 0) t') = 1"
proof -
  have "case alloc_pid ProcessTable_new of Inl e \<Rightarrow> e = ArithmeticOverflow \<and> next_pid ProcessTable_new = - 1
      | Inr (pid, t') \<Rightarrow> process_count (insert_process (new_pcb pid ''a'' 0) t') = Suc (process_count ProcessTable_new)"
    using process_table_map [OF new_table_wf] by (auto split: sum.splits)
  then show ?thesis
    by (auto simp: ProcessTable_new_def process_count_def btree_len_def btree_new_def split: sum.splits)
qed

end
