(* ===== verification/Round_Robin.thy ===== *)
theory Round_Robin
  imports Prelude
begin

text \<open>
  The abstract specification of round-robin scheduling, independent of how the kernel
  stores its threads: a queue whose head is the running thread. A tick hands the
  processor to the first ready thread behind the head; the threads it passes over and the
  old head move to the back, in order. The locale \<open>round_robin\<close> is the interface between a
  concrete scheduler and this specification: what every step of an implementation must do
  to its queue; starvation freedom is proved once from that law.
\<close>

fun rr_step :: "('t \<Rightarrow> bool) \<Rightarrow> ('t \<Rightarrow> 't) \<Rightarrow> ('t \<Rightarrow> 't) \<Rightarrow> 't list \<Rightarrow> 't list" where
  "rr_step ready run demote [] = []"
| "rr_step ready run demote (c # q) =
     (case dropWhile (\<lambda>t. \<not> ready t) q of
        [] \<Rightarrow> c # q
      | t # rest \<Rightarrow> run t # rest @ demote c # takeWhile (\<lambda>t. \<not> ready t) q)"

lemma rr_step_hit:
  assumes "p < length q" "ready (q ! p)" "\<And>i. i < p \<Longrightarrow> \<not> ready (q ! i)"
  shows "rr_step ready run demote (c # q) =
           run (q ! p) # drop (Suc p) q @ demote c # take p q"
proof -
  have split: "q = take p q @ q ! p # drop (Suc p) q"
    using assms(1) by (rule id_take_nth_drop)
  have "\<not> ready t" if "t \<in> set (take p q)" for t
    using that assms by (auto simp: in_set_conv_nth)
  then have "dropWhile (\<lambda>t. \<not> ready t) q = q ! p # drop (Suc p) q"
      "takeWhile (\<lambda>t. \<not> ready t) q = take p q"
    using assms(2) by (subst split; simp)+
  then show ?thesis by simp
qed

lemma rr_step_miss:
  "(\<And>t. t \<in> set q \<Longrightarrow> \<not> ready t) \<Longrightarrow> rr_step ready run demote (c # q) = c # q"
  by (simp add: dropWhile_eq_Nil_conv [THEN iffD2])

lemma rr_step_length [simp]: "length (rr_step ready run demote xs) = length xs"
proof (cases xs)
  case (Cons c q)
  have "length q = length (takeWhile (\<lambda>t. \<not> ready t) q) + length (dropWhile (\<lambda>t. \<not> ready t) q)"
    by (metis length_append takeWhile_dropWhile_id)
  then show ?thesis unfolding Cons by (simp split: list.split)
qed simp

lemma first_ready_position:
  assumes "k < length q" "ready (q ! k)"
  obtains p where "p \<le> k" "ready (q ! p)" "\<And>i. i < p \<Longrightarrow> \<not> ready (q ! i)"
proof -
  define p where "p = (LEAST i. ready (q ! i))"
  have "ready (q ! p)" unfolding p_def using assms(2) by (rule LeastI)
  moreover have "p \<le> k" unfolding p_def using assms(2) by (rule Least_le)
  moreover have "\<not> ready (q ! i)" if "i < p" for i
    using that unfolding p_def by (rule not_less_Least)
  ultimately show ?thesis using that by blast
qed

text \<open>Where a waiting thread stands after one step: at the head, or closer to it, untouched.\<close>

lemma rr_step_progress:
  assumes "0 < k" "k < length xs" "ready (xs ! k)"
  shows "hd (rr_step ready run demote xs) = run (xs ! k) \<or>
         (\<exists>k'. 0 < k' \<and> k' < k \<and> k' < length (rr_step ready run demote xs) \<and>
               rr_step ready run demote xs ! k' = xs ! k)"
proof -
  obtain c q where xs: "xs = c # q" using assms by (cases xs) auto
  have kq: "k - 1 < length q" "ready (q ! (k - 1))" using assms xs by auto
  obtain p where p: "p \<le> k - 1" "ready (q ! p)" "\<And>i. i < p \<Longrightarrow> \<not> ready (q ! i)"
    using first_ready_position [of "k - 1" q ready] kq by blast
  have step: "rr_step ready run demote xs = run (q ! p) # drop (Suc p) q @ demote c # take p q"
    unfolding xs using p kq by (intro rr_step_hit) auto
  show ?thesis
  proof (cases "p = k - 1")
    case True
    then show ?thesis using assms xs step by simp
  next
    case False
    then have pk: "p < k - 1" using p by simp
    then obtain d where d: "k - 1 = Suc p + d" by (auto dest: less_imp_Suc_add)
    then have "(run (q ! p) # drop (Suc p) q @ demote c # take p q) ! (k - 1 - p) = q ! (k - 1)"
      using kq less_diff_conv [of d "length q" "Suc p"] by (simp add: nth_append add.commute)
    then have "rr_step ready run demote xs ! (k - 1 - p) = xs ! k"
      unfolding step using assms(1) by (simp add: xs)
    moreover have "k - 1 - p < length (rr_step ready run demote xs)"
      using kq pk by (simp add: step)
    ultimately show ?thesis using pk by (intro disjI2 exI [of _ "k - 1 - p"]) auto
  qed
qed

locale round_robin =
  fixes view :: "'s \<Rightarrow> 't list"
    and step :: "'e \<Rightarrow> 's \<Rightarrow> 's"
    and inv :: "'s \<Rightarrow> bool"
    and ready :: "'t \<Rightarrow> bool"
    and run :: "'t \<Rightarrow> 't"
    and demote :: "'t \<Rightarrow> 't"
    and key :: "'t \<Rightarrow> 'k"
  assumes view_step: "inv s \<Longrightarrow> view (step e s) = rr_step ready run demote (view s)"
    and inv_step: "inv s \<Longrightarrow> inv (step e s)"
    and key_run: "key (run t) = key t"
begin

lemma no_starvation:
  assumes "inv s" "0 < k" "k < length (view s)" "ready (view s ! k)" "k \<le> length es"
  shows "\<exists>j. 0 < j \<and> j \<le> k \<and> key (hd (view (fold step (take j es) s))) = key (view s ! k)"
  using assms
proof (induction k arbitrary: s es rule: less_induct)
  case (less k)
  from less.prems obtain e es' where es: "es = e # es'" by (cases es) auto
  let ?s = "step e s"
  have v: "view ?s = rr_step ready run demote (view s)" using less.prems(1) by (rule view_step)
  from rr_step_progress [of k "view s" ready run demote, OF less.prems(2-4)] consider
      (head) "hd (view ?s) = run (view s ! k)"
    | (closer) k' where "0 < k'" "k' < k" "k' < length (view ?s)" "view ?s ! k' = view s ! k"
    unfolding v by blast
  then show ?case
  proof cases
    case head
    then show ?thesis using less.prems(2) by (intro exI [of _ 1]) (simp add: es key_run)
  next
    case closer
    have "inv ?s" using less.prems(1) by (rule inv_step)
    moreover have "k' \<le> length es'" using closer less.prems(5) es by simp
    ultimately obtain j where "0 < j" "j \<le> k'"
        "key (hd (view (fold step (take j es') ?s))) = key (view ?s ! k')"
      using less.IH [OF closer(2)] closer less.prems(4) by metis
    then show ?thesis
      using closer by (intro exI [of _ "Suc j"]) (simp add: es)
  qed
qed

lemma run_inv: "inv s \<Longrightarrow> inv (fold step es s)"
  by (induction es arbitrary: s) (auto intro: inv_step)

end

end
