(* ===== verification/Scheduler_Rounds.thy ===== *)
theory Scheduler_Rounds
  imports Thread_Creation Round_Robin
begin

text \<open>
  The scheduler refines the round-robin specification of \<open>Round_Robin\<close>: every timer tick
  changes the run queue as \<open>rr_step\<close> does, hands the processor from the current thread to
  the chosen one with both register sets intact, and starves no ready thread.
\<close>

section \<open>Refinement of the round-robin specification\<close>

text \<open>A thread as the specification sees it: its identity and its state, not its context.\<close>

type_synonym thread_view = "u64 \<times> u64 \<times> ThreadState"

definition tview :: "ThreadControlBlock \<Rightarrow> thread_view" where
  "tview t = (t_tid t, t_pid t, t_state t)"

fun view_ready :: "thread_view \<Rightarrow> bool" where
  "view_ready (_, _, st) = (st = Ready)"

fun view_run :: "thread_view \<Rightarrow> thread_view" where
  "view_run (t, p, _) = (t, p, Running)"

fun view_demote :: "thread_view \<Rightarrow> thread_view" where
  "view_demote (t, p, st) = (t, p, if st = Running then Ready else st)"

definition run_queue :: "Scheduler \<Rightarrow> thread_view list" where
  "run_queue s = map tview (rotate (current s) (threads s))"

lemma tview_simps [simp]:
  "view_ready (tview t) \<longleftrightarrow> t_state t = Ready"
  "tview (promote t) = view_run (tview t)"
  "tview (demote t) = view_demote (tview t)"
  "tview (t\<lparr>t_context := c\<rparr>) = tview t"
  by (simp_all add: tview_def)

lemma length_run_queue [simp]: "length (run_queue s) = length (threads s)"
  by (simp add: run_queue_def)

lemma run_queue_nth:
  "k < length (threads s) \<Longrightarrow>
     run_queue s ! k = tview (threads s ! ((current s + k) mod length (threads s)))"
  by (simp add: run_queue_def nth_rotate)

lemma run_queue_switch_to:
  assumes "current s < length (threads s)" "p < length (threads s) - 1"
  shows "run_queue (switch_to s ((current s + Suc p) mod length (threads s))) =
     (let c = hd (run_queue s); q = tl (run_queue s)
      in view_run (q ! p) # drop (Suc p) q @ view_demote c # take p q)"
proof -
  let ?n = "length (threads s)" and ?m = "current s" and ?ts = "threads s"
  let ?j = "(?m + Suc p) mod ?n"
  let ?ts' = "threads (switch_to s ?j)"
  have ne: "?ts \<noteq> []" using assms(1) by auto
  then obtain c q where cq: "rotate ?m ?ts = c # q"
    by (cases "rotate ?m ?ts") auto
  have len: "length q = ?n - 1"
    using arg_cong [OF cq, of length] by simp
  have "c = rotate ?m ?ts ! 0" and "q ! p = rotate ?m ?ts ! Suc p"
    by (simp_all only: cq nth_Cons_0 nth_Cons_Suc)
  then have c: "c = ?ts ! ?m" and t: "q ! p = ?ts ! ?j"
    using assms nth_rotate [of 0 ?ts ?m] nth_rotate [of "Suc p" ?ts ?m] by fastforce+
  have "rotate ?m ?ts' = (rotate ?m ?ts)[0 := demote c, Suc p := promote (q ! p)]"
    using rotate_list_update [of 0 ?ts ?m "demote c"]
      rotate_list_update [of "Suc p" "?ts[?m := demote c]" ?m "promote (q ! p)"] assms ne
    by (simp add: switch_to_def c t)
  then have rot: "rotate ?m ?ts' = demote c # q[p := promote (q ! p)]" by (simp add: cq)
  have "rotate ?j ?ts' = rotate (Suc p + ?m) ?ts'"
    using rotate_conv_mod [of "Suc p + ?m" ?ts'] by (simp only: switch_to_simps add.commute)
  also have "\<dots> = rotate (Suc p) (demote c # q[p := promote (q ! p)])"
    by (simp only: rotate_rotate [symmetric] rot)
  also have "\<dots> = promote (q ! p) # drop (Suc p) q @ demote c # take p q"
    using assms(2) len by (simp add: rotate_drop_take drop_update_swap upd_conv_take_nth_drop)
  finally show ?thesis
    using assms(2) len by (simp add: run_queue_def cq Let_def drop_map take_map)
qed

lemma run_queue_tail:
  assumes "run_queue s = c # q" "i < length (threads s) - 1"
  shows "q ! i = tview (threads s ! (candidates s ! i))"
proof -
  have "q ! i = run_queue s ! Suc i" by (simp add: assms(1))
  with assms(2) show ?thesis by (simp add: run_queue_nth candidates_nth)
qed

lemma run_queue_no_ready:
  assumes "find (is_ready s) (candidates s) = None"
  shows "rr_step view_ready view_run view_demote (run_queue s) = run_queue s"
proof (cases "run_queue s")
  case (Cons c q)
  have len: "length q = length (threads s) - 1" using arg_cong [OF Cons, of length] by simp
  have "\<not> view_ready (q ! i)" if "i < length q" for i
  proof -
    have "candidates s ! i \<in> set (candidates s)" using that len by simp
    then have "\<not> is_ready s (candidates s ! i)" using assms by (auto simp: find_None_iff)
    then show ?thesis using that len run_queue_tail [OF Cons] by simp
  qed
  then show ?thesis unfolding Cons by (metis in_set_conv_nth rr_step_miss)
qed simp

lemma run_queue_ready:
  assumes "current s < length (threads s)" "find (is_ready s) (candidates s) = Some j"
  shows "run_queue (switch_to s j) = rr_step view_ready view_run view_demote (run_queue s)"
proof -
  let ?n = "length (threads s)"
  from assms(2) obtain p where p: "p < ?n - 1" "j = (current s + Suc p) mod ?n" "is_ready s j"
      "\<And>i. i < p \<Longrightarrow> \<not> is_ready s ((current s + Suc i) mod ?n)"
    using find_ready_position by blast
  obtain c q where cq: "run_queue s = c # q"
    using assms(1) by (cases "run_queue s") (auto simp: run_queue_def)
  have len: "length q = ?n - 1" using arg_cong [OF cq, of length] by simp
  have "rr_step view_ready view_run view_demote (c # q)
      = view_run (q ! p) # drop (Suc p) q @ view_demote c # take p q"
    using p by (intro rr_step_hit) (auto simp: len run_queue_tail [OF cq] candidates_nth)
  then show ?thesis
    using run_queue_switch_to [OF assms(1) p(1)] by (simp add: p(2) cq Let_def)
qed

lemma find_ready_in_range:
  assumes "sched_wf s" "find (is_ready s) (candidates s) = Some j"
  shows "j < length (threads s)" "j \<noteq> current s" "current s < length (threads s)"
    "t_state (threads s ! j) = Ready"
proof -
  have j: "j \<in> set (candidates s)" "is_ready s j" using assms(2) by (auto simp: find_Some_iff)
  then show "j < length (threads s)" "is_ready s j" by (auto dest: candidates_less)
  then show "current s < length (threads s)" using assms(1) by (auto simp: sched_wf_def split: if_splits)
  with j show "j \<noteq> current s" by (auto dest: candidates_neq_current)
qed

lemma prepare_switch_refines:
  assumes "sched_wf s" "prepare_switch s = Inr (s', sw)"
  shows "run_queue s' = rr_step view_ready view_run view_demote (run_queue s)" and "sched_wf s'"
  using assms prepare_switch_wf [OF assms(1)] find_ready_in_range [OF assms(1)]
  by (auto split: option.splits simp: run_queue_no_ready run_queue_ready intro: switch_to_wf)

section \<open>Ticks\<close>

definition contexts_apart :: "(nat \<Rightarrow> u64) \<Rightarrow> nat \<Rightarrow> bool" where
  "contexts_apart addr n \<longleftrightarrow> (\<forall>i < n. \<forall>j < n. i \<noteq> j \<longrightarrow> apart (addr i) 8 (addr j) 8)"

lemma spill_contexts_load_words:
  assumes "\<And>i. i < length ts \<Longrightarrow> apart (addr i) 8 a (8 * k)"
  shows "load_words (spill_contexts addr ts m) a k = load_words m a k"
proof -
  have "load_words (fold (\<lambda>i r. store64 r (addr i) (f i)) is m) a k = load_words m a k"
    if "\<And>i. i \<in> set is \<Longrightarrow> apart (addr i) 8 a (8 * k)" for "is" and f :: "nat \<Rightarrow> u64"
    using that by (induction "is" arbitrary: m) (auto simp: load_words_store_apart)
  from this [of "[0..<length ts]" "\<lambda>i. ctx_rsp (t_context (ts ! i))"] show ?thesis
    using assms by (simp add: spill_contexts_def)
qed

lemma spill_contexts_load:
  assumes "contexts_apart addr (length ts)" "i < length ts"
  shows "load64 (spill_contexts addr ts m) (addr i) = ctx_rsp (t_context (ts ! i))"
proof -
  have "load64 (fold (\<lambda>i r. store64 r (addr i) (f i)) is m) (addr i) =
      (if i \<in> set is then f i else load64 m (addr i))"
    if "set is \<subseteq> {..<length ts}" "distinct is" for "is" and f :: "nat \<Rightarrow> u64"
    using that assms
    by (induction "is" arbitrary: m)
      (auto simp: load_store_same load_store_apart contexts_apart_def)
  from this [of "[0..<length ts]" "\<lambda>i. ctx_rsp (t_context (ts ! i))"] show ?thesis
    using assms(2) by (simp add: spill_contexts_def atLeast0LessThan)
qed

lemma context_switch_returns: "\<exists>m'. context_switch ret old new m = Inr m'"
  by (simp add: context_switch_run Let_def)

lemma tick_idle:
  assumes "sched_wf (SCHEDULER st)" "find (is_ready (SCHEDULER st)) (candidates (SCHEDULER st)) = None"
  shows "tick addr ret st = Inr st"
  using assms by (simp add: tick_def prepare_switch_wf)

lemma tick_switch:
  assumes "sched_wf (SCHEDULER st)" "find (is_ready (SCHEDULER st)) (candidates (SCHEDULER st)) = Some j"
  obtains m s where
    "s = switch_to (SCHEDULER st) j"
    "context_switch ret (addr (current (SCHEDULER st))) (addr j)
       ((cpu st)\<lparr>ram := spill_contexts addr (threads s) (ram (cpu st))\<rparr>) = Inr m"
    "tick addr ret st =
       Inr (st\<lparr>SCHEDULER := s\<lparr>threads := (threads s)[current (SCHEDULER st) :=
                (threads s ! current (SCHEDULER st))\<lparr>t_context :=
                   \<lparr>ctx_rsp = load64 (ram m) (addr (current (SCHEDULER st)))\<rparr>\<rparr>]\<rparr>, cpu := m\<rparr>)"
proof -
  let ?s = "switch_to (SCHEDULER st) j"
  obtain m where m: "context_switch ret (addr (current (SCHEDULER st))) (addr j)
       ((cpu st)\<lparr>ram := spill_contexts addr (threads ?s) (ram (cpu st))\<rparr>) = Inr m"
    using context_switch_returns by blast
  show thesis
    by (rule that [OF refl m]) (simp add: tick_def prepare_switch_wf assms m)
qed

lemma tick_refines:
  assumes "sched_wf (SCHEDULER st)"
  obtains st' where "tick addr ret st = Inr st'"
    "run_queue (SCHEDULER st') =
       rr_step view_ready view_run view_demote (run_queue (SCHEDULER st))"
    "sched_wf (SCHEDULER st')" "length (threads (SCHEDULER st')) = length (threads (SCHEDULER st))"
    "NEXT_TID st' = NEXT_TID st" "sched_state.more st' = sched_state.more st"
proof (cases "find (is_ready (SCHEDULER st)) (candidates (SCHEDULER st))")
  case None
  then show ?thesis
    by (intro that [OF tick_idle [OF assms]]) (simp_all add: run_queue_no_ready assms)
next
  case (Some j)
  let ?s = "switch_to (SCHEDULER st) j" and ?o = "current (SCHEDULER st)"
  note in_range = find_ready_in_range [OF assms Some]
  obtain c m where tick: "tick addr ret st = Inr (st\<lparr>SCHEDULER := ?s\<lparr>threads :=
      (threads ?s)[?o := (threads ?s ! ?o)\<lparr>t_context := c\<rparr>]\<rparr>, cpu := m\<rparr>)"
    using tick_switch [OF assms Some] by metis
  have view: "map tview ((threads ?s)[?o := (threads ?s ! ?o)\<lparr>t_context := c\<rparr>]) = map tview (threads ?s)"
    using in_range by (intro map_list_update_same) simp_all
  have states: "t_state ((threads ?s)[?o := (threads ?s ! ?o)\<lparr>t_context := c\<rparr>] ! i) = t_state (threads ?s ! i)"
    if "i < length (threads ?s)" for i
    using that by (cases "i = ?o") simp_all
  show ?thesis
  proof (rule that [OF tick])
    show "run_queue (SCHEDULER (st\<lparr>SCHEDULER := ?s\<lparr>threads :=
        (threads ?s)[?o := (threads ?s ! ?o)\<lparr>t_context := c\<rparr>]\<rparr>, cpu := m\<rparr>)) =
        rr_step view_ready view_run view_demote (run_queue (SCHEDULER st))"
      using run_queue_ready [OF in_range(3) Some] view
      by (simp add: run_queue_def rotate_map [symmetric])
    show "sched_wf (SCHEDULER (st\<lparr>SCHEDULER := ?s\<lparr>threads :=
        (threads ?s)[?o := (threads ?s ! ?o)\<lparr>t_context := c\<rparr>]\<rparr>, cpu := m\<rparr>))"
      using switch_to_wf [OF assms in_range(1)] states by (auto simp: sched_wf_def)
  qed simp_all
qed

section \<open>Sequences of ticks\<close>

text \<open>Each tick comes with the addresses the assembly sees and the return address it pushes.\<close>

type_synonym tick_event = "(nat \<Rightarrow> u64) \<times> u64"

fun tick_run :: "tick_event list \<Rightarrow> 'a sched_state_scheme \<Rightarrow> 'a sched_state_scheme outcome" where
  "tick_run [] st = Inr st"
| "tick_run ((addr, ret) # es) st = and_then (tick addr ret st) (tick_run es)"

fun tick_step :: "tick_event \<Rightarrow> 'a sched_state_scheme \<Rightarrow> 'a sched_state_scheme" where
  "tick_step (addr, ret) st = (case tick addr ret st of Inl _ \<Rightarrow> st | Inr st' \<Rightarrow> st')"

lemma tick_step_laws:
  assumes "sched_wf (SCHEDULER st)"
  shows "tick (fst e) (snd e) st = Inr (tick_step e st)"
    and "run_queue (SCHEDULER (tick_step e st)) =
           rr_step view_ready view_run view_demote (run_queue (SCHEDULER st))"
    and "sched_wf (SCHEDULER (tick_step e st))"
proof -
  obtain addr ret where e: "e = (addr, ret)" by (cases e)
  show "tick (fst e) (snd e) st = Inr (tick_step e st)"
    "run_queue (SCHEDULER (tick_step e st)) =
       rr_step view_ready view_run view_demote (run_queue (SCHEDULER st))"
    "sched_wf (SCHEDULER (tick_step e st))"
    by (rule tick_refines [OF assms, of addr ret]; simp add: e)+
qed

interpretation sched_rr: round_robin "\<lambda>st :: 'a sched_state_scheme. run_queue (SCHEDULER st)"
  tick_step "\<lambda>st. sched_wf (SCHEDULER st)" view_ready view_run view_demote fst
  by unfold_locales (auto simp: tick_step_laws)

lemma tick_run_fold:
  "sched_wf (SCHEDULER st) \<Longrightarrow> tick_run es st = Inr (fold tick_step es st)"
proof (induction es arbitrary: st)
  case (Cons e es)
  then show ?case
    using tick_step_laws(1,3) [OF Cons.prems, of e] by (cases e) (simp del: tick_step.simps)
qed simp

lemma run_queue_empty [simp]: "run_queue s = [] \<longleftrightarrow> threads s = []"
  by (simp add: run_queue_def)

lemma run_queue_hd:
  "current s < length (threads s) \<Longrightarrow> hd (run_queue s) = tview (threads s ! current s)"
  using run_queue_nth [of 0 s] hd_conv_nth [of "run_queue s"] by (cases "threads s = []") auto

lemma current_tid_run_queue:
  "sched_wf (SCHEDULER st) \<Longrightarrow> threads (SCHEDULER st) \<noteq> [] \<Longrightarrow>
     current_tid st = Inr (fst (hd (run_queue (SCHEDULER st))))"
  by (simp add: current_tid_def Scheduler_current_tid_def run_queue_hd sched_wf_def tview_def)

lemma fold_tick_step_nonempty:
  "sched_wf (SCHEDULER st) \<Longrightarrow>
     length (threads (SCHEDULER (fold tick_step es st))) = length (threads (SCHEDULER st))"
proof (induction es arbitrary: st)
  case (Cons e es)
  have "length (threads (SCHEDULER (tick_step e st))) = length (threads (SCHEDULER st))"
    using arg_cong [OF tick_step_laws(2) [OF Cons.prems], of length] by simp
  with Cons.IH [OF tick_step_laws(3) [OF Cons.prems]] show ?case by simp
qed simp

text \<open>Where in the run queue the thread at index \<open>j\<close> waits.\<close>

definition distance :: "Scheduler \<Rightarrow> nat \<Rightarrow> nat" where
  "distance s j = (j + length (threads s) - current s) mod length (threads s)"

lemma distance_position:
  assumes "sched_wf s" "j < length (threads s)" "j \<noteq> current s"
  shows "0 < distance s j" "distance s j < length (threads s)"
    and "run_queue s ! distance s j = tview (threads s ! j)"
proof -
  let ?n = "length (threads s)"
  have cur: "current s < ?n" using assms by (auto simp: sched_wf_def split: if_splits)
  show less: "distance s j < ?n" unfolding distance_def using cur by (intro mod_less_divisor) auto
  have "(current s + distance s j) mod ?n = j"
    using assms(2) cur by (simp add: distance_def mod_add_right_eq)
  then show "run_queue s ! distance s j = tview (threads s ! j)"
    and "0 < distance s j"
    using less assms(3) cur by (auto simp: run_queue_nth intro: gr0I)
qed

text \<open>
  C6. Starvation freedom: on a well-formed scheduler, a ready thread that is not the current
  one becomes the current one after at most as many ticks as its cyclic distance from the
  current index, whatever the other threads' states are; no tick on the way panics.
\<close>

theorem ready_thread_runs:
  assumes "sched_wf (SCHEDULER st)" "j < length (threads (SCHEDULER st))"
    "j \<noteq> current (SCHEDULER st)" "t_state (threads (SCHEDULER st) ! j) = Ready"
    "distance (SCHEDULER st) j \<le> length es"
  shows "\<exists>k st'. 0 < k \<and> k \<le> distance (SCHEDULER st) j \<and>
           tick_run (take k es) st = Inr st' \<and>
           current_tid st' = Inr (t_tid (threads (SCHEDULER st) ! j))"
proof -
  note pos = distance_position [OF assms(1-3)]
  obtain k where k: "0 < k" "k \<le> distance (SCHEDULER st) j"
      "fst (hd (run_queue (SCHEDULER (fold tick_step (take k es) st)))) = t_tid (threads (SCHEDULER st) ! j)"
    using sched_rr.no_starvation [OF assms(1) pos(1) _ _ assms(5)] pos(2,3) assms(4)
    by (auto simp: tview_def)
  let ?st' = "fold tick_step (take k es) st"
  have "threads (SCHEDULER ?st') \<noteq> []"
    using fold_tick_step_nonempty [OF assms(1), of "take k es"] assms(2) by auto
  then have "current_tid ?st' = Inr (t_tid (threads (SCHEDULER st) ! j))"
    using current_tid_run_queue [OF sched_rr.run_inv [OF assms(1)], of "take k es"] k(3) by simp
  with k(1,2) tick_run_fold [OF assms(1), of "take k es"] show ?thesis by blast
qed

section \<open>A tick at machine level\<close>

text \<open>
  C14. A tick that finds a ready thread switches to it completely: the processor continues with
  exactly the callee-saved registers and return address of the frame on that thread's stack
  and with its stack pointer, the preempted thread's registers and return address are the frame
  its own saved stack pointer now points to, and the interrupt flag is untouched. The
  hypotheses say that the interrupted stack, the thread table and the next thread's frame do
  not overlap in memory.
\<close>

theorem tick_resumes_next:
  fixes st :: "'a sched_state_scheme" and addr :: "nat \<Rightarrow> u64"
  assumes s_def: "s = SCHEDULER st" and low_def: "low = regs (cpu st) RSP - 56"
    and ready: "sched_wf s" "next_ready_thread s = Inr (Some j)"
    and table: "contexts_apart addr (length (threads s))"
      "\<forall>i < length (threads s). apart (addr i) 8 low 56"
    and frame: "sp = ctx_rsp (t_context (threads s ! j))" "load_words (ram (cpu st)) sp 7 = fr"
      "apart low 56 sp 56" "\<forall>i < length (threads s). apart (addr i) 8 sp 56"
  shows "\<exists>st'. tick addr ret st = Inr st' \<and> current (SCHEDULER st') = j \<and>
           saved_frame (cpu st') (rip (cpu st')) = fr \<and> regs (cpu st') RSP = sp + 56 \<and>
           ctx_rsp (t_context (threads (SCHEDULER st') ! current s)) = low \<and>
           load_words (ram (cpu st')) low 7 = saved_frame (cpu st) ret \<and>
           interrupt_flag (cpu st') = interrupt_flag (cpu st)"
proof -
  let ?n = "length (threads s)" and ?o = "current s" and ?s = "switch_to s j"
  have found: "find (is_ready s) (candidates s) = Some j"
    using ready(2) by (simp add: next_ready_thread_find)
  note in_range = find_ready_in_range [OF ready(1) found]
  obtain m where switch: "context_switch ret (addr ?o) (addr j)
      ((cpu st)\<lparr>ram := spill_contexts addr (threads ?s) (ram (cpu st))\<rparr>) = Inr m"
    and tick: "tick addr ret st = Inr (st\<lparr>SCHEDULER := ?s\<lparr>threads := (threads ?s)[?o :=
      (threads ?s ! ?o)\<lparr>t_context := \<lparr>ctx_rsp = load64 (ram m) (addr ?o)\<rparr>\<rparr>]\<rparr>, cpu := m\<rparr>)"
    using tick_switch [of st j ret addr] ready(1) found unfolding s_def by metis
  let ?m0 = "(cpu st)\<lparr>ram := spill_contexts addr (threads ?s) (ram (cpu st))\<rparr>"
  have rsp: "ctx_rsp (t_context (threads ?s ! j)) = sp"
    using in_range by (simp add: switch_to_def frame(1))
  have parked: "parked (ram ?m0) (addr j) sp fr"
    using spill_contexts_load [of addr "threads ?s" j] table(1) in_range rsp frame(2,4)
      spill_contexts_load_words [of "threads ?s" addr sp 7]
    by (simp add: parked_def)
  have sep: "spared (regs ?m0 RSP - 56) (addr ?o) (addr j) 8"
      "spared (regs ?m0 RSP - 56) (addr ?o) sp 56" "apart (addr ?o) 8 (regs ?m0 RSP - 56) 56"
    using table frame(3,4) in_range
    by (auto simp: spared_def contexts_apart_def low_def apart_sym [of _ 56 _ 8])
  obtain "saved_frame m (rip m) = fr" "regs m RSP = sp + 56"
      "interrupt_flag m = interrupt_flag (cpu st)"
      "parked (ram m) (addr ?o) low (saved_frame (cpu st) ret)"
    by (rule context_switch_contract [OF parked sep, of ret])
      (use switch in \<open>auto simp: low_def saved_frame_def callee_saved_def\<close>)
  then show ?thesis
    using in_range by (simp add: tick parked_def)
qed

text \<open>A concrete state for the witnesses: an idle thread running, two threads ready.\<close>

definition example_thread :: "u64 \<Rightarrow> ThreadState \<Rightarrow> u64 \<Rightarrow> ThreadControlBlock" where
  "example_thread tid ts sp = \<lparr>t_tid = tid, t_pid = tid, t_state = ts, t_context = \<lparr>ctx_rsp = sp\<rparr>,
     t_stack = \<lparr>vec_ptr = 0, vec_len = 0\<rparr>\<rparr>"

definition example_state :: sched_state where
  "example_state = \<lparr>SCHEDULER = \<lparr>threads = [example_thread 0 Running 0,
       example_thread 1 Ready 0x3000, example_thread 2 Ready 0x5000], current = 0\<rparr>,
     NEXT_TID = 3,
     cpu = \<lparr>regs = (\<lambda>r. if r = RSP then 0x9000 else 7), rip = 0, interrupt_flag = False, ram = (\<lambda>_. 0)\<rparr>\<rparr>"

definition example_addr :: "nat \<Rightarrow> u64" where
  "example_addr i = 0x1000 + 64 * of_nat i"

lemma example_state_wf: "sched_wf (SCHEDULER example_state)"
  by (simp add: sched_wf_def example_state_def example_thread_def numeral_3_eq_3 All_less_Suc)

lemma example_table: "contexts_apart example_addr (length (threads (SCHEDULER example_state)))"
  by (simp add: contexts_apart_def example_state_def numeral_3_eq_3 All_less_Suc apart_def
      example_addr_def)

lemma example_next: "next_ready_thread (SCHEDULER example_state) = Inr (Some 1)"
  by (simp add: next_ready_thread_find candidates_def example_state_def example_thread_def
      upt_rec)

theorem tick_resumes_next_witness:
  "\<exists>st'. tick example_addr 0x4444 example_state = Inr st' \<and> current (SCHEDULER st') = 1 \<and>
     saved_frame (cpu st') (rip (cpu st')) = [0, 0, 0, 0, 0, 0, 0] \<and> regs (cpu st') RSP = 0x3000 + 56 \<and>
     ctx_rsp (t_context (threads (SCHEDULER st') ! current (SCHEDULER example_state))) = 0x9000 - 56 \<and>
     load_words (ram (cpu st')) (0x9000 - 56) 7 = saved_frame (cpu example_state) 0x4444 \<and>
     interrupt_flag (cpu st') = interrupt_flag (cpu example_state)"
proof (rule tick_resumes_next [OF refl _ example_state_wf example_next example_table])
  show "load_words (ram (cpu example_state)) 0x3000 7 = [0, 0, 0, 0, 0, 0, 0]"
    by (simp add: load_words_7 load_def example_state_def upt_rec)
qed (simp_all add: example_state_def example_thread_def example_addr_def numeral_3_eq_3 All_less_Suc
    apart_def)

theorem ready_thread_runs_witness:
  "distance (SCHEDULER example_state) 2 = 2 \<and>
   (\<exists>k st'. 0 < k \<and> k \<le> 2 \<and>
      tick_run (take k [(example_addr, 1), (example_addr, 2)]) example_state = Inr st' \<and>
      current_tid st' = Inr 2)"
proof -
  have d: "distance (SCHEDULER example_state) 2 = 2"
    by (simp add: distance_def example_state_def)
  have "\<exists>k st'. 0 < k \<and> k \<le> distance (SCHEDULER example_state) 2 \<and>
      tick_run (take k [(example_addr, 1), (example_addr, 2)]) example_state = Inr st' \<and>
      current_tid st' = Inr (t_tid (threads (SCHEDULER example_state) ! 2))"
    by (rule ready_thread_runs [OF example_state_wf])
      (simp_all add: d, simp_all add: example_state_def example_thread_def)
  then show ?thesis
    unfolding d by (simp add: d example_state_def example_thread_def)
qed

text \<open>
  C5. Every tick is one step of the round-robin specification: on a well-formed scheduler it returns, the
  run queue, the threads' identities and states from the current one on, changes exactly as
  \<open>rr_step\<close> says, and the scheduler stays well-formed.
\<close>

theorem tick_is_round_robin:
  assumes "sched_wf (SCHEDULER st)"
  shows "\<exists>st'. tick addr ret st = Inr st' \<and> sched_wf (SCHEDULER st') \<and>
     run_queue (SCHEDULER st') = rr_step view_ready view_run view_demote (run_queue (SCHEDULER st))"
  by (rule tick_refines [OF assms, of addr ret]) blast

theorem tick_is_round_robin_witness:
  "\<exists>st'. tick example_addr 0x4444 example_state = Inr st' \<and>
     run_queue (SCHEDULER st') = [(1, 1, Running), (2, 2, Ready), (0, 0, Ready)]"
proof -
  have "run_queue (SCHEDULER example_state) = [(0, 0, Running), (1, 1, Ready), (2, 2, Ready)]"
    by (simp add: run_queue_def example_state_def example_thread_def tview_def)
  then show ?thesis using tick_is_round_robin [OF example_state_wf, of example_addr "0x4444"] by auto
qed

end
