(* ===== verification/Kernel_Invariant.thy ===== *)
theory Kernel_Invariant
  imports Process Scheduler_Rounds
begin

text \<open>
  The invariant that ties the scheduler and the process table together, its preservation
  by every operation the kernel performs on them (timer ticks, process creation, process
  exit), and the state machine these operations form from boot on. \<open>ownership\<close> says that
  the threads of the scheduler are exactly the threads the process table lists;
  \<open>lifecycle\<close> says what a running and what a zombie process look like.
\<close>

section \<open>The invariant\<close>

definition idents :: "'a sched_state_scheme \<Rightarrow> (u64 \<times> u64) list" where
  "idents st = map (\<lambda>t. (t_tid t, t_pid t)) (threads (SCHEDULER st))"

definition ownership :: "'a kernel_state_scheme \<Rightarrow> bool" where
  "ownership st \<longleftrightarrow> (\<forall>tid pid. (tid, pid) \<in> set (idents st) \<longleftrightarrow>
     (\<exists>pcb. get_process (PROCESS_TABLE st) pid = Some pcb \<and> tid \<in> set (p_threads pcb)))"

definition pcb_ok :: "'a sched_state_scheme \<Rightarrow> u64 \<Rightarrow> ProcessControlBlock \<Rightarrow> bool" where
  "pcb_ok st pid pcb \<longleftrightarrow>
     p_parent pcb = (if pid = 0 then None else Some 0) \<and>
     (p_state pcb = P_Running \<and> p_exit_code pcb = None \<or>
      p_state pcb = P_Zombie \<and> p_exit_code pcb \<noteq> None \<and>
        (\<forall>tid \<in> set (p_threads pcb). thread_state st tid = Some Exited))"

definition lifecycle :: "'a kernel_state_scheme \<Rightarrow> bool" where
  "lifecycle st \<longleftrightarrow>
     (\<forall>pid pcb. get_process (PROCESS_TABLE st) pid = Some pcb \<longrightarrow> pcb_ok st pid pcb)"

definition kernel_inv :: "'a kernel_state_scheme \<Rightarrow> bool" where
  "kernel_inv st \<longleftrightarrow> sched_wf (SCHEDULER st) \<and> threads (SCHEDULER st) \<noteq> [] \<and> tids_wf st \<and>
     table_wf (PROCESS_TABLE st) \<and> ownership st \<and> lifecycle st"

lemma pcb_ok_mono:
  "pcb_ok st pid pcb \<Longrightarrow>
     (\<And>tid. thread_state st tid = Some Exited \<Longrightarrow> thread_state st' tid = Some Exited) \<Longrightarrow>
     pcb_ok st' pid pcb"
  unfolding pcb_ok_def by blast

lemma tids_wf_idents:
  "tids_wf st \<longleftrightarrow> distinct (map fst (idents st)) \<and> (\<forall>t \<in> fst ` set (idents st). t < NEXT_TID st)"
  by (auto simp: tids_wf_def idents_def comp_def)

lemma thread_state_idents: "thread_state st tid \<noteq> None \<longleftrightarrow> tid \<in> fst ` set (idents st)"
  using thread_state_None_iff [of st tid] by (auto simp: idents_def image_iff)

lemma owned_thread_exists:
  fixes st :: "'a kernel_state_scheme"
  assumes "kernel_inv st" "get_process (PROCESS_TABLE st) pid = Some pcb" "tid \<in> set (p_threads pcb)"
  shows "thread_state st tid \<noteq> None"
  using assms unfolding thread_state_idents kernel_inv_def ownership_def by force

section \<open>Ticks\<close>

text \<open>Threads before and after: the same identities in the same order, exits kept.\<close>

definition evolves :: "ThreadControlBlock list \<Rightarrow> ThreadControlBlock list \<Rightarrow> bool" where
  "evolves = list_all2 (\<lambda>t u. t_tid u = t_tid t \<and> t_pid u = t_pid t \<and>
     (t_state t = Exited \<longrightarrow> t_state u = Exited))"

lemma evolves_idents:
  "evolves ts us \<Longrightarrow> map (\<lambda>t. (t_tid t, t_pid t)) us = map (\<lambda>t. (t_tid t, t_pid t)) ts"
  unfolding evolves_def by (induction rule: list_all2_induct) auto

lemma evolves_exited:
  assumes "evolves (threads (SCHEDULER st)) (threads (SCHEDULER st'))"
    "thread_state st tid = Some Exited"
  shows "thread_state st' tid = Some Exited"
proof -
  have "map_option t_state (find (\<lambda>t. t_tid t = tid) us) = Some Exited"
    if "evolves ts us" "map_option t_state (find (\<lambda>t. t_tid t = tid) ts) = Some Exited" for ts us
    using that unfolding evolves_def by (induction rule: list_all2_induct) (auto split: if_splits)
  then show ?thesis using assms by (simp add: thread_state_def)
qed

lemma evolves_refl: "evolves ts ts"
  by (simp add: evolves_def list_all2_refl)

lemma evolves_switch:
  assumes "t_state (ts ! j) \<noteq> Exited" "i < length ts" "j < length ts"
  shows "evolves ts
    (ts[i := demote (ts ! i), j := promote (ts ! j), i := (demote (ts ! i))\<lparr>t_context := c\<rparr>])"
  using assms by (auto simp: evolves_def list_all2_conv_all_nth nth_list_update)

lemma tick_evolves:
  assumes "sched_wf (SCHEDULER st)" "tick addr ret st = Inr st'"
  shows "evolves (threads (SCHEDULER st)) (threads (SCHEDULER st'))"
proof (cases "find (is_ready (SCHEDULER st)) (candidates (SCHEDULER st))")
  case None
  then show ?thesis using assms tick_idle [OF assms(1), of addr ret] by (simp add: evolves_refl)
next
  case (Some j)
  then show ?thesis
    using assms(2) find_ready_in_range [OF assms(1) Some]
    by (elim tick_switch [OF assms(1), of j ret addr])
      (auto simp: switch_to_def intro!: evolves_switch)
qed

lemma tick_frame:
  assumes "sched_wf (SCHEDULER st)" "tick addr ret st = Inr st'"
  shows "sched_wf (SCHEDULER st')" "idents st' = idents st" "NEXT_TID st' = NEXT_TID st"
    and "sched_state.more st' = sched_state.more st"
    and "thread_state st tid = Some Exited \<Longrightarrow> thread_state st' tid = Some Exited"
proof -
  show "sched_wf (SCHEDULER st')" "NEXT_TID st' = NEXT_TID st"
    "sched_state.more st' = sched_state.more st"
    using assms by (auto elim: tick_refines [of st addr ret])
  show "idents st' = idents st"
    using evolves_idents [OF tick_evolves [OF assms]] by (simp add: idents_def)
  show "thread_state st tid = Some Exited \<Longrightarrow> thread_state st' tid = Some Exited"
    using evolves_exited [OF tick_evolves [OF assms]] .
qed

lemma more_PROCESS_TABLE:
  "sched_state.more st' = sched_state.more st \<Longrightarrow> PROCESS_TABLE st' = PROCESS_TABLE st"
  for st st' :: "'a kernel_state_scheme"
  by (cases st, cases st') simp

lemma kernel_inv_tick:
  fixes st :: "'a kernel_state_scheme"
  assumes "kernel_inv st" "tick addr ret st = Inr st'"
  shows "kernel_inv st'"
proof -
  have wf: "sched_wf (SCHEDULER st)" using assms(1) by (simp add: kernel_inv_def)
  note frame = tick_frame [OF wf assms(2)]
  have table: "PROCESS_TABLE st' = PROCESS_TABLE st"
    using frame(4) by (rule more_PROCESS_TABLE)
  have "threads (SCHEDULER st') \<noteq> []"
    using frame(2) assms(1) by (auto simp: kernel_inv_def idents_def)
  moreover have "ownership st'" "tids_wf st'"
    using assms(1) frame(2,3) table by (auto simp: kernel_inv_def ownership_def tids_wf_idents)
  moreover have "lifecycle st'"
    using assms(1) frame(5) unfolding kernel_inv_def lifecycle_def table by (blast intro: pcb_ok_mono)
  ultimately show ?thesis
    using frame(1) table assms(1) by (simp add: kernel_inv_def)
qed

section \<open>Creating a process\<close>

lemma create_process_Inr:
  fixes st :: "'a kernel_state_scheme"
  assumes "create_process trampoline stack name entry_fn st = Inr (pid, st')"
    "table_wf (PROCESS_TABLE st)"
  obtains tcb where
    "pid = next_pid (PROCESS_TABLE st)" "get_process (PROCESS_TABLE st) pid = None"
    "t_tid tcb = NEXT_TID st" "t_pid tcb = pid" "t_state tcb = Ready"
    "SCHEDULER st' = add_thread tcb (SCHEDULER st)" "NEXT_TID st' = NEXT_TID st + 1"
    "get_process (PROCESS_TABLE st') =
       (get_process (PROCESS_TABLE st))(pid \<mapsto> (new_pcb pid name (CR3 st))\<lparr>p_threads := [NEXT_TID st]\<rparr>)"
    "table_wf (PROCESS_TABLE st')" "next_pid (PROCESS_TABLE st') = pid + 1"
proof -
  from assms(1) obtain st1 tid st2
    where reg: "register_process name st = Inr (pid, st1)"
      and spawn: "spawn_thread trampoline stack pid entry_fn st1 = Inr (tid, st2)"
      and st': "st' = klog (info ''Process {} ({}) created with main thread {}''
                         [ArgU64 pid, ArgStr name, ArgU64 tid]) (record_thread pid tid st2)"
    by (auto simp: create_process_def outcome_simps)
  note reg_laws = register_process_laws [OF reg assms(2)]
  have st1: "SCHEDULER st1 = SCHEDULER st" "NEXT_TID st1 = NEXT_TID st"
    by (subst reg_laws(6); simp)+
  from spawn obtain tcb where tcb: "t_tid tcb = tid" "t_pid tcb = pid" "t_state tcb = Ready"
      "tid = NEXT_TID st" "NEXT_TID st2 = NEXT_TID st + 1" "SCHEDULER st2 = add_thread tcb (SCHEDULER st)"
      "PROCESS_TABLE st2 = PROCESS_TABLE st1"
    by (rule spawn_thread_Inr) (use st1 more_PROCESS_TABLE in auto)
  have "get_process (PROCESS_TABLE st') =
       (get_process (PROCESS_TABLE st))(pid \<mapsto> (new_pcb pid name (CR3 st))\<lparr>p_threads := [NEXT_TID st]\<rparr>)"
    using reg_laws(3) tcb
    by (auto simp: st' klog_def record_thread_def get_modify_process fun_eq_iff new_pcb_def)
  moreover have "table_wf (PROCESS_TABLE st')"
    using reg_laws(4) tcb by (simp add: st' klog_def record_thread_def modify_process_wf)
  ultimately show thesis
    using that [of tcb] tcb reg_laws(1,2,5) by (simp add: st' klog_def record_thread_def)
qed

lemma sched_wf_add_thread:
  "sched_wf s \<Longrightarrow> threads s \<noteq> [] \<Longrightarrow> t_state tcb \<noteq> Running \<Longrightarrow> sched_wf (add_thread tcb s)"
  by (auto simp: sched_wf_def add_thread_def nth_append less_Suc_eq)

lemma kernel_inv_create:
  fixes st :: "'a kernel_state_scheme"
  assumes "kernel_inv st" "NEXT_TID st \<noteq> - 1"
    "create_process trampoline stack name entry_fn st = Inr (pid, st')"
  shows "kernel_inv st'"
proof -
  have inv: "sched_wf (SCHEDULER st)" "threads (SCHEDULER st) \<noteq> []" "tids_wf st"
      "table_wf (PROCESS_TABLE st)" "ownership st" "lifecycle st"
    using assms(1) by (simp_all add: kernel_inv_def)
  obtain tcb where c: "get_process (PROCESS_TABLE st) pid = None"
    "t_tid tcb = NEXT_TID st" "t_pid tcb = pid" "t_state tcb = Ready"
    "SCHEDULER st' = add_thread tcb (SCHEDULER st)" "NEXT_TID st' = NEXT_TID st + 1"
    "get_process (PROCESS_TABLE st') =
       (get_process (PROCESS_TABLE st))(pid \<mapsto> (new_pcb pid name (CR3 st))\<lparr>p_threads := [NEXT_TID st]\<rparr>)"
    "table_wf (PROCESS_TABLE st')"
    using create_process_Inr [OF assms(3) inv(4)] by metis
  have ids: "idents st' = idents st @ [(NEXT_TID st, pid)]"
    using c by (simp add: idents_def add_thread_def)
  have fresh: "NEXT_TID st \<notin> fst ` set (idents st)" using inv(3) by (auto simp: tids_wf_idents)
  have "tids_wf st'"
    using inv(3) fresh assms(2) less_succ_u64 less_succ_self_u64
    by (auto simp: tids_wf_idents ids c(6))
  moreover have "ownership st'"
    using inv(5) c(1) unfolding ownership_def ids c(7) by auto
  moreover have exited: "thread_state st' tid = Some Exited" if "thread_state st tid = Some Exited" for tid
    using that c by (auto simp: thread_state_def add_thread_def find_append)
  have "lifecycle st'"
    unfolding lifecycle_def c(7)
  proof (intro allI impI)
    fix p pcb
    assume get: "((get_process (PROCESS_TABLE st))
      (pid \<mapsto> (new_pcb pid name (CR3 st))\<lparr>p_threads := [NEXT_TID st]\<rparr>)) p = Some pcb"
    show "pcb_ok st' p pcb"
    proof (cases "p = pid")
      case True
      with get show ?thesis by (auto simp: pcb_ok_def)
    next
      case False
      with get inv(6) have "pcb_ok st p pcb" by (simp add: lifecycle_def)
      then show ?thesis using exited by (rule pcb_ok_mono)
    qed
  qed
  ultimately show ?thesis
    using inv c by (auto simp: kernel_inv_def intro!: sched_wf_add_thread) (simp add: add_thread_def)
qed

section \<open>Exiting a process\<close>

lemma mark_thread_exited_frame [simp]:
  fixes st :: "'a kernel_state_scheme"
  shows "PROCESS_TABLE (mark_thread_exited tid st) = PROCESS_TABLE st"
    "KLOG (mark_thread_exited tid st) = KLOG st"
    "NEXT_TID (mark_thread_exited tid st) = NEXT_TID st"
    "current (SCHEDULER (mark_thread_exited tid st)) = current (SCHEDULER st)"
    "cpu (mark_thread_exited tid st) = cpu st"
  by (simp_all add: mark_thread_exited_def mark_exited_def)

lemma idents_mark [simp]: "idents (mark_thread_exited tid st) = idents st"
proof -
  have "map (\<lambda>t. (t_tid t, t_pid t)) (mark_exited_in tid ts) = map (\<lambda>t. (t_tid t, t_pid t)) ts" for ts
    by (induction ts) auto
  then show ?thesis by (simp add: idents_def mark_thread_exited_def mark_exited_def)
qed

lemma mark_exited_in_state:
  "i < length ts \<Longrightarrow> t_state (mark_exited_in tid ts ! i) \<noteq> t_state (ts ! i) \<Longrightarrow>
     t_state (mark_exited_in tid ts ! i) = Exited"
  by (induction ts arbitrary: i) (auto simp: nth_Cons split: nat.splits if_splits)

lemma sched_wf_mark: "sched_wf (SCHEDULER st) \<Longrightarrow> sched_wf (SCHEDULER (mark_thread_exited tid st))"
  using mark_exited_in_state [of _ "threads (SCHEDULER st)" tid]
  by (auto simp: sched_wf_def mark_thread_exited_def mark_exited_def split: if_splits)
    (metis ThreadState.distinct(9) length_0_conv mark_exited_in_shape(3))+

lemma fold_mark_frame:
  fixes st :: "'a kernel_state_scheme"
  shows "PROCESS_TABLE (fold mark_thread_exited ts st) = PROCESS_TABLE st"
    "idents (fold mark_thread_exited ts st) = idents st"
    "NEXT_TID (fold mark_thread_exited ts st) = NEXT_TID st"
    "sched_wf (SCHEDULER st) \<Longrightarrow> sched_wf (SCHEDULER (fold mark_thread_exited ts st))"
  by (induction ts arbitrary: st) (auto simp: sched_wf_mark)

lemma exit_process_laws:
  fixes st :: "'a kernel_state_scheme"
  assumes "get_process (PROCESS_TABLE st) pid = Some pcb" "tids_wf st"
  shows "get_process (PROCESS_TABLE (exit_process pid code st)) =
           (get_process (PROCESS_TABLE st))(pid \<mapsto> pcb\<lparr>p_state := P_Zombie, p_exit_code := Some code\<rparr>)"
    and "idents (exit_process pid code st) = idents st"
    and "NEXT_TID (exit_process pid code st) = NEXT_TID st"
    and "sched_wf (SCHEDULER st) \<Longrightarrow> sched_wf (SCHEDULER (exit_process pid code st))"
    and "table_wf (PROCESS_TABLE st) \<Longrightarrow> table_wf (PROCESS_TABLE (exit_process pid code st))"
    and "thread_state (exit_process pid code st) tid =
           (if tid \<in> set (p_threads pcb) \<and> thread_state st tid \<noteq> None then Some Exited
            else thread_state st tid)"
proof -
  let ?f = "\<lambda>pcb. pcb\<lparr>p_state := P_Zombie, p_exit_code := Some code\<rparr>"
  let ?st = "st\<lparr>PROCESS_TABLE := modify_process pid ?f (PROCESS_TABLE st)\<rparr>"
  have ids: "idents ?st = idents st" "thread_state ?st = thread_state st" "tids_wf ?st"
    using assms(2) by (simp_all add: idents_def thread_state_def tids_wf_def fun_eq_iff)
  have log: "idents (klog r s) = idents s" "thread_state (klog r s) = thread_state s"
    for r and s :: "'a kernel_state_scheme"
    by (simp_all add: idents_def thread_state_def klog_def fun_eq_iff)
  have exit: "exit_process pid code st =
      klog (info ''Process {} exited with code {}'' [ArgU64 pid, ArgI32 code])
        (fold mark_thread_exited (p_threads pcb) ?st)"
    using assms(1) by (simp add: exit_process_unfold Let_def)
  show "idents (exit_process pid code st) = idents st"
    by (simp add: exit log fold_mark_frame ids)
  show "get_process (PROCESS_TABLE (exit_process pid code st)) =
      (get_process (PROCESS_TABLE st))(pid \<mapsto> ?f pcb)"
    by (simp add: exit klog_def fold_mark_frame get_modify_process fun_eq_iff assms(1))
  show "NEXT_TID (exit_process pid code st) = NEXT_TID st"
    and "sched_wf (SCHEDULER st) \<Longrightarrow> sched_wf (SCHEDULER (exit_process pid code st))"
    by (simp_all add: exit klog_def fold_mark_frame)
  show "table_wf (PROCESS_TABLE st) \<Longrightarrow> table_wf (PROCESS_TABLE (exit_process pid code st))"
    by (simp add: exit klog_def fold_mark_frame modify_process_wf)
  show "thread_state (exit_process pid code st) tid =
      (if tid \<in> set (p_threads pcb) \<and> thread_state st tid \<noteq> None then Some Exited
       else thread_state st tid)"
    by (simp add: exit log sched_threads.state_of_mark_all [OF ids(3)] ids(2))
qed

lemma kernel_inv_exit:
  fixes st :: "'a kernel_state_scheme"
  assumes "kernel_inv st"
  shows "kernel_inv (exit_process pid code st)"
proof (cases "get_process (PROCESS_TABLE st) pid")
  case None
  with assms show ?thesis by (simp add: exit_process_unfold)
next
  case (Some pcb)
  let ?st = "exit_process pid code st"
  have inv: "sched_wf (SCHEDULER st)" "threads (SCHEDULER st) \<noteq> []" "tids_wf st"
      "table_wf (PROCESS_TABLE st)" "ownership st" "lifecycle st"
    using assms by (simp_all add: kernel_inv_def)
  note laws = exit_process_laws [OF Some inv(3), where code = code]
  note exists = owned_thread_exists [OF assms Some]
  have "tids_wf ?st" "threads (SCHEDULER ?st) \<noteq> []"
    using inv(2,3) laws(2,3) by (auto simp: tids_wf_idents) (auto simp: idents_def)
  moreover have "ownership ?st"
    using inv(5) Some unfolding ownership_def laws(1,2) by auto
  moreover have "lifecycle ?st"
    unfolding lifecycle_def laws(1)
  proof (intro allI impI)
    fix p q
    assume get: "((get_process (PROCESS_TABLE st))
      (pid \<mapsto> pcb\<lparr>p_state := P_Zombie, p_exit_code := Some code\<rparr>)) p = Some q"
    show "pcb_ok ?st p q"
    proof (cases "p = pid")
      case True
      then have q: "q = pcb\<lparr>p_state := P_Zombie, p_exit_code := Some code\<rparr>" using get by simp
      have "pcb_ok st pid pcb" using inv(6) Some by (simp add: lifecycle_def)
      with True q exists show ?thesis by (simp add: pcb_ok_def laws(6))
    next
      case False
      with get inv(6) have "pcb_ok st p q" by (simp add: lifecycle_def)
      then show ?thesis by (rule pcb_ok_mono) (simp add: laws(6))
    qed
  qed
  ultimately show ?thesis using inv laws(4,5) by (simp add: kernel_inv_def)
qed

section \<open>Boot\<close>

definition boot_state :: "machine \<Rightarrow> u64 \<Rightarrow> kernel_state" where
  "boot_state m cr3 = \<lparr>SCHEDULER = Scheduler_new, NEXT_TID = 1, cpu = m,
     PROCESS_TABLE = ProcessTable_new, CR3 = cr3, KLOG = []\<rparr>"

text \<open>The state \<open>scheduler::init\<close> has reached when it starts to create the demo processes.\<close>

definition idle_state :: "machine \<Rightarrow> u64 \<Rightarrow> kernel_state" where
  "idle_state m cr3 = \<lparr>SCHEDULER = \<lparr>threads = [idle_thread], current = 0\<rparr>, NEXT_TID = 1, cpu = m,
     PROCESS_TABLE = \<lparr>processes = [(0, \<lparr>p_pid = 0, p_name = ''kernel'', p_state = P_Running,
         p_parent = None, p_threads = [0], p_exit_code = None, p_page_table = cr3\<rparr>)], next_pid = 1\<rparr>,
     CR3 = cr3, KLOG = []\<rparr>"

lemma scheduler_init_run:
  "scheduler_init trampoline stack_a stack_b demo_a demo_b (boot_state m cr3) =
     and_then (create_process trampoline stack_a ''demo_a'' demo_a (idle_state m cr3)) (\<lambda>(_, st).
     and_then (create_process trampoline stack_b ''demo_b'' demo_b st) (\<lambda>(_, st).
       Inr (klog (info ''Scheduler initialized with {} threads''
                    [ArgUsize (thread_count (SCHEDULER st))]) st)))"
  by (simp add: scheduler_init_def boot_state_def idle_state_def ProcessTable_new_def btree_new_def
      Scheduler_new_def alloc_pid_def add_checked_def insert_process_def add_thread_def)

lemma kernel_inv_klog [simp]: "kernel_inv (klog r st) = kernel_inv st"
  by (simp add: klog_def kernel_inv_def ownership_def lifecycle_def pcb_ok_def idents_def
      thread_state_def tids_wf_def)

lemma create_process_returns:
  assumes "unat p + 16384 < 2 ^ 64" "next_pid (PROCESS_TABLE st) \<noteq> - 1"
  obtains pid st' where "create_process trampoline (Some p) name entry_fn st = Inr (pid, st')"
proof -
  have "\<exists>r. alloc_pid (PROCESS_TABLE st) = Inr r"
    using assms(2) alloc_pid_Inr by fastforce
  then show thesis
    using that by (auto simp: create_process_def register_process_def spawn_thread_run [OF assms(1)])
qed

end
