(* ===== verification/Kernel_Steps.thy ===== *)
theory Kernel_Steps
  imports Kernel_Invariant
begin

text \<open>
  The kernel after boot as a state machine: timer ticks, process creation and process exit in
  any order, from the state \<open>scheduler::init\<close> leaves. The properties of this theory are about
  every reachable state. A tick may come with any addresses and return address, a creation
  with any allocator answer; creation requires that the 64-bit thread counter is not at its
  last value.
\<close>

section \<open>Steps and reachable states\<close>

inductive kstep :: "kernel_state \<Rightarrow> kernel_state \<Rightarrow> bool" where
  kstep_tick: "tick addr ret st = Inr st' \<Longrightarrow> kstep st st'"
| kstep_create: "create_process trampoline stack name entry_fn st = Inr (pid, st') \<Longrightarrow>
     NEXT_TID st \<noteq> - 1 \<Longrightarrow> kstep st st'"
| kstep_exit: "kstep st (exit_process pid code st)"

inductive reachable :: "kernel_state \<Rightarrow> bool" where
  boot: "scheduler_init trampoline stack_a stack_b demo_a demo_b (boot_state m cr3) = Inr st \<Longrightarrow>
     reachable st"
| step: "reachable st \<Longrightarrow> kstep st st' \<Longrightarrow> reachable st'"

inductive_cases kstepE: "kstep st st'"

lemma kstep_inv: "kstep st st' \<Longrightarrow> kernel_inv st \<Longrightarrow> kernel_inv st'"
  by (auto elim!: kstepE intro: kernel_inv_tick kernel_inv_create kernel_inv_exit)

lemma NEXT_TID_klog [simp]: "NEXT_TID (klog r st) = NEXT_TID st"
  by (simp add: klog_def)

lemma kernel_inv_idle:
  fixes st :: "'a kernel_state_scheme"
  assumes "NEXT_TID st = 1"
  shows "kernel_inv (st\<lparr>PROCESS_TABLE := \<lparr>processes = [(0, \<lparr>p_pid = 0, p_name = ''kernel'', p_state = P_Running,
         p_parent = None, p_threads = [0], p_exit_code = None, p_page_table = cr3\<rparr>)], next_pid = 1\<rparr>,
     SCHEDULER := \<lparr>threads = [idle_thread], current = 0\<rparr>\<rparr>)"
  using assms
  by (auto simp: kernel_inv_def idle_thread_def sched_wf_def tids_wf_def table_wf_def
      btree_wf_def ownership_def lifecycle_def pcb_ok_def idents_def get_process_def btree_get_def
      split: if_splits)

lemma scheduler_init_inv:
  fixes st :: "'a kernel_state_scheme"
  assumes fresh: "SCHEDULER st = Scheduler_new" "NEXT_TID st = 1" "PROCESS_TABLE st = ProcessTable_new"
    and run: "scheduler_init trampoline stack_a stack_b demo_a demo_b st = Inr st'"
  shows "kernel_inv st'"
proof -
  define idle where "idle = st\<lparr>PROCESS_TABLE := \<lparr>processes = [(0, \<lparr>p_pid = 0, p_name = ''kernel'', p_state = P_Running,
         p_parent = None, p_threads = [0], p_exit_code = None, p_page_table = CR3 st\<rparr>)], next_pid = 1\<rparr>,
     SCHEDULER := \<lparr>threads = [idle_thread], current = 0\<rparr>\<rparr>"
  have inv: "kernel_inv idle" using kernel_inv_idle [OF fresh(2)] by (simp add: idle_def)
  have idle: "NEXT_TID idle = 1" "table_wf (PROCESS_TABLE idle)"
    using inv fresh(2) by (simp_all add: kernel_inv_def) (simp add: idle_def)
  obtain pa sta pb stb
    where a: "create_process trampoline stack_a ''demo_a'' demo_a idle = Inr (pa, sta)"
      and b: "create_process trampoline stack_b ''demo_b'' demo_b sta = Inr (pb, stb)"
      and st': "st' = klog (info ''Scheduler initialized with {} threads''
                    [ArgUsize (thread_count (SCHEDULER stb))]) stb"
    using run fresh
    by (auto simp: scheduler_init_def alloc_pid_def ProcessTable_new_def Scheduler_new_def btree_new_def
        add_checked_def insert_process_def add_thread_def outcome_simps idle_def)
  have inv: "kernel_inv sta" using kernel_inv_create [OF inv _ a] idle by simp
  have "NEXT_TID sta = 2" using create_process_Inr [OF a idle(2)] idle(1) by simp
  then have "kernel_inv stb" using kernel_inv_create [OF inv _ b] by simp
  then show ?thesis by (simp add: st')
qed

lemma boot_inv:
  "scheduler_init trampoline stack_a stack_b demo_a demo_b (boot_state m cr3) = Inr st \<Longrightarrow> kernel_inv st"
  by (rule scheduler_init_inv [of "boot_state m cr3"]) (simp_all add: boot_state_def)

lemma reachable_inv: "reachable st \<Longrightarrow> kernel_inv st"
  by (induction rule: reachable.induct) (auto intro: boot_inv kstep_inv)

section \<open>Exits are final\<close>

lemma current_in_threads:
  assumes "kernel_inv st"
  obtains tid pid where "current_tid st = Inr tid" "current_pid st = Inr pid"
    "(tid, pid) \<in> set (idents st)"
proof -
  have "current (SCHEDULER st) < length (threads (SCHEDULER st))"
    using assms by (auto simp: kernel_inv_def sched_wf_def split: if_splits)
  with that show thesis
    by (simp add: current_tid_def current_pid_def Scheduler_current_tid_def
        Scheduler_current_pid_def idents_def)
qed

lemma create_keeps_states:
  fixes st :: "'a kernel_state_scheme"
  assumes "kernel_inv st" "create_process trampoline stack name entry_fn st = Inr (pid, st')"
  shows "thread_state st tid = Some x \<Longrightarrow> thread_state st' tid = Some x"
    and "current_tid st' = current_tid st" "current_pid st' = current_pid st"
    and "get_process (PROCESS_TABLE st) p = Some pcb \<Longrightarrow> get_process (PROCESS_TABLE st') p = Some pcb"
proof -
  have wf: "table_wf (PROCESS_TABLE st)" "current (SCHEDULER st) < length (threads (SCHEDULER st))"
    using assms(1) by (auto simp: kernel_inv_def sched_wf_def split: if_splits)
  from create_process_Inr [OF assms(2) wf(1)] obtain tcb pcb'
    where c: "SCHEDULER st' = add_thread tcb (SCHEDULER st)"
      "get_process (PROCESS_TABLE st) pid = None"
      "get_process (PROCESS_TABLE st') = (get_process (PROCESS_TABLE st))(pid \<mapsto> pcb')"
    by metis
  show "thread_state st tid = Some x \<Longrightarrow> thread_state st' tid = Some x"
    by (auto simp: thread_state_def c(1) add_thread_def find_append split: option.splits)
  show "current_tid st' = current_tid st" "current_pid st' = current_pid st"
    using wf(2) by (simp_all add: current_tid_def current_pid_def Scheduler_current_tid_def
        Scheduler_current_pid_def c(1) add_thread_def nth_append)
  show "get_process (PROCESS_TABLE st) p = Some pcb \<Longrightarrow> get_process (PROCESS_TABLE st') p = Some pcb"
    using c by auto
qed

lemma exit_keeps_current:
  fixes st :: "'a kernel_state_scheme"
  shows "current_tid (exit_process pid code st) = current_tid st"
    "current_pid (exit_process pid code st) = current_pid st"
proof -
  have "current_tid (fold mark_thread_exited ts s) = current_tid s \<and>
        current_pid (fold mark_thread_exited ts s) = current_pid s"
    for ts and s :: "'a kernel_state_scheme"
  proof (induction ts arbitrary: s)
    case (Cons t ts)
    have "t_tid (mark_exited_in t xs ! i) = t_tid (xs ! i)" "t_pid (mark_exited_in t xs ! i) = t_pid (xs ! i)"
      if "i < length xs" for xs i
      using that mark_exited_in_shape(1,2) [of t xs] by (metis length_map nth_map)+
    then have "current_tid (mark_thread_exited t s) = current_tid s"
        "current_pid (mark_thread_exited t s) = current_pid s"
      by (simp_all add: current_tid_def current_pid_def Scheduler_current_tid_def
          Scheduler_current_pid_def mark_thread_exited_def mark_exited_def vec_get_def)
    with Cons show ?case by simp
  qed simp
  then show "current_tid (exit_process pid code st) = current_tid st"
    "current_pid (exit_process pid code st) = current_pid st"
    by (auto simp: exit_process_unfold Let_def klog_def current_tid_def current_pid_def split: option.splits)
qed

lemma tick_current:
  assumes "sched_wf (SCHEDULER st)" "tick addr ret st = Inr st'"
  shows "current (SCHEDULER st') = current (SCHEDULER st) \<or>
         current (SCHEDULER st') < length (threads (SCHEDULER st)) \<and>
         t_state (threads (SCHEDULER st) ! current (SCHEDULER st')) = Ready"
proof (cases "find (is_ready (SCHEDULER st)) (candidates (SCHEDULER st))")
  case None
  then show ?thesis using assms tick_idle [OF assms(1), of addr ret] by simp
next
  case (Some j)
  then show ?thesis
    using assms(2) find_ready_in_range [OF assms(1) Some]
    by (elim tick_switch [OF assms(1), of j ret addr]) auto
qed

text \<open>A thread that has exited and is not on the processor.\<close>

definition dormant :: "'a sched_state_scheme \<Rightarrow> u64 \<Rightarrow> bool" where
  "dormant st tid \<longleftrightarrow> thread_state st tid = Some Exited \<and> current_tid st \<noteq> Inr tid"

lemma idents_nth:
  "i < length (threads (SCHEDULER st)) \<Longrightarrow>
     idents st ! i = (t_tid (threads (SCHEDULER st) ! i), t_pid (threads (SCHEDULER st) ! i))"
  by (simp add: idents_def)

lemma tick_dormant:
  fixes st :: "'a kernel_state_scheme"
  assumes "kernel_inv st" "tick addr ret st = Inr st'" "dormant st tid"
  shows "dormant st' tid"
proof -
  let ?c = "current (SCHEDULER st)" and ?c' = "current (SCHEDULER st')"
  let ?ts = "threads (SCHEDULER st)" and ?ts' = "threads (SCHEDULER st')"
  have wf: "sched_wf (SCHEDULER st)" "distinct (map t_tid ?ts)"
    using assms(1) by (simp_all add: kernel_inv_def tids_wf_def)
  note frame = tick_frame [OF wf(1) assms(2)]
  have len: "length ?ts' = length ?ts" using arg_cong [OF frame(2), of length] by (simp add: idents_def)
  have cur: "?c < length ?ts" "?c' < length ?ts"
    using assms(1) kernel_inv_tick [OF assms(1,2)] len
    by (auto simp: kernel_inv_def sched_wf_def split: if_splits)
  have tid: "t_tid (?ts' ! ?c') = t_tid (?ts ! ?c')"
    using frame(2) idents_nth [of ?c' st] idents_nth [of ?c' st'] cur len by simp
  have "t_tid (?ts ! ?c') \<noteq> tid"
    using tick_current [OF wf(1) assms(2)]
  proof
    assume "?c' = ?c"
    then show ?thesis
      using assms(3) cur by (simp add: dormant_def current_tid_def Scheduler_current_tid_def)
  next
    assume "?c' < length ?ts \<and> t_state (?ts ! ?c') = Ready"
    then show ?thesis
      using assms(3) find_by_key [OF wf(2), of "?ts ! ?c'"] by (auto simp: dormant_def thread_state_def)
  qed
  then show ?thesis
    using assms(3) frame(5) tid cur len
    by (simp add: dormant_def current_tid_def Scheduler_current_tid_def)
qed

lemma kstep_dormant:
  assumes "kstep st st'" "kernel_inv st" "dormant st tid"
  shows "dormant st' tid"
  using assms(1)
proof (cases rule: kstep.cases)
  case kstep_tick
  with assms(2,3) show ?thesis by (blast intro: tick_dormant)
next
  case (kstep_create trampoline stack name entry_fn pid)
  then show ?thesis
    using assms(3) create_keeps_states [OF assms(2) kstep_create(1)] by (simp add: dormant_def)
next
  case (kstep_exit pid code)
  have "thread_state (exit_process pid code st) tid = Some Exited"
  proof (cases "get_process (PROCESS_TABLE st) pid")
    case None
    then show ?thesis using assms(3) by (simp add: exit_process_unfold dormant_def)
  next
    case (Some pcb)
    then show ?thesis
      using assms(2,3) exit_process_laws(6) [OF Some] by (simp add: kernel_inv_def dormant_def)
  qed
  then show ?thesis using assms(3) by (simp add: kstep_exit dormant_def exit_keeps_current)
qed

lemma ksteps_inv: "kstep\<^sup>*\<^sup>* st st' \<Longrightarrow> kernel_inv st \<Longrightarrow> kernel_inv st'"
  by (induction rule: rtranclp_induct) (auto intro: kstep_inv)

lemma ksteps_dormant: "kstep\<^sup>*\<^sup>* st st' \<Longrightarrow> kernel_inv st \<Longrightarrow> dormant st tid \<Longrightarrow> dormant st' tid"
  by (induction rule: rtranclp_induct) (auto intro: kstep_dormant ksteps_inv)

definition threads_of :: "'a kernel_state_scheme \<Rightarrow> u64 \<Rightarrow> u64 list option" where
  "threads_of st pid = map_option p_threads (get_process (PROCESS_TABLE st) pid)"

lemma kstep_threads_of:
  assumes "kstep st st'" "kernel_inv st" "threads_of st pid = Some ts"
  shows "threads_of st' pid = Some ts"
  using assms(1)
proof (cases rule: kstep.cases)
  case (kstep_tick addr ret)
  then have "PROCESS_TABLE st' = PROCESS_TABLE st"
    using assms(2) by (intro more_PROCESS_TABLE tick_frame(4)) (auto simp: kernel_inv_def)
  then show ?thesis using assms(3) by (simp add: threads_of_def)
next
  case (kstep_create trampoline stack name entry_fn pid)
  then show ?thesis
    using assms(3) create_keeps_states(4) [OF assms(2) kstep_create(1)] by (auto simp: threads_of_def)
next
  case (kstep_exit p code)
  show ?thesis
  proof (cases "get_process (PROCESS_TABLE st) p")
    case None
    then show ?thesis using assms(3) by (simp add: kstep_exit exit_process_unfold)
  next
    case (Some pcb)
    then show ?thesis
      using assms(2,3) exit_process_laws(1) [OF Some]
      by (auto simp: kernel_inv_def kstep_exit threads_of_def split: if_splits)
  qed
qed

lemma ksteps_threads_of:
  "kstep\<^sup>*\<^sup>* st st' \<Longrightarrow> kernel_inv st \<Longrightarrow> threads_of st pid = Some ts \<Longrightarrow> threads_of st' pid = Some ts"
  by (induction rule: rtranclp_induct) (auto intro: kstep_threads_of ksteps_inv)

end
