(* ===== verification/Kernel_Theorems.thy ===== *)
theory Kernel_Theorems
  imports Kernel_Steps
begin

text \<open>
  The properties of the running kernel: what boot leaves behind, what holds in every reachable
  state, and what the exit of a process means.
\<close>

section \<open>A booted kernel\<close>

text \<open>A concrete boot for the witnesses.\<close>

definition booted_state :: kernel_state where
  "booted_state = (case scheduler_init 0xAAAA (Some 0x100000) (Some 0x200000) 0x111 0x222
     (boot_state example_machine 0x1000) of Inr st \<Rightarrow> st | Inl _ \<Rightarrow> idle_state example_machine 0x1000)"

lemmas boot_defs =
  scheduler_init_run create_process_def register_process_def alloc_pid_def add_checked_def
  insert_process_def record_thread_def modify_process_def klog_def idle_state_def idle_thread_def
  add_thread_def new_thread_def new_pcb_def tview_def thread_count_def btree_modify_def

lemma booted_runs:
  "scheduler_init 0xAAAA (Some 0x100000) (Some 0x200000) 0x111 0x222 (boot_state example_machine 0x1000) =
     Inr booted_state"
  unfolding booted_state_def by (simp add: boot_defs spawn_thread_run)

lemma booted_facts:
  shows "map tview (threads (SCHEDULER booted_state)) = [(0, 0, Running), (1, 1, Ready), (2, 2, Ready)]"
    and "current (SCHEDULER booted_state) = 0"
    and "\<exists>pcb. get_process (PROCESS_TABLE booted_state) 1 = Some pcb \<and> p_threads pcb = [1]"
  unfolding booted_state_def by (simp_all add: boot_defs spawn_thread_run get_process_def btree_get_def)

lemma booted_reachable: "reachable booted_state"
  using booted_runs by (rule reachable.boot)

text \<open>
  C26. Boot: with memory for the two stacks, \<open>scheduler::init\<close> returns, and leaves the idle thread
  running and one ready thread for each of the two demo processes, three processes with the
  kernel as parent of the others, and the log lines that say so.
\<close>

theorem scheduler_init_boots:
  assumes "unat pa + 16384 < 2 ^ 64" "unat pb + 16384 < 2 ^ 64"
  shows "\<exists>st. scheduler_init trampoline (Some pa) (Some pb) demo_a demo_b (boot_state m cr3) = Inr st \<and>
     map tview (threads (SCHEDULER st)) = [(0, 0, Running), (1, 1, Ready), (2, 2, Ready)] \<and>
     current (SCHEDULER st) = 0 \<and> NEXT_TID st = 3 \<and>
     map (\<lambda>(k, p). (k, p_name p, p_state p, p_parent p, p_threads p, p_page_table p))
         (processes (PROCESS_TABLE st)) =
       [(0, ''kernel'', P_Running, None, [0], cr3), (1, ''demo_a'', P_Running, Some 0, [1], cr3),
        (2, ''demo_b'', P_Running, Some 0, [2], cr3)] \<and>
     KLOG st = [info ''Process {} ({}) created with main thread {}'' [ArgU64 1, ArgStr ''demo_a'', ArgU64 1],
                info ''Process {} ({}) created with main thread {}'' [ArgU64 2, ArgStr ''demo_b'', ArgU64 2],
                info ''Scheduler initialized with {} threads'' [ArgUsize 3]]"
  by (simp add: boot_defs spawn_thread_run [OF assms(1)] spawn_thread_run [OF assms(2)])

theorem scheduler_init_boots_witness:
  "\<exists>st. scheduler_init 0xAAAA (Some 0x100000) (Some 0x200000) 0x111 0x222
           (boot_state example_machine 0x1000) = Inr st \<and>
     map tview (threads (SCHEDULER st)) = [(0, 0, Running), (1, 1, Ready), (2, 2, Ready)]"
  using scheduler_init_boots [of "0x100000" "0x200000" "0xAAAA" "0x111" "0x222" example_machine "0x1000"]
  by (simp only: unat_numeral) auto

section \<open>Reachable states\<close>

text \<open>
  C2. In every state the kernel reaches from boot by timer ticks, process creations and process
  exits, in any order, the scheduler and the process table agree: the current index is in range
  and at most the current thread is running, thread identifiers are unique, the table's entries
  are keyed by their pid, the threads of the scheduler are exactly those the processes list, and
  a process is either running without exit code or a zombie with an exit code all of whose
  threads have exited.
\<close>

theorem reachable_invariant: "reachable st \<Longrightarrow> kernel_inv st"
  by (rule reachable_inv)

theorem reachable_invariant_witness: "reachable booted_state \<and> kernel_inv booted_state"
  using reachable_invariant [OF booted_reachable] booted_reachable by simp

lemma reachable_current:
  assumes "reachable st"
  obtains tid pid pcb where "current_tid st = Inr tid" "current_pid st = Inr pid"
    "get_process (PROCESS_TABLE st) pid = Some pcb" "tid \<in> set (p_threads pcb)"
proof -
  have inv: "kernel_inv st" using assms by (rule reachable_inv)
  obtain tid pid where "current_tid st = Inr tid" "current_pid st = Inr pid" "(tid, pid) \<in> set (idents st)"
    by (rule current_in_threads [OF inv])
  with inv that show thesis by (auto simp: kernel_inv_def ownership_def)
qed

text \<open>
  C20. In every reachable state \<open>current_tid\<close> and \<open>current_pid\<close> return the identifiers of a thread that the
  process table lists under that process, and a timer tick returns, in a reachable state.
\<close>

theorem reachable_tick_returns:
  assumes "reachable st"
  shows "(\<exists>tid pid pcb. current_tid st = Inr tid \<and> current_pid st = Inr pid \<and>
           get_process (PROCESS_TABLE st) pid = Some pcb \<and> tid \<in> set (p_threads pcb)) \<and>
         (\<exists>st'. tick addr ret st = Inr st' \<and> reachable st')"
proof -
  have "sched_wf (SCHEDULER st)" using reachable_inv [OF assms] by (simp add: kernel_inv_def)
  then obtain st' where tick: "tick addr ret st = Inr st'" by (rule tick_refines)
  have "reachable st'" using assms kstep_tick [OF tick] by (rule reachable.step)
  with tick show ?thesis using reachable_current [OF assms] by metis
qed

theorem reachable_tick_returns_witness:
  "(\<exists>tid. current_tid booted_state = Inr tid) \<and> (\<exists>st'. tick example_addr 0x4444 booted_state = Inr st' \<and> reachable st')"
  using reachable_tick_returns [OF booted_reachable, of example_addr "0x4444"] by blast

section \<open>Process exit\<close>

text \<open>With distinct thread ids, marking a list of them is one pass over the threads.\<close>

definition exit_threads :: "u64 set \<Rightarrow> ThreadControlBlock list \<Rightarrow> ThreadControlBlock list" where
  "exit_threads tids = map (\<lambda>t. if t_tid t \<in> tids then t\<lparr>t_state := Exited\<rparr> else t)"

lemma mark_exited_in_threads: "distinct (map t_tid ts) \<Longrightarrow> mark_exited_in tid ts = exit_threads {tid} ts"
  by (simp add: mark_exited_in_map exit_threads_def)

lemma exit_threads_tids: "map t_tid (exit_threads tids ts) = map t_tid ts"
  by (simp add: exit_threads_def)

lemma fold_mark_exited:
  assumes "distinct (map t_tid (threads (SCHEDULER st)))"
  shows "fold mark_thread_exited tids st =
    st\<lparr>SCHEDULER := (SCHEDULER st)\<lparr>threads := exit_threads (set tids) (threads (SCHEDULER st))\<rparr>\<rparr>"
  using assms
proof (induction tids arbitrary: st)
  case (Cons tid tids)
  have "exit_threads A (exit_threads {tid} ts) = exit_threads (insert tid A) ts" for A ts
    by (auto simp: exit_threads_def)
  then show ?case
    using Cons.IH [of "mark_thread_exited tid st"] Cons.prems
    by (simp add: mark_thread_exited_def mark_exited_def mark_exited_in_threads exit_threads_tids)
qed (simp add: exit_threads_def)

text \<open>
  C22. \<open>exit_process\<close> on an existing process makes it a zombie with the given exit code and marks exactly the
  threads the process lists, all of which exist, as exited, adds one record to the log, and changes nothing else: the
  process keeps its other fields, every other process, the pid and thread counters, the order, contexts and other
  fields of the threads, the thread on the processor and the machine stay as they are. On an unknown pid it
  does nothing at all.
\<close>

theorem exit_process_effect:
  fixes st :: kernel_state
  assumes "kernel_inv st"
  shows "case get_process (PROCESS_TABLE st) pid of
        None \<Rightarrow> exit_process pid code st = st
      | Some pcb \<Rightarrow>
          (\<exists>table. exit_process pid code st =
             st\<lparr>SCHEDULER := (SCHEDULER st)\<lparr>threads := map (\<lambda>t. if t_tid t \<in> set (p_threads pcb) then t\<lparr>t_state := Exited\<rparr> else t)
                                                         (threads (SCHEDULER st))\<rparr>,
                PROCESS_TABLE := table,
                KLOG := KLOG st @ [info ''Process {} exited with code {}'' [ArgU64 pid, ArgI32 code]]\<rparr> \<and>
             next_pid table = next_pid (PROCESS_TABLE st) \<and>
             get_process table = (get_process (PROCESS_TABLE st))(pid \<mapsto> pcb\<lparr>p_state := P_Zombie, p_exit_code := Some code\<rparr>)) \<and>
          set (p_threads pcb) \<subseteq> t_tid ` set (threads (SCHEDULER st))"
proof (cases "get_process (PROCESS_TABLE st) pid")
  case None
  then show ?thesis by (simp add: exit_process_unfold)
next
  case (Some pcb)
  let ?f = "\<lambda>pcb. pcb\<lparr>p_state := P_Zombie, p_exit_code := Some code\<rparr>"
  let ?table = "modify_process pid ?f (PROCESS_TABLE st)"
  have "distinct (map t_tid (threads (SCHEDULER st)))" using assms by (simp add: kernel_inv_def tids_wf_def)
  then have "exit_process pid code st =
      st\<lparr>SCHEDULER := (SCHEDULER st)\<lparr>threads := exit_threads (set (p_threads pcb)) (threads (SCHEDULER st))\<rparr>,
        PROCESS_TABLE := ?table,
        KLOG := KLOG st @ [info ''Process {} exited with code {}'' [ArgU64 pid, ArgI32 code]]\<rparr>"
    by (simp add: exit_process_unfold Some Let_def fold_mark_exited klog_def)
  moreover have "next_pid ?table = next_pid (PROCESS_TABLE st)" by (simp add: modify_process_def)
  moreover have "get_process ?table = (get_process (PROCESS_TABLE st))(pid \<mapsto> ?f pcb)"
    by (simp add: get_modify_process fun_eq_iff Some)
  moreover have "set (p_threads pcb) \<subseteq> t_tid ` set (threads (SCHEDULER st))"
    using owned_thread_exists [OF assms Some] by (auto simp: thread_state_None_iff)
  ultimately show ?thesis unfolding Some option.case exit_threads_def by blast
qed

theorem exit_process_effect_witness:
  "kernel_inv booted_state \<and>
   (\<exists>pcb. get_process (PROCESS_TABLE (exit_process 1 7 booted_state)) 1 = Some pcb \<and>
      p_state pcb = P_Zombie \<and> p_exit_code pcb = Some 7) \<and>
   NEXT_TID (exit_process 1 7 booted_state) = NEXT_TID booted_state"
proof -
  have inv: "kernel_inv booted_state" using booted_reachable by (rule reachable_inv)
  then show ?thesis
    using exit_process_effect [OF inv, of 1 7] booted_facts(3) by auto
qed

text \<open>
  C17. An exited thread never runs again: once it has exited and another thread is on the
  processor, no sequence of ticks, process creations and exits brings it back.
\<close>

theorem exited_thread_never_runs:
  assumes "reachable st" "thread_state st tid = Some Exited" "current_tid st \<noteq> Inr tid" "kstep\<^sup>*\<^sup>* st st'"
  shows "thread_state st' tid = Some Exited \<and> current_tid st' \<noteq> Inr tid"
  using ksteps_dormant [OF assms(4) reachable_inv [OF assms(1)]] assms(2,3) by (auto simp: dormant_def)

lemma exited_reachable: "reachable (exit_process pid code booted_state)"
  using booted_reachable kstep_exit by (rule reachable.step)

lemma booted_current:
  "current_tid booted_state = Inr 0" "current_pid booted_state = Inr 0"
proof -
  have t: "map tview (threads (SCHEDULER booted_state)) ! 0 = (0, 0, Running)"
    by (simp add: booted_facts)
  have "0 < length (threads (SCHEDULER booted_state))"
    using arg_cong [OF booted_facts(1), of length] by simp
  with t show "current_tid booted_state = Inr 0" "current_pid booted_state = Inr 0"
    by (auto simp: current_tid_def current_pid_def Scheduler_current_tid_def
        Scheduler_current_pid_def booted_facts(2) tview_def)
qed

theorem exited_thread_never_runs_witness:
  "thread_state (exit_process 1 7 booted_state) 1 = Some Exited \<and>
   current_tid (exit_process 2 8 (exit_process 1 7 booted_state)) \<noteq> Inr 1"
proof -
  let ?st = "exit_process 1 7 booted_state"
  obtain pcb where pcb: "get_process (PROCESS_TABLE booted_state) 1 = Some pcb" "p_threads pcb = [1]"
    using booted_facts(3) by blast
  have inv: "kernel_inv booted_state" using booted_reachable by (rule reachable_inv)
  then have "thread_state booted_state 1 \<noteq> None"
    using owned_thread_exists [OF _ pcb(1)] pcb(2) by simp
  then have "thread_state ?st 1 = Some Exited"
    using exit_process_laws(6) [OF pcb(1)] inv pcb(2) by (simp add: kernel_inv_def)
  moreover have "current_tid ?st \<noteq> Inr 1" by (simp add: exit_keeps_current booted_current)
  moreover have "kstep\<^sup>*\<^sup>* ?st (exit_process 2 8 ?st)" using kstep_exit by (rule r_into_rtranclp)
  ultimately show ?thesis using exited_thread_never_runs [OF exited_reachable] by blast
qed

text \<open>
  C4. An exited process never runs again: after \<open>exit_process\<close> of a process other than the one on
  the processor, no sequence of ticks, process creations and exits makes it the current process.
\<close>

theorem exited_process_never_runs:
  assumes "reachable st" "get_process (PROCESS_TABLE st) pid = Some pcb" "current_pid st \<noteq> Inr pid"
    and "kstep\<^sup>*\<^sup>* (exit_process pid code st) st'"
  shows "current_pid st' \<noteq> Inr pid"
proof
  assume cur: "current_pid st' = Inr pid"
  let ?st = "exit_process pid code st"
  have inv: "kernel_inv st" "kernel_inv ?st" using assms(1) by (auto intro: reachable_inv kernel_inv_exit)
  note inv' = ksteps_inv [OF assms(4) inv(2)]
  have laws: "threads_of ?st pid = Some (p_threads pcb)"
    using inv(1) exit_process_laws(1) [OF assms(2)] by (simp add: kernel_inv_def threads_of_def)
  have dormant: "dormant ?st tid" if "tid \<in> set (p_threads pcb)" for tid
  proof -
    have ids: "(tid, pid) \<in> set (idents st)" using that inv(1) assms(2) by (auto simp: kernel_inv_def ownership_def)
    from owned_thread_exists [OF inv(1) assms(2) that] have "thread_state ?st tid = Some Exited"
      using that inv(1) exit_process_laws(6) [OF assms(2)] by (simp add: kernel_inv_def)
    moreover have "current_tid st \<noteq> Inr tid"
    proof
      assume "current_tid st = Inr tid"
      then obtain p where "current_pid st = Inr p" "(tid, p) \<in> set (idents st)"
        by (auto intro: current_in_threads [OF inv(1)])
      moreover from this ids have "p = pid"
        using inv(1) eq_key_imp_eq_value [of "idents st"] by (auto simp: kernel_inv_def tids_wf_idents)
      ultimately show False using assms(3) by simp
    qed
    ultimately show ?thesis by (simp add: dormant_def exit_keeps_current)
  qed
  obtain t where t: "current_tid st' = Inr t" "(t, pid) \<in> set (idents st')"
    using cur by (auto intro: current_in_threads [OF inv'])
  then have "t \<in> set (p_threads pcb)"
    using ksteps_threads_of [OF assms(4) inv(2) laws] inv'
    by (auto simp: kernel_inv_def ownership_def threads_of_def)
  then show False using ksteps_dormant [OF assms(4) inv(2) dormant] t(1) by (auto simp: dormant_def)
qed

theorem exited_process_never_runs_witness:
  "get_process (PROCESS_TABLE booted_state) 1 \<noteq> None \<and>
   current_pid (exit_process 2 8 (exit_process 1 7 booted_state)) \<noteq> Inr 1"
proof -
  obtain pcb where pcb: "get_process (PROCESS_TABLE booted_state) 1 = Some pcb"
    using booted_facts(3) by blast
  have "kstep\<^sup>*\<^sup>* (exit_process 1 7 booted_state) (exit_process 2 8 (exit_process 1 7 booted_state))"
    using kstep_exit by (rule r_into_rtranclp)
  moreover have "current_pid booted_state \<noteq> Inr 1" by (simp add: booted_current)
  ultimately show ?thesis using exited_process_never_runs [OF booted_reachable pcb] pcb by simp
qed

text \<open>
  Only the threads \<open>create_process\<close> recorded belong to a process: a thread spawned for a pid
  directly through the public \<open>spawn_thread\<close> is not in the process's list, and \<open>exit_process\<close> leaves
  it ready to run.
\<close>

theorem spawned_thread_survives_exit:
  assumes "reachable st" "NEXT_TID st \<noteq> - 1"
    and "spawn_thread trampoline stack pid entry_fn st = Inr (tid, st1)"
  shows "thread_state (exit_process pid code st1) tid = Some Ready"
proof -
  have inv: "kernel_inv st" using assms(1) by (rule reachable_inv)
  then have ids: "tids_wf st" by (simp add: kernel_inv_def)
  note laws = spawn_thread_laws [OF ids assms(2,3)]
  have table: "PROCESS_TABLE st1 = PROCESS_TABLE st"
    using assms(3) by (elim spawn_thread_Inr) (rule more_PROCESS_TABLE)
  show ?thesis
  proof (cases "get_process (PROCESS_TABLE st) pid")
    case None
    then show ?thesis using laws(4) table by (simp add: exit_process_unfold)
  next
    case (Some pcb)
    then have "tid \<notin> set (p_threads pcb)" using owned_thread_exists [OF inv Some] laws(1) by blast
    then show ?thesis
      using exit_process_laws(6) [of st1 pid pcb code tid] Some table laws(2,4) by simp
  qed
qed

theorem spawned_thread_survives_exit_witness:
  "\<exists>tid st1. spawn_thread 0xAAAA (Some 0x300000) 1 0x333 booted_state = Inr (tid, st1) \<and>
     get_process (PROCESS_TABLE booted_state) 1 \<noteq> None \<and>
     thread_state (exit_process 1 7 st1) tid = Some Ready"
proof -
  obtain tid st1 where spawn: "spawn_thread 0xAAAA (Some 0x300000) 1 0x333 booted_state = Inr (tid, st1)"
    by (simp add: spawn_thread_run)
  have "NEXT_TID booted_state \<noteq> - 1"
    unfolding booted_state_def by (simp add: boot_defs spawn_thread_run)
  then show ?thesis
    using spawned_thread_survives_exit [OF booted_reachable _ spawn] spawn booted_facts(3) by auto
qed

end
