(* ===== verification/Kernel_Interleaving.thy ===== *)
theory Kernel_Interleaving
  imports Kernel_Theorems
begin

text \<open>
  Process creation and exit as they really run: \<open>create_process\<close> and \<open>exit_process\<close> of \<^verbatim>\<open>process.rs\<close> release their
  locks several times, so the timer can switch to another thread in the middle of either, and any number of
  threads can be in the middle of one. The step relation has one step for each section the code runs without
  another one in between: entering the process in the table, taking a thread id and building the thread, adding it to the
  scheduler, recording it in the table, logging; making a process a zombie and copying its list of threads, marking one
  thread, logging. \<open>A\<close> gives what each caller is in the middle of; \<open>L\<close> records history: the processes
  whose latest exit began while they were still being created.
\<close>

section \<open>Steps\<close>

datatype activity = Registered u64 | Prepared ThreadControlBlock | Spawned u64 u64 | Recorded u64 u64
  | Exiting u64 i32 "u64 list"

type_synonym activities = "nat \<Rightarrow> activity option"

text \<open>The process an unfinished creation is for, until its thread is in the table.\<close>

fun creation_pid :: "activity \<Rightarrow> u64 option" where
  "creation_pid (Registered pid) = Some pid"
| "creation_pid (Prepared tcb) = Some (t_pid tcb)"
| "creation_pid (Spawned pid tid) = Some pid"
| "creation_pid (Recorded pid tid) = None"
| "creation_pid (Exiting pid code tids) = None"

definition under_creation :: "activities \<Rightarrow> u64 \<Rightarrow> bool" where
  "under_creation A pid \<longleftrightarrow> (\<exists>i a. A i = Some a \<and> creation_pid a = Some pid)"

definition late_exits :: "activities \<Rightarrow> u64 \<Rightarrow> u64 set \<Rightarrow> u64 set" where
  "late_exits A pid L = (if under_creation A pid then insert pid L else L - {pid})"

definition under_exit :: "activities \<Rightarrow> u64 \<Rightarrow> bool" where
  "under_exit A pid \<longleftrightarrow> (\<exists>i code tids. A i = Some (Exiting pid code tids))"

inductive istep :: "kernel_state \<times> activities \<times> u64 set \<Rightarrow> kernel_state \<times> activities \<times> u64 set \<Rightarrow> bool" where
  istep_tick: "tick addr ret st = Inr st' \<Longrightarrow> istep (st, A, L) (st', A, L)"
| istep_register: "A i = None \<Longrightarrow> register_process name st = Inr (pid, st') \<Longrightarrow>
     istep (st, A, L) (st', A(i \<mapsto> Registered pid), L)"
| istep_prepare: "A i = Some (Registered pid) \<Longrightarrow> NEXT_TID st \<noteq> - 1 \<Longrightarrow>
     ThreadControlBlock_new trampoline stack pid entry_fn st = Inr (tcb, st') \<Longrightarrow>
     istep (st, A, L) (st', A(i \<mapsto> Prepared tcb), L)"
| istep_add: "A i = Some (Prepared tcb) \<Longrightarrow>
     istep (st, A, L) (st\<lparr>SCHEDULER := add_thread tcb (SCHEDULER st)\<rparr>, A(i \<mapsto> Spawned (t_pid tcb) (t_tid tcb)), L)"
| istep_record: "A i = Some (Spawned pid tid) \<Longrightarrow>
     istep (st, A, L) (record_thread pid tid st, A(i \<mapsto> Recorded pid tid), L)"
| istep_created: "A i = Some (Recorded pid tid) \<Longrightarrow>
     istep (st, A, L) (klog (info ''Process {} ({}) created with main thread {}''
       [ArgU64 pid, ArgStr name, ArgU64 tid]) st, A(i := None), L)"
| istep_exit: "A i = None \<Longrightarrow> begin_exit pid code st = Some (tids, st') \<Longrightarrow>
     istep (st, A, L) (st', A(i \<mapsto> Exiting pid code tids), late_exits A pid L)"
| istep_mark: "A i = Some (Exiting pid code (tid # tids)) \<Longrightarrow>
     istep (st, A, L) (mark_thread_exited tid st, A(i \<mapsto> Exiting pid code tids), L)"
| istep_exited: "A i = Some (Exiting pid code []) \<Longrightarrow> istep (st, A, L) (end_exit pid code st, A(i := None), L)"

inductive ireachable :: "kernel_state \<times> activities \<times> u64 set \<Rightarrow> bool" where
  iboot: "scheduler_init trampoline stack_a stack_b demo_a demo_b (boot_state m cr3) = Inr st \<Longrightarrow> ireachable (st, Map.empty, {})"
| iextend: "ireachable s \<Longrightarrow> istep s s' \<Longrightarrow> ireachable s'"

inductive_cases istepE: "istep (st, A, L) (st', A', L')"

section \<open>The atomic steps are sequences of these\<close>

text \<open>One caller, \<open>0\<close>, performs the sections one after the other.\<close>

lemma create_process_isteps:
  assumes "create_process trampoline stack name entry_fn st = Inr (pid, st')" "NEXT_TID st \<noteq> - 1"
  shows "istep\<^sup>*\<^sup>* (st, Map.empty, {}) (st', Map.empty, {})"
proof -
  from assms(1) obtain st1 tcb st2
    where reg: "register_process name st = Inr (pid, st1)"
      and new: "ThreadControlBlock_new trampoline stack pid entry_fn st1 = Inr (tcb, st2)"
      and st': "st' = klog (info ''Process {} ({}) created with main thread {}'' [ArgU64 pid, ArgStr name, ArgU64 (t_tid tcb)])
                       (record_thread pid (t_tid tcb) (st2\<lparr>SCHEDULER := add_thread tcb (SCHEDULER st2)\<rparr>))"
    by (auto simp: create_process_def spawn_thread_def outcome_simps)
  let ?st3 = "st2\<lparr>SCHEDULER := add_thread tcb (SCHEDULER st2)\<rparr>" and ?A = "\<lambda>a. [0 \<mapsto> a] :: activities"
  have tcb: "t_pid tcb = pid" using ThreadControlBlock_new_fields [OF new] by simp
  have "NEXT_TID st1 \<noteq> - 1" using reg assms(2) by (auto simp: register_process_def outcome_simps)
  then have "istep (st1, ?A (Registered pid), {}) (st2, ?A (Prepared tcb), {})"
    using istep_prepare [of "?A (Registered pid)" 0, OF _ _ new] by simp
  moreover have "istep (st, Map.empty, {}) (st1, ?A (Registered pid), {})" using istep_register [OF _ reg, of Map.empty 0] by simp
  moreover have "istep (st2, ?A (Prepared tcb), {}) (?st3, ?A (Spawned pid (t_tid tcb)), {})"
    using istep_add [of "?A (Prepared tcb)" 0 tcb st2] tcb by simp
  moreover have "istep (?st3, ?A (Spawned pid (t_tid tcb)), {})
      (record_thread pid (t_tid tcb) ?st3, ?A (Recorded pid (t_tid tcb)), {})"
    using istep_record [of "?A (Spawned pid (t_tid tcb))" 0 pid "t_tid tcb" ?st3] by simp
  moreover have "istep (record_thread pid (t_tid tcb) ?st3, ?A (Recorded pid (t_tid tcb)), {}) (st', Map.empty, {})"
    using istep_created [of "?A (Recorded pid (t_tid tcb))" 0 pid "t_tid tcb" "record_thread pid (t_tid tcb) ?st3" "{}" name]
    by (simp add: st')
  ultimately show ?thesis by (meson converse_rtranclp_into_rtranclp rtranclp.rtrancl_refl)
qed

lemma marks_isteps:
  "istep\<^sup>*\<^sup>* (st, [0 \<mapsto> Exiting pid code tids], L) (fold mark_thread_exited tids st, [0 \<mapsto> Exiting pid code []], L)"
proof (induction tids arbitrary: st)
  case (Cons tid tids)
  have "istep (st, [0 \<mapsto> Exiting pid code (tid # tids)], L) (mark_thread_exited tid st, [0 \<mapsto> Exiting pid code tids], L)"
    using istep_mark [of "[0 \<mapsto> Exiting pid code (tid # tids)]" 0 pid code tid tids st L] by simp
  with Cons.IH show ?case unfolding fold_simps by (rule converse_rtranclp_into_rtranclp [rotated])
qed simp

lemma exit_process_isteps: "istep\<^sup>*\<^sup>* (st, Map.empty, {}) (exit_process pid code st, Map.empty, {})"
proof (cases "begin_exit pid code st")
  case None
  then show ?thesis by (simp add: exit_process_def)
next
  case (Some r)
  obtain tids st1 where start: "begin_exit pid code st = Some (tids, st1)" using Some by (cases r) simp
  let ?A = "\<lambda>tids. [0 \<mapsto> Exiting pid code tids] :: activities" and ?st2 = "fold mark_thread_exited tids st1"
  have "istep (st, Map.empty, {}) (st1, ?A tids, {})"
    using istep_exit [OF _ start, of Map.empty 0 "{}"] by (simp add: under_creation_def late_exits_def)
  moreover have "istep\<^sup>*\<^sup>* (st1, ?A tids, {}) (?st2, ?A [], {})" by (rule marks_isteps)
  moreover have "istep (?st2, ?A [], {}) (end_exit pid code ?st2, Map.empty, {})"
    using istep_exited [of "?A []" 0 pid code ?st2 "{}"] by simp
  ultimately have "istep\<^sup>*\<^sup>* (st, Map.empty, {}) (end_exit pid code ?st2, Map.empty, {})"
    by (meson converse_rtranclp_into_rtranclp rtranclp.rtrancl_into_rtrancl)
  then show ?thesis by (simp add: exit_process_def start)
qed

lemma kstep_isteps: "kstep st st' \<Longrightarrow> istep\<^sup>*\<^sup>* (st, Map.empty, {}) (st', Map.empty, {})"
  by (auto elim!: kstepE intro: create_process_isteps exit_process_isteps r_into_rtranclp istep_tick)

lemma ireachable_isteps: "istep\<^sup>*\<^sup>* s s' \<Longrightarrow> ireachable s \<Longrightarrow> ireachable s'"
  by (induction rule: rtranclp_induct) (auto intro: iextend)

lemma reachable_ireachable: "reachable st \<Longrightarrow> ireachable (st, Map.empty, {})"
  by (induction rule: reachable.induct) (auto intro: iboot ireachable_isteps kstep_isteps)

section \<open>The invariant between the sections\<close>

definition listed :: "kernel_state \<Rightarrow> u64 \<Rightarrow> u64 \<Rightarrow> bool" where
  "listed st pid tid \<longleftrightarrow> (\<exists>pcb. get_process (PROCESS_TABLE st) pid = Some pcb \<and> tid \<in> set (p_threads pcb))"

definition spawned :: "activities \<Rightarrow> u64 \<Rightarrow> u64 \<Rightarrow> bool" where
  "spawned A pid tid \<longleftrightarrow> (\<exists>i. A i = Some (Spawned pid tid))"

definition owned_or_spawned :: "kernel_state \<Rightarrow> activities \<Rightarrow> bool" where
  "owned_or_spawned st A \<longleftrightarrow> (\<forall>tid pid. (tid, pid) \<in> set (idents st) \<longleftrightarrow>
     listed st pid tid \<or> spawned A pid tid)"

text \<open>A thread that is built and not yet added has an identifier nobody else has.\<close>

definition prepared_ok :: "kernel_state \<Rightarrow> activities \<Rightarrow> bool" where
  "prepared_ok st A \<longleftrightarrow> (\<forall>i tcb. A i = Some (Prepared tcb) \<longrightarrow>
     t_state tcb = Ready \<and> t_tid tcb < NEXT_TID st \<and> t_tid tcb \<notin> fst ` set (idents st) \<and>
     (\<forall>j tcb'. A j = Some (Prepared tcb') \<and> t_tid tcb' = t_tid tcb \<longrightarrow> j = i))"

definition pcb_running :: "ProcessControlBlock \<Rightarrow> bool" where
  "pcb_running pcb \<longleftrightarrow> p_state pcb = P_Running \<and> p_exit_code pcb = None"

definition creators_ok :: "kernel_state \<Rightarrow> activities \<Rightarrow> u64 set \<Rightarrow> bool" where
  "creators_ok st A L \<longleftrightarrow> (\<forall>pid. under_creation A pid \<longrightarrow>
     (\<exists>pcb. get_process (PROCESS_TABLE st) pid = Some pcb \<and> (pcb_running pcb \<or> pid \<in> L)))"

definition exit_pending :: "activities \<Rightarrow> u64 \<Rightarrow> u64 \<Rightarrow> bool" where
  "exit_pending A pid tid \<longleftrightarrow> (\<exists>i code tids. A i = Some (Exiting pid code tids) \<and> tid \<in> set tids)"

definition process_ok :: "kernel_state \<Rightarrow> activities \<Rightarrow> u64 set \<Rightarrow> u64 \<Rightarrow> ProcessControlBlock \<Rightarrow> bool" where
  "process_ok st A L pid pcb \<longleftrightarrow> p_parent pcb = (if pid = 0 then None else Some 0) \<and>
     (pcb_running pcb \<or> p_state pcb = P_Zombie \<and> p_exit_code pcb \<noteq> None \<and>
        (pid \<in> L \<or> (\<forall>tid \<in> set (p_threads pcb). thread_state st tid = Some Exited \<or> exit_pending A pid tid)))"

definition processes_ok :: "kernel_state \<Rightarrow> activities \<Rightarrow> u64 set \<Rightarrow> bool" where
  "processes_ok st A L \<longleftrightarrow> (\<forall>pid pcb. get_process (PROCESS_TABLE st) pid = Some pcb \<longrightarrow> process_ok st A L pid pcb)"

definition busy_inv :: "kernel_state \<Rightarrow> activities \<Rightarrow> u64 set \<Rightarrow> bool" where
  "busy_inv st A L \<longleftrightarrow> sched_wf (SCHEDULER st) \<and> threads (SCHEDULER st) \<noteq> [] \<and> tids_wf st \<and>
     table_wf (PROCESS_TABLE st) \<and> owned_or_spawned st A \<and> prepared_ok st A \<and> creators_ok st A L \<and> processes_ok st A L"

lemma process_ok_settled: "process_ok st A L pid pcb \<Longrightarrow> pid \<notin> L \<Longrightarrow> \<not> under_exit A pid \<Longrightarrow> pcb_ok st pid pcb"
  by (auto simp: process_ok_def pcb_ok_def pcb_running_def under_exit_def exit_pending_def)

lemma busy_none: "busy_inv st Map.empty {} \<longleftrightarrow> kernel_inv st"
  by (auto simp: busy_inv_def kernel_inv_def owned_or_spawned_def ownership_def listed_def spawned_def prepared_ok_def creators_ok_def
      under_creation_def processes_ok_def process_ok_def exit_pending_def lifecycle_def pcb_ok_def pcb_running_def)

lemma process_ok_mono:
  assumes "process_ok st A L pid pcb"
    and "\<And>tid. thread_state st tid = Some Exited \<Longrightarrow> thread_state st' tid = Some Exited"
    and "\<And>tid. tid \<in> set (p_threads pcb) \<Longrightarrow> exit_pending A pid tid \<Longrightarrow> thread_state st' tid = Some Exited \<or> exit_pending A' pid tid"
    and "pid \<in> L \<Longrightarrow> pid \<in> L'"
  shows "process_ok st' A' L' pid pcb"
  using assms unfolding process_ok_def by blast

lemma processes_ok_mono:
  assumes "processes_ok st A L" "PROCESS_TABLE st' = PROCESS_TABLE st"
    and "\<And>tid. thread_state st tid = Some Exited \<Longrightarrow> thread_state st' tid = Some Exited"
    and "\<And>pid tid. listed st pid tid \<Longrightarrow> exit_pending A pid tid \<Longrightarrow> thread_state st' tid = Some Exited \<or> exit_pending A' pid tid"
  shows "processes_ok st' A' L"
  unfolding processes_ok_def assms(2)
proof (intro allI impI)
  fix pid pcb assume get: "get_process (PROCESS_TABLE st) pid = Some pcb"
  then have "process_ok st A L pid pcb" using assms(1) by (simp add: processes_ok_def)
  then show "process_ok st' A' L pid pcb" by (rule process_ok_mono) (use assms(3,4) get in \<open>auto simp: listed_def\<close>)
qed

lemma exit_pending_at:
  "exit_pending A pid tid \<longleftrightarrow> (\<exists>code tids. A i = Some (Exiting pid code tids) \<and> tid \<in> set tids) \<or>
     (\<exists>j. j \<noteq> i \<and> (\<exists>code tids. A j = Some (Exiting pid code tids) \<and> tid \<in> set tids))"
  unfolding exit_pending_def by metis

text \<open>A change of one caller's activity that is not part of an exit leaves the pending exits.\<close>

lemma exit_pending_upd:
  "(\<And>pid code tids. A i \<noteq> Some (Exiting pid code tids)) \<Longrightarrow> exit_pending A p t \<Longrightarrow> exit_pending (A(i := a)) p t"
  using exit_pending_at [of A p t i] exit_pending_at [of "A(i := a)" p t i] by auto

lemma spawned_at: "spawned A pid tid \<longleftrightarrow> A i = Some (Spawned pid tid) \<or> (\<exists>j. j \<noteq> i \<and> A j = Some (Spawned pid tid))"
  unfolding spawned_def by metis

lemma spawned_upd:
  "(\<And>p t. A i \<noteq> Some (Spawned p t)) \<Longrightarrow> spawned (A(i := a)) pid tid \<longleftrightarrow> spawned A pid tid \<or> a = Some (Spawned pid tid)"
  using spawned_at [of A pid tid i] spawned_at [of "A(i := a)" pid tid i] by auto

lemma under_creation_upd:
  "under_creation (A(i := a)) pid \<Longrightarrow> under_creation A pid \<or> (\<exists>x. a = Some x \<and> creation_pid x = Some pid)"
  by (auto simp: under_creation_def split: if_splits)

lemma under_creationI: "A i = Some a \<Longrightarrow> creation_pid a = Some pid \<Longrightarrow> under_creation A pid"
  by (auto simp: under_creation_def)

lemmas scheduler_view = idents_def thread_state_def tids_wf_def

section \<open>Preservation\<close>

lemma busy_tick:
  assumes "busy_inv st A L" "tick addr ret st = Inr st'"
  shows "busy_inv st' A L"
proof -
  have wf: "sched_wf (SCHEDULER st)" using assms(1) by (simp add: busy_inv_def)
  note frame = tick_frame [OF wf assms(2)]
  have table: "PROCESS_TABLE st' = PROCESS_TABLE st" using frame(4) by (rule more_PROCESS_TABLE)
  have "threads (SCHEDULER st') \<noteq> []" using frame(2) assms(1) by (auto simp: busy_inv_def idents_def)
  moreover have "processes_ok st' A L"
    using assms(1) frame(5) table by (auto simp: busy_inv_def elim!: processes_ok_mono)
  ultimately show ?thesis
    using assms(1) frame(1-3)
    by (simp add: busy_inv_def owned_or_spawned_def listed_def prepared_ok_def creators_ok_def table tids_wf_idents)
qed

lemma busy_register:
  assumes "busy_inv st A L" "A i = None" "register_process name st = Inr (pid, st')"
  shows "busy_inv st' (A(i \<mapsto> Registered pid)) L"
proof -
  have "table_wf (PROCESS_TABLE st)" using assms(1) by (simp add: busy_inv_def)
  note reg = register_process_laws [OF assms(3) this]
  have st': "SCHEDULER st' = SCHEDULER st" "NEXT_TID st' = NEXT_TID st" by (subst reg(6); simp)+
  then have view: "idents st' = idents st" "thread_state st' = thread_state st" "tids_wf st' = tids_wf st"
    by (simp_all add: scheduler_view fun_eq_iff)
  have "process_ok st' (A(i \<mapsto> Registered pid)) L p q" if "get_process (PROCESS_TABLE st') p = Some q" for p q
  proof (cases "p = pid")
    case True
    then show ?thesis using that by (auto simp: reg(3) process_ok_def pcb_running_def new_pcb_def)
  next
    case False
    then have "process_ok st A L p q" using that assms(1) by (simp add: reg(3) busy_inv_def processes_ok_def)
    then show ?thesis by (rule process_ok_mono) (use assms(2) in \<open>auto simp: view(2) intro: exit_pending_upd\<close>)
  qed
  then have "processes_ok st' (A(i \<mapsto> Registered pid)) L" by (simp add: processes_ok_def)
  moreover have "owned_or_spawned st' (A(i \<mapsto> Registered pid))"
    using assms(1,2) reg(2) unfolding busy_inv_def owned_or_spawned_def view(1)
    by (auto simp: listed_def spawned_upd reg(3) new_pcb_def)
  moreover have "creators_ok st' (A(i \<mapsto> Registered pid)) L"
    using assms(1) reg(2)
    by (auto simp: busy_inv_def creators_ok_def reg(3) new_pcb_def pcb_running_def dest!: under_creation_upd)
  moreover have "prepared_ok st' (A(i \<mapsto> Registered pid))"
    using assms(1) st' view by (auto simp: busy_inv_def prepared_ok_def)
  ultimately show ?thesis using assms(1) st' view reg(4) by (simp add: busy_inv_def)
qed

lemma busy_prepare:
  assumes "busy_inv st A L" "A i = Some (Registered pid)" "NEXT_TID st \<noteq> - 1"
    and "ThreadControlBlock_new trampoline stack pid entry_fn st = Inr (tcb, st')"
  shows "busy_inv st' (A(i \<mapsto> Prepared tcb)) L"
proof -
  note tcb = ThreadControlBlock_new_fields [OF assms(4)]
  have table: "PROCESS_TABLE st' = PROCESS_TABLE st" using tcb(6) by (rule more_PROCESS_TABLE)
  have view: "idents st' = idents st" "thread_state st' = thread_state st" by (simp_all add: scheduler_view tcb(5) fun_eq_iff)
  have ids: "\<forall>t \<in> fst ` set (idents st). t < NEXT_TID st" "distinct (map fst (idents st))"
    using assms(1) by (simp_all add: busy_inv_def tids_wf_idents)
  have "processes_ok st' (A(i \<mapsto> Prepared tcb)) L"
    using assms(1,2) table by (auto simp: busy_inv_def view(2) elim!: processes_ok_mono intro: exit_pending_upd)
  moreover have "tids_wf st'"
    using ids less_succ_u64 [OF _ assms(3)] by (auto simp: tids_wf_idents view(1) tcb(4))
  moreover have "t_tid t \<noteq> NEXT_TID st" "NEXT_TID st \<noteq> t_tid t" if "A j = Some (Prepared t)" for j t
    using that assms(1) unfolding busy_inv_def prepared_ok_def by (metis less_irrefl)+
  then have "prepared_ok st' (A(i \<mapsto> Prepared tcb))"
    using assms(1) ids(1) less_succ_u64 [OF _ assms(3)] less_succ_self_u64 [OF assms(3)]
    unfolding busy_inv_def prepared_ok_def view(1) tcb(4) by (auto simp: tcb(1,3))
  moreover have "owned_or_spawned st' (A(i \<mapsto> Prepared tcb))"
    using assms(1,2) unfolding busy_inv_def owned_or_spawned_def view(1) by (simp add: listed_def spawned_upd table)
  moreover have "creators_ok st' (A(i \<mapsto> Prepared tcb)) L"
    using assms(1,2) under_creationI [of A i, OF assms(2)]
    by (auto simp: busy_inv_def creators_ok_def table tcb(2) dest!: under_creation_upd)
  ultimately show ?thesis using assms(1) by (simp add: busy_inv_def table tcb(5))
qed

lemma busy_add:
  assumes "busy_inv st A L" "A i = Some (Prepared tcb)"
  shows "busy_inv (st\<lparr>SCHEDULER := add_thread tcb (SCHEDULER st)\<rparr>) (A(i \<mapsto> Spawned (t_pid tcb) (t_tid tcb))) L"
    (is "busy_inv ?st ?A L")
proof -
  have ids: "idents ?st = idents st @ [(t_tid tcb, t_pid tcb)]" by (simp add: idents_def add_thread_def)
  have fresh: "t_tid tcb \<notin> fst ` set (idents st)" "t_tid tcb < NEXT_TID st" "t_state tcb = Ready"
      "\<And>j tcb'. A j = Some (Prepared tcb') \<Longrightarrow> t_tid tcb' = t_tid tcb \<Longrightarrow> j = i"
    using assms by (auto simp: busy_inv_def prepared_ok_def)
  have "thread_state ?st t = Some Exited" if "thread_state st t = Some Exited" for t
    using that by (auto simp: thread_state_def add_thread_def find_append)
  then have "processes_ok ?st ?A L"
    using assms by (auto simp: busy_inv_def elim!: processes_ok_mono intro: exit_pending_upd)
  moreover have "tids_wf ?st" using assms(1) fresh(1,2) by (auto simp: busy_inv_def tids_wf_idents ids)
  moreover have "prepared_ok ?st ?A"
    using assms(1) fresh(4) unfolding busy_inv_def prepared_ok_def ids by auto
  moreover have "owned_or_spawned ?st ?A"
    using assms unfolding busy_inv_def owned_or_spawned_def ids by (auto simp: listed_def spawned_upd)
  moreover have "creators_ok ?st ?A L"
    using assms(1) under_creationI [of A i, OF assms(2)] by (auto simp: busy_inv_def creators_ok_def dest!: under_creation_upd)
  moreover have "sched_wf (add_thread tcb (SCHEDULER st))"
    using assms(1) fresh(3) by (auto simp: busy_inv_def intro!: sched_wf_add_thread)
  ultimately show ?thesis using assms(1) by (simp add: busy_inv_def) (simp add: add_thread_def)
qed

lemma busy_record:
  assumes "busy_inv st A L" "A i = Some (Spawned pid tid)"
  shows "busy_inv (record_thread pid tid st) (A(i \<mapsto> Recorded pid tid)) L" (is "busy_inv ?st ?A L")
proof -
  have "under_creation A pid" using assms(2) by (rule under_creationI) simp
  then obtain pcb where pcb: "get_process (PROCESS_TABLE st) pid = Some pcb" "pcb_running pcb \<or> pid \<in> L"
    using assms(1) by (auto simp: busy_inv_def creators_ok_def)
  have st': "SCHEDULER ?st = SCHEDULER st" "NEXT_TID ?st = NEXT_TID st" by (simp_all add: record_thread_def)
  then have view: "idents ?st = idents st" "thread_state ?st = thread_state st" "tids_wf ?st = tids_wf st"
    by (simp_all add: scheduler_view fun_eq_iff)
  have table: "get_process (PROCESS_TABLE ?st) = (get_process (PROCESS_TABLE st))(pid \<mapsto> pcb\<lparr>p_threads := p_threads pcb @ [tid]\<rparr>)"
      "table_wf (PROCESS_TABLE st) \<Longrightarrow> table_wf (PROCESS_TABLE ?st)"
    using pcb(1) by (auto simp: record_thread_def get_modify_process fun_eq_iff modify_process_wf)
  have old: "process_ok st ?A L p q" if "get_process (PROCESS_TABLE st) p = Some q" for p q
  proof -
    have "process_ok st A L p q" using that assms(1) by (simp add: busy_inv_def processes_ok_def)
    then show ?thesis by (rule process_ok_mono) (use assms(2) in \<open>auto intro: exit_pending_upd\<close>)
  qed
  have "processes_ok ?st ?A L"
    using old pcb unfolding processes_ok_def table(1) by (auto simp: process_ok_def pcb_running_def view(2))
  moreover have "owned_or_spawned ?st ?A"
  proof -
    have "listed ?st p t \<or> spawned ?A p t \<longleftrightarrow> listed st p t \<or> spawned A p t" for p t
    proof -
      have "spawned A p t \<longleftrightarrow> spawned ?A p t \<or> (p, t) = (pid, tid)"
        using assms(2) spawned_at [of A p t i] spawned_at [of ?A p t i] by auto
      then show ?thesis using pcb(1) by (auto simp: listed_def table(1))
    qed
    then show ?thesis using assms(1) by (simp add: busy_inv_def owned_or_spawned_def view(1))
  qed
  moreover have "creators_ok ?st ?A L"
    using assms(1) pcb by (auto simp: busy_inv_def creators_ok_def table(1) pcb_running_def dest!: under_creation_upd)
  moreover have "prepared_ok ?st ?A" using assms(1) st' view by (auto simp: busy_inv_def prepared_ok_def)
  ultimately show ?thesis using assms(1) st' view table(2) by (simp add: busy_inv_def)
qed

text \<open>Writing a log record and forgetting a finished operation.\<close>

lemma busy_finish:
  assumes "busy_inv st A L" "A i = Some (Recorded pid tid) \<or> A i = Some (Exiting pid code [])"
  shows "busy_inv (klog r st) (A(i := None)) L"
proof -
  have st': "SCHEDULER (klog r st) = SCHEDULER st" "NEXT_TID (klog r st) = NEXT_TID st" "PROCESS_TABLE (klog r st) = PROCESS_TABLE st"
    by (simp_all add: klog_def)
  then have view: "idents (klog r st) = idents st" "thread_state (klog r st) = thread_state st" "tids_wf (klog r st) = tids_wf st"
    by (simp_all add: scheduler_view fun_eq_iff)
  have "exit_pending (A(i := None)) p t" if "exit_pending A p t" for p t
    using that assms(2) exit_pending_at [of A p t i] exit_pending_at [of "A(i := None)" p t i] by auto
  then have "processes_ok (klog r st) (A(i := None)) L"
    using assms(1) st'(3) by (auto simp: busy_inv_def view(2) elim!: processes_ok_mono)
  moreover have "owned_or_spawned (klog r st) (A(i := None))"
  proof -
    have "spawned (A(i := None)) p t = spawned A p t" for p t using assms(2) by (subst spawned_upd) auto
    then show ?thesis using assms(1) by (simp add: busy_inv_def owned_or_spawned_def listed_def view(1) st'(3))
  qed
  moreover have "creators_ok (klog r st) (A(i := None)) L"
    using assms(1) by (auto simp: busy_inv_def creators_ok_def st'(3) dest!: under_creation_upd)
  moreover have "prepared_ok (klog r st) (A(i := None))" using assms(1) st' view by (auto simp: busy_inv_def prepared_ok_def)
  ultimately show ?thesis using assms(1) st' view by (simp add: busy_inv_def)
qed

lemma busy_begin_exit:
  assumes "busy_inv st A L" "A i = None" "begin_exit pid code st = Some (tids, st')"
  shows "busy_inv st' (A(i \<mapsto> Exiting pid code tids)) (late_exits A pid L)"
    (is "busy_inv st' ?A ?L")
proof -
  obtain pcb where pcb: "get_process (PROCESS_TABLE st) pid = Some pcb" "tids = p_threads pcb"
      and st': "st' = st\<lparr>PROCESS_TABLE := modify_process pid (\<lambda>pcb. pcb\<lparr>p_state := P_Zombie, p_exit_code := Some code\<rparr>) (PROCESS_TABLE st)\<rparr>"
    using assms(3) by (auto simp: begin_exit_def split: option.splits)
  have view: "idents st' = idents st" "thread_state st' = thread_state st" "tids_wf st' = tids_wf st"
    by (simp_all add: st' scheduler_view fun_eq_iff)
  have table: "get_process (PROCESS_TABLE st') =
        (get_process (PROCESS_TABLE st))(pid \<mapsto> pcb\<lparr>p_state := P_Zombie, p_exit_code := Some code\<rparr>)"
      "table_wf (PROCESS_TABLE st) \<Longrightarrow> table_wf (PROCESS_TABLE st')"
    using pcb(1) by (auto simp: st' get_modify_process fun_eq_iff modify_process_wf)
  have pending: "exit_pending ?A p t" if "exit_pending A p t" for p t
    using that assms(2) by (auto intro: exit_pending_upd)
  have "process_ok st' ?A ?L p q" if "get_process (PROCESS_TABLE st') p = Some q" for p q
  proof (cases "p = pid")
    case True
    have "process_ok st A L pid pcb" using pcb(1) assms(1) by (simp add: busy_inv_def processes_ok_def)
    moreover have "exit_pending ?A pid t" if "t \<in> set (p_threads pcb)" for t
      using that unfolding exit_pending_def pcb(2) by (intro exI [of _ i]) auto
    ultimately show ?thesis using that True by (auto simp: table(1) process_ok_def late_exits_def)
  next
    case False
    then have "process_ok st A L p q" using that assms(1) by (simp add: table(1) busy_inv_def processes_ok_def)
    then show ?thesis by (rule process_ok_mono) (use False pending in \<open>auto simp: view(2) late_exits_def\<close>)
  qed
  then have "processes_ok st' ?A ?L" by (simp add: processes_ok_def)
  moreover have "owned_or_spawned st' ?A"
    using assms(1,2) pcb(1) unfolding busy_inv_def owned_or_spawned_def view(1) by (auto simp: listed_def spawned_upd table(1))
  moreover have "creators_ok st' ?A ?L"
    using assms(1) by (auto simp: busy_inv_def creators_ok_def table(1) late_exits_def dest!: under_creation_upd)
  moreover have "prepared_ok st' ?A" using assms(1) view st' by (auto simp: busy_inv_def prepared_ok_def)
  ultimately show ?thesis using assms(1) view table(2) by (simp add: busy_inv_def) (simp add: st')
qed

lemma busy_mark:
  assumes "busy_inv st A L" "A i = Some (Exiting pid code (tid # tids))"
  shows "busy_inv (mark_thread_exited tid st) (A(i \<mapsto> Exiting pid code tids)) L" (is "busy_inv ?st ?A L")
proof -
  have wf: "tids_wf st" "sched_wf (SCHEDULER st)" "threads (SCHEDULER st) \<noteq> []" using assms(1) by (simp_all add: busy_inv_def)
  note state = mark_thread_exited_state [OF wf(1), of tid]
  have pending: "exit_pending A p t \<Longrightarrow> exit_pending ?A p t \<or> t = tid" for p t
    using assms(2) exit_pending_at [of A p t i] exit_pending_at [of ?A p t i] by auto
  have "thread_state ?st t = Some Exited \<or> exit_pending ?A p t" if "listed st p t" "exit_pending A p t" for p t
  proof -
    have "(t, p) \<in> set (idents st)" using that(1) assms(1) by (simp add: busy_inv_def owned_or_spawned_def)
    then have "thread_state st t \<noteq> None" unfolding thread_state_idents by force
    then show ?thesis using pending [OF that(2)] state by auto
  qed
  note pend = this
  have "processes_ok st A L" using assms(1) by (simp add: busy_inv_def)
  then have "processes_ok ?st ?A L" by (rule processes_ok_mono) (rule mark_thread_exited_frame, simp add: state, erule (1) pend)
  moreover have "owned_or_spawned ?st ?A"
    using assms unfolding busy_inv_def owned_or_spawned_def by (simp add: listed_def spawned_upd)
  moreover have "creators_ok ?st ?A L" using assms(1) by (auto simp: busy_inv_def creators_ok_def dest!: under_creation_upd)
  moreover have "prepared_ok ?st ?A" using assms(1) by (auto simp: busy_inv_def prepared_ok_def)
  moreover have "threads (SCHEDULER ?st) \<noteq> []" using wf(3) idents_mark [of tid st] by (auto simp: idents_def)
  ultimately show ?thesis
    using assms(1) wf mark_thread_exited_tids_wf [OF wf(1)] sched_wf_mark [OF wf(2)] by (simp add: busy_inv_def)
qed

lemma istep_busy: "istep (st, A, L) (st', A', L') \<Longrightarrow> busy_inv st A L \<Longrightarrow> busy_inv st' A' L'"
  by (elim istepE)
    (auto simp: end_exit_def
      intro: busy_tick busy_register busy_prepare busy_add busy_record busy_finish busy_begin_exit busy_mark simp del: fun_upd_apply)

lemma ireachable_busy: "ireachable s \<Longrightarrow> busy_inv (fst s) (fst (snd s)) (snd (snd s))"
proof (induction rule: ireachable.induct)
  case (iboot trampoline stack_a stack_b demo_a demo_b m cr3 st)
  then show ?case using boot_inv by (simp add: busy_none)
next
  case (iextend s s')
  then show ?case using istep_busy [of "fst s" "fst (snd s)" "snd (snd s)" "fst s'" "fst (snd s')" "snd (snd s')"] by simp
qed

section \<open>Properties\<close>

text \<open>
  C3. Neither creation nor exit need be atomic: however ticks and the separately locked sections of any number of
  concurrent process creations and exits interleave, exits of processes still being created included, ticks
  return, the current thread has its identifiers, thread identifiers stay unique and every thread of the scheduler either is
  listed by its process or was added by a creation that has not recorded it yet. Every process with no exit under
  way is running without exit code, or a zombie with an exit code all of whose listed threads have exited, unless its latest exit
  began during its own creation; and when nothing is under way and no exit came that early, the full
  invariant of the kernel holds.
\<close>

theorem interleaved_creation_invariant:
  assumes "ireachable (st, A, L)"
  shows "(\<exists>st' tid pid. tick addr ret st = Inr st' \<and> current_tid st = Inr tid \<and> current_pid st = Inr pid) \<and>
     distinct (map t_tid (threads (SCHEDULER st))) \<and>
     (\<forall>t \<in> set (threads (SCHEDULER st)). (\<exists>i. A i = Some (Spawned (t_pid t) (t_tid t))) \<or>
        (\<exists>pcb. get_process (PROCESS_TABLE st) (t_pid t) = Some pcb \<and> t_tid t \<in> set (p_threads pcb))) \<and>
     (\<forall>pid pcb. get_process (PROCESS_TABLE st) pid = Some pcb \<and> pid \<notin> L \<and> \<not> under_exit A pid \<longrightarrow> pcb_ok st pid pcb) \<and>
     (A = Map.empty \<and> L = {} \<longrightarrow> kernel_inv st)"
proof -
  have inv: "busy_inv st A L" using ireachable_busy [OF assms] by simp
  then have wf: "sched_wf (SCHEDULER st)" "threads (SCHEDULER st) \<noteq> []" "processes_ok st A L"
      "distinct (map t_tid (threads (SCHEDULER st)))"
    by (simp_all add: busy_inv_def tids_wf_def)
  obtain st' where "tick addr ret st = Inr st'" using wf(1) by (rule tick_refines)
  moreover have "current (SCHEDULER st) < length (threads (SCHEDULER st))" using wf by (simp add: sched_wf_def)
  then have "\<exists>tid pid. current_tid st = Inr tid \<and> current_pid st = Inr pid"
    by (simp add: current_tid_def current_pid_def Scheduler_current_tid_def Scheduler_current_pid_def)
  moreover have "(t_tid t, t_pid t) \<in> set (idents st)" if "t \<in> set (threads (SCHEDULER st))" for t
    using that by (auto simp: idents_def)
  then have "(\<exists>i. A i = Some (Spawned (t_pid t) (t_tid t))) \<or>
      (\<exists>pcb. get_process (PROCESS_TABLE st) (t_pid t) = Some pcb \<and> t_tid t \<in> set (p_threads pcb))"
    if "t \<in> set (threads (SCHEDULER st))" for t
    using that inv unfolding busy_inv_def owned_or_spawned_def listed_def spawned_def by blast
  moreover have "A = Map.empty \<and> L = {} \<longrightarrow> kernel_inv st" using inv busy_none by blast
  ultimately show ?thesis using wf(3,4) process_ok_settled unfolding processes_ok_def by blast
qed

text \<open>A reachable state in which a process is being created and has already been made to exit.\<close>

theorem interleaved_creation_invariant_witness:
  "\<exists>st A. ireachable (st, A, {3}) \<and> A 0 = Some (Registered 3) \<and> A 1 = Some (Exiting 3 7 []) \<and>
     (\<exists>st'. tick (\<lambda>i. of_nat i) 0 st = Inr st')"
proof -
  have boot: "ireachable (booted_state, Map.empty, {})" using booted_runs by (rule iboot)
  obtain st where reg: "register_process ''p'' booted_state = Inr (3, st)"
      "get_process (PROCESS_TABLE st) 3 = Some (new_pcb 3 ''p'' (CR3 booted_state))"
    unfolding booted_state_def by (simp add: boot_defs spawn_thread_run get_process_def btree_get_def)
  then obtain st' where exit: "begin_exit 3 7 st = Some ([], st')" by (simp add: begin_exit_def new_pcb_def)
  have "ireachable (st, [0 \<mapsto> Registered 3], {})"
    by (rule iextend [OF boot]) (rule istep_register [OF _ reg(1)], simp)
  then have "ireachable (st', [0 \<mapsto> Registered 3, 1 \<mapsto> Exiting 3 7 []], late_exits [0 \<mapsto> Registered 3] 3 {})"
    by (rule iextend) (rule istep_exit [OF _ exit], simp)
  moreover have "late_exits [0 \<mapsto> Registered 3] 3 {} = {3}"
    using under_creationI [of "[0 \<mapsto> Registered 3]" 0 "Registered 3" 3] by (simp add: late_exits_def)
  ultimately have reach: "ireachable (st', [0 \<mapsto> Registered 3, 1 \<mapsto> Exiting 3 7 []], {3})" by simp
  then show ?thesis
    using interleaved_creation_invariant [OF reach, of "\<lambda>i. of_nat i" 0]
    by (intro exI [of _ st'] exI [of _ "[0 \<mapsto> Registered 3, 1 \<mapsto> Exiting 3 7 []]"]) auto
qed

text \<open>
  C16. An exit during the creation is lost: when \<open>exit_process\<close> of a process runs after \<open>create_process\<close> has
  started its thread and before the thread is recorded, the process ends as a zombie that lists a
  thread which is still ready to run.
\<close>

theorem exit_during_creation:
  assumes "reachable st" "register_process name st = Inr (pid, st1)"
    and "spawn_thread trampoline stack pid entry_fn st1 = Inr (tid, st2)" "NEXT_TID st \<noteq> - 1"
  shows "thread_state (record_thread pid tid (exit_process pid code st2)) tid = Some Ready \<and>
    (\<exists>pcb. get_process (PROCESS_TABLE (record_thread pid tid (exit_process pid code st2))) pid = Some pcb \<and>
       p_state pcb = P_Zombie \<and> p_exit_code pcb = Some code \<and> p_threads pcb = [tid])"
proof -
  have inv: "tids_wf st" "table_wf (PROCESS_TABLE st)" using reachable_inv [OF assms(1)] by (simp_all add: kernel_inv_def)
  note reg = register_process_laws [OF assms(2) inv(2)]
  have st1: "SCHEDULER st1 = SCHEDULER st" "NEXT_TID st1 = NEXT_TID st" by (subst reg(6); simp)+
  then have "tids_wf st1" "NEXT_TID st1 \<noteq> - 1" using inv(1) assms(4) by (simp_all add: tids_wf_def)
  note spawn = spawn_thread_laws [OF this assms(3)]
  have wf: "tids_wf st2" using spawn(2) .
  have st2: "thread_state st2 tid = Some Ready" "PROCESS_TABLE st2 = PROCESS_TABLE st1"
    using spawn(4) assms(3) by (simp, elim spawn_thread_Inr) (erule more_PROCESS_TABLE)
  have "get_process (PROCESS_TABLE st2) pid = Some (new_pcb pid name (CR3 st))" using reg(3) st2(2) by simp
  note exit = exit_process_laws [OF this wf, where code = code]
  have "thread_state (record_thread pid tid (exit_process pid code st2)) = thread_state (exit_process pid code st2)"
    by (simp add: record_thread_def thread_state_def fun_eq_iff)
  then show ?thesis
    using exit(1,6) st2(1) by (simp add: record_thread_def get_modify_process new_pcb_def)
qed

theorem exit_during_creation_witness:
  "\<exists>st1 st2. register_process ''p'' booted_state = Inr (3, st1) \<and> spawn_thread 0xAAAA (Some 0x300000) 3 0x333 st1 = Inr (3, st2) \<and>
     thread_state (record_thread 3 3 (exit_process 3 7 st2)) 3 = Some Ready"
proof -
  have next_id: "NEXT_TID booted_state = 3" unfolding booted_state_def by (simp add: boot_defs spawn_thread_run)
  obtain st1 where reg: "register_process ''p'' booted_state = Inr (3, st1)" "NEXT_TID st1 = 3"
    unfolding booted_state_def by (simp add: boot_defs spawn_thread_run)
  then obtain st2 where spawn: "spawn_thread 0xAAAA (Some 0x300000) 3 0x333 st1 = Inr (3, st2)"
    by (simp add: spawn_thread_run)
  show ?thesis
    using exit_during_creation [OF booted_reachable reg(1) spawn] reg(1) spawn next_id by auto
qed

end
