(* ===== verification/Demo_Tasks.thy ===== *)
theory Demo_Tasks
  imports Kernel_Theorems
begin

text \<open>
  The two demo threads of \<^verbatim>\<open>kernel/src/scheduler.rs\<close>. Their loops never end; \<open>demo_loop n\<close> are its first
  \<open>n\<close> iterations, with the messages logged so far and the counter.
\<close>

fun demo_loop :: "nat \<Rightarrow> u64 \<Rightarrow> u64 \<Rightarrow> u64 \<Rightarrow> log_record list \<Rightarrow> (log_record list \<times> u64) outcome" where
  "demo_loop 0 pid tid count logs = Inr (logs, count)"
| "demo_loop (Suc n) pid tid count logs =
     and_then (demo_task_iter pid tid count) (\<lambda>(l, count). demo_loop n pid tid count (logs @ l))"

definition demo_task_a :: "nat \<Rightarrow> 'a sched_state_scheme \<Rightarrow> (log_record list \<times> u64) outcome" where
  "demo_task_a n st = and_then (current_pid st) (\<lambda>pid. and_then (current_tid st) (\<lambda>tid. demo_loop n pid tid 0 []))"

definition demo_task_b :: "nat \<Rightarrow> 'a sched_state_scheme \<Rightarrow> (log_record list \<times> u64) outcome" where
  "demo_task_b n st = and_then (current_pid st) (\<lambda>pid. and_then (current_tid st) (\<lambda>tid. demo_loop n pid tid 0 []))"

definition demo_message :: "u64 \<Rightarrow> u64 \<Rightarrow> nat \<Rightarrow> log_record" where
  "demo_message pid tid k = info ''Process {} / Thread {}: tick {}'' [ArgU64 pid, ArgU64 tid, ArgU64 (of_nat k)]"

text \<open>How many multiples of ten million lie below \<open>n\<close>.\<close>

definition demo_count :: "nat \<Rightarrow> nat" where
  "demo_count n = (n + 9999999) div 10000000"

lemma ceiling_div:
  fixes c k :: nat
  assumes "0 < k"
  shows "(c + (k - 1)) div k = (if c mod k = 0 then c div k else Suc (c div k))"
proof (cases c)
  case (Suc d)
  then have "c + (k - 1) = d + k" using assms by simp
  then have "(c + (k - 1)) div k = Suc (d div k)" using assms div_add_self2 [of k d] by simp
  then show ?thesis unfolding Suc div_Suc by simp
qed (use assms in simp)

lemma demo_count_ceiling: "demo_count c = (if c mod 10000000 = 0 then c div 10000000 else Suc (c div 10000000))"
  using ceiling_div [of 10000000 c] by (simp add: demo_count_def)

lemma demo_count_Suc: "demo_count (Suc c) = (if c mod 10000000 = 0 then Suc (c div 10000000) else demo_count c)"
  unfolding demo_count_ceiling by (simp add: div_Suc)

lemma demo_task_iter_run:
  assumes "Suc c < 2 ^ 64"
  shows "demo_task_iter pid tid (of_nat c) =
     Inr (map (demo_message pid tid) [demo_count c..<demo_count (Suc c)], of_nat (Suc c))"
proof -
  have c: "unat (of_nat c :: u64) = c" using assms by (simp add: unat_of_nat)
  have "(of_nat c :: u64) mod 10000000 = 0 \<longleftrightarrow> c mod 10000000 = 0"
    by (simp add: word_unat_eq_iff unat_mod_distrib c)
  moreover have "(of_nat c :: u64) div 10000000 = of_nat (c div 10000000)"
  proof -
    have "c div 10000000 < 2 ^ 64" using assms div_le_dividend [of c 10000000] by linarith
    then show ?thesis using assms by (simp add: word_unat_eq_iff unat_div_distrib unat_of_nat)
  qed
  moreover have "add_checked (of_nat c) (1 :: u64) = Inr (of_nat (Suc c))"
    using assms by (simp add: add_checked_def c)
  ultimately have iter: "demo_task_iter pid tid (of_nat c) =
      Inr (if c mod 10000000 = 0 then [demo_message pid tid (c div 10000000)] else [], of_nat (Suc c))"
    unfolding demo_task_iter_def demo_message_def by (simp only: and_then_Inr)
  have "demo_count c = c div 10000000 \<and> demo_count (Suc c) = Suc (c div 10000000)" if "c mod 10000000 = 0"
    unfolding demo_count_Suc if_P [OF that] by (simp only: demo_count_ceiling that if_True simp_thms)
  moreover have "demo_count (Suc c) = demo_count c" if "c mod 10000000 \<noteq> 0"
    unfolding demo_count_Suc if_not_P [OF that] ..
  ultimately show ?thesis unfolding iter by (cases "c mod 10000000 = 0") simp_all
qed

lemma demo_loop_run:
  "c + n < 2 ^ 64 \<Longrightarrow> demo_loop n pid tid (of_nat c) logs =
     Inr (logs @ map (demo_message pid tid) [demo_count c..<demo_count (c + n)], of_nat (c + n))"
proof (induction n arbitrary: c logs)
  case (Suc n)
  have "demo_count c \<le> demo_count (Suc c)" "demo_count (Suc c) \<le> demo_count (Suc c + n)"
    unfolding demo_count_def by (simp_all add: div_le_mono)
  then have "[demo_count c..<demo_count (Suc c + n)] = [demo_count c..<demo_count (Suc c)] @ [demo_count (Suc c)..<demo_count (Suc c + n)]"
    by (metis le_add_diff_inverse upt_add_eq_append)
  then show ?case
    using Suc.prems Suc.IH [of "Suc c"] by (simp add: demo_task_iter_run del: of_nat_Suc)
qed simp

lemma demo_loop_add:
  "demo_loop (n + k) pid tid c logs = and_then (demo_loop n pid tid c logs) (\<lambda>(logs, c). demo_loop k pid tid c logs)"
  by (induction n arbitrary: c logs) (auto simp: and_then_def split: sum.splits)

text \<open>
  The demo threads: started on a scheduler in its invariant, a demo thread asks for its identifiers and
  then, for as long as its 64-bit counter lasts, has logged exactly one message for every ten million
  iterations begun, numbered from zero; the iteration that would overflow the counter panics.
\<close>

theorem demo_task_messages:
  assumes "kernel_inv st" "n < 2 ^ 64"
  shows "\<exists>pid tid. current_pid st = Inr pid \<and> current_tid st = Inr tid \<and>
     demo_task_a n st = Inr (map (demo_message pid tid) [0..<demo_count n], of_nat n) \<and>
     demo_task_b n st = demo_task_a n st \<and> demo_task_a (2 ^ 64) st = Inl ArithmeticOverflow"
proof -
  obtain tid pid where ids: "current_tid st = Inr tid" "current_pid st = Inr pid"
    using assms(1) by (rule current_in_threads)
  have run: "demo_loop k pid tid 0 [] = Inr (map (demo_message pid tid) [0..<demo_count k], of_nat k)" if "k < 2 ^ 64" for k
    using demo_loop_run [of 0 k pid tid "[]"] that by (simp add: demo_count_def)
  have "demo_task_iter pid tid (- 1) = Inl ArithmeticOverflow" 
    using succ_u64_iff [of "- 1"] by (simp add: demo_task_iter_def add_checked_def)
  moreover have "demo_loop (2 ^ 64 - 1) pid tid 0 [] = Inr (map (demo_message pid tid) [0..<demo_count (2 ^ 64 - 1)], - 1)"
    by (subst run) simp_all
  ultimately have "demo_loop (2 ^ 64 - 1 + 1) pid tid 0 [] = Inl ArithmeticOverflow"
    unfolding demo_loop_add by simp
  then have "demo_loop (2 ^ 64) pid tid 0 [] = Inl ArithmeticOverflow" by simp
  then show ?thesis
    using ids run [OF assms(2)] by (simp add: demo_task_a_def demo_task_b_def)
qed

theorem demo_task_messages_witness:
  "\<exists>pid tid. demo_task_a 10000001 booted_state = Inr ([demo_message pid tid 0, demo_message pid tid 1], 10000001)"
  using demo_task_messages [OF reachable_inv [OF booted_reachable], of 10000001]
  by (auto simp: demo_count_def upt_rec)

end
