(* ===== verification/Paging_Crate.thy ===== *)
theory Paging_Crate
  imports Prelude
begin

text \<open>
  What the kernel uses of the \<^verbatim>\<open>x86_64\<close> crate's address and page-table types, which are not part
  of the repository: a record of the functions, passed to every definition that calls them,
  and \<open>paging_docs\<close>, the documented behaviour the properties rely on. Addresses are
  their 64-bit values, frames and pages their start addresses. \<open>std_paging\<close> is one
  implementation of the documentation, used by the witnesses.
\<close>

datatype frame_result = FrameOk u64 | FrameNotPresent | HugeFrame

record paging_crate =
  PhysAddr_new :: "u64 \<Rightarrow> u64 outcome"
  VirtAddr_new :: "u64 \<Rightarrow> u64 outcome"
  virt_add :: "u64 \<Rightarrow> u64 \<Rightarrow> u64 outcome"
  phys_add :: "u64 \<Rightarrow> u64 \<Rightarrow> u64 outcome"
  virt_sub :: "u64 \<Rightarrow> u64 \<Rightarrow> u64 outcome"
  virt_sub_u64 :: "u64 \<Rightarrow> u64 \<Rightarrow> u64 outcome"
  frame_containing :: "u64 \<Rightarrow> u64"
  page_containing :: "u64 \<Rightarrow> u64"
  page_range_inclusive :: "u64 \<Rightarrow> u64 \<Rightarrow> u64 list"
  table_index :: "nat \<Rightarrow> u64 \<Rightarrow> nat"
  page_offset :: "u64 \<Rightarrow> u64"
  entry_frame :: "u64 \<Rightarrow> frame_result"
  entry_is_unused :: "u64 \<Rightarrow> bool"

definition canonical :: "u64 \<Rightarrow> bool" where
  "canonical a \<longleftrightarrow> drop_bit 47 a = 0 \<or> drop_bit 47 a = mask 17"

text \<open>
  The documentation of \<open>PhysAddr::new\<close> (52 bits), \<open>VirtAddr::new\<close> and \<open>VirtAddr + u64\<close>
  (canonical), \<open>containing_address\<close> (the 4 KiB unit an address lies in),
  \<open>Page::range_inclusive\<close> (every page from the first to the last, in order), \<open>p1_index\<close> \<dots>
  \<open>p4_index\<close> (nine bits each), \<open>page_offset\<close> (the low twelve bits) and
  \<open>PageTableEntry::frame\<close> (bit 0 is present, bit 7 huge, bits 12 to 51 the frame).
\<close>

definition paging_docs :: "paging_crate \<Rightarrow> bool" where
  "paging_docs c \<longleftrightarrow>
     (\<forall>a. unat a < 2 ^ 52 \<longrightarrow> PhysAddr_new c a = Inr a) \<and>
     (\<forall>a. canonical a \<longrightarrow> VirtAddr_new c a = Inr a) \<and>
     (\<forall>a b. unat a + unat b < 2 ^ 64 \<and> canonical (a + b) \<longrightarrow> virt_add c a b = Inr (a + b)) \<and>
     (\<forall>a b. b \<le> a \<and> canonical (a - b) \<longrightarrow> virt_sub_u64 c a b = Inr (a - b)) \<and>
     (\<forall>a b. unat a + unat b < 2 ^ 52 \<longrightarrow> phys_add c a b = Inr (a + b)) \<and>
     (\<forall>a. frame_containing c a = a AND NOT (mask 12)) \<and>
     (\<forall>a. page_containing c a = a AND NOT (mask 12)) \<and>
     (\<forall>a n. unat a + 4096 * n < 2 ^ 64 \<longrightarrow> page_range_inclusive c a (a + 4096 * of_nat n) =
        map (\<lambda>k. a + 4096 * of_nat k) [0..<Suc n]) \<and>
     (\<forall>l a. 1 \<le> l \<and> l \<le> 4 \<longrightarrow> table_index c l a = unat (take_bit 9 (drop_bit (3 + 9 * l) a))) \<and>
     (\<forall>a. page_offset c a = a AND mask 12) \<and>
     (\<forall>e. entry_frame c e = (if \<not> bit e 0 then FrameNotPresent else if bit e 7 then HugeFrame
                             else FrameOk (e AND (mask 52 AND NOT (mask 12)))))"

definition std_paging :: paging_crate where
  "std_paging = \<lparr>
     PhysAddr_new = (\<lambda>a. if unat a < 2 ^ 52 then Inr a else Inl (ExplicitPanic ''PhysAddr'')),
     VirtAddr_new = (\<lambda>a. if canonical a then Inr a else Inl (ExplicitPanic ''VirtAddr'')),
     virt_add = (\<lambda>a b. if unat a + unat b < 2 ^ 64 \<and> canonical (a + b) then Inr (a + b) else Inl UnwrapNone),
     phys_add = (\<lambda>a b. if unat a + unat b < 2 ^ 52 then Inr (a + b) else Inl UnwrapNone),
     virt_sub = (\<lambda>a b. sub_checked a b),
     virt_sub_u64 = (\<lambda>a b. if b \<le> a \<and> canonical (a - b) then Inr (a - b) else Inl UnwrapNone),
     frame_containing = (\<lambda>a. a AND NOT (mask 12)),
     page_containing = (\<lambda>a. a AND NOT (mask 12)),
     page_range_inclusive =
       (\<lambda>a b. map (\<lambda>k. a + 4096 * of_nat k) [0..<Suc (unat (b - a) div 4096)]),
     table_index = (\<lambda>l a. unat (take_bit 9 (drop_bit (3 + 9 * l) a))),
     page_offset = (\<lambda>a. a AND mask 12),
     entry_frame = (\<lambda>e. if \<not> bit e 0 then FrameNotPresent else if bit e 7 then HugeFrame
                        else FrameOk (e AND (mask 52 AND NOT (mask 12)))),
     entry_is_unused = (\<lambda>e. e = 0)\<rparr>"

lemma std_paging_docs: "paging_docs std_paging"
proof -
  have "unat (4096 * of_nat n :: u64) = 4096 * n" if "x + 4096 * n < 2 ^ 64" for n x
    using that by (simp add: unat_word_ariths unat_of_nat)
  then show ?thesis by (auto simp: paging_docs_def std_paging_def)
qed

lemma paging_docsD:
  assumes "paging_docs c"
  shows "unat a < 2 ^ 52 \<Longrightarrow> PhysAddr_new c a = Inr a"
    and "canonical a \<Longrightarrow> VirtAddr_new c a = Inr a"
    and "unat a + unat b < 2 ^ 64 \<Longrightarrow> canonical (a + b) \<Longrightarrow> virt_add c a b = Inr (a + b)"
    and "b \<le> a \<Longrightarrow> canonical (a - b) \<Longrightarrow> virt_sub_u64 c a b = Inr (a - b)"
    and "unat a + unat b < 2 ^ 52 \<Longrightarrow> phys_add c a b = Inr (a + b)"
    and "frame_containing c a = a AND NOT (mask 12)"
    and "page_containing c a = a AND NOT (mask 12)"
    and "unat a + 4096 * n < 2 ^ 64 \<Longrightarrow> page_range_inclusive c a (a + 4096 * of_nat n) =
           map (\<lambda>k. a + 4096 * of_nat k) [0..<Suc n]"
    and "1 \<le> l \<Longrightarrow> l \<le> 4 \<Longrightarrow> table_index c l a = unat (take_bit 9 (drop_bit (3 + 9 * l) a))"
    and "page_offset c a = a AND mask 12"
    and "entry_frame c e = (if \<not> bit e 0 then FrameNotPresent else if bit e 7 then HugeFrame
                            else FrameOk (e AND (mask 52 AND NOT (mask 12))))"
  using assms by (simp_all add: paging_docs_def)

end
