(* ===== verification/Page_Allocator.thy ===== *)
theory Page_Allocator
  imports Paging_Crate Byte_Memory Logging
begin

text \<open>
  The physical frame allocator, \<^verbatim>\<open>kernel/src/memory/page_allocator.rs\<close>. It hands out the
  4 KiB frames of the usable regions of the boot loader's memory map, one after the other,
  by position in a lazy iterator. A region's kind is a parameter type with the value
  \<open>usable\<close>, since the enumeration belongs to the boot loader's crate.

  The locale \<open>frame_source\<close> states what the \<open>unsafe\<close> trait \<open>FrameAllocator\<close> obliges an
  implementation to: every frame it returns is one it has not returned before.
\<close>

section \<open>The allocator\<close>

record 'k MemoryRegion =
  mr_start :: u64
  mr_end :: u64
  mr_kind :: 'k

record 'k AbyssFrameAllocator =
  memory_map :: "'k MemoryRegion list"
  next_frame :: u64

definition AbyssFrameAllocator_init :: "'k MemoryRegion list \<Rightarrow> 'k AbyssFrameAllocator" where
  "AbyssFrameAllocator_init m = \<lparr>memory_map = m, next_frame = 0\<rparr>"

definition MIN_USABLE_PA :: u64 where
  "MIN_USABLE_PA = 0x00100000"

text \<open>\<open>(start..end).step_by(4096)\<close>\<close>

definition step_count :: "u64 \<Rightarrow> u64 \<Rightarrow> nat" where
  "step_count s e = (unat e - unat s + 4095) div 4096"

definition step_by_4096 :: "u64 \<Rightarrow> u64 \<Rightarrow> u64 list" where
  "step_by_4096 s e = map (\<lambda>k. s + 4096 * of_nat k) [0..<step_count s e]"

definition frame_addresses :: "'k \<Rightarrow> 'k MemoryRegion list \<Rightarrow> u64 list" where
  "frame_addresses usable m =
     filter (\<lambda>addr. MIN_USABLE_PA \<le> addr)
       (concat (map (\<lambda>r. step_by_4096 (mr_start r) (mr_end r)) (filter (\<lambda>r. mr_kind r = usable) m)))"

text \<open>\<open>nth(n)\<close> of the mapped iterator: the closure runs on every element up to the \<open>n\<close>-th.\<close>

fun usable_frames_nth :: "paging_crate \<Rightarrow> u64 list \<Rightarrow> nat \<Rightarrow> u64 option outcome" where
  "usable_frames_nth c [] n = Inr None"
| "usable_frames_nth c (addr # addrs) n =
     and_then (PhysAddr_new c addr) (\<lambda>a.
       if n = 0 then Inr (Some (frame_containing c a)) else usable_frames_nth c addrs (n - 1))"

definition allocate_frame ::
  "paging_crate \<Rightarrow> 'k \<Rightarrow> 'k AbyssFrameAllocator \<Rightarrow> (u64 option \<times> 'k AbyssFrameAllocator) outcome" where
  "allocate_frame c usable fa =
     and_then (usable_frames_nth c (frame_addresses usable (memory_map fa)) (unat (next_frame fa))) (\<lambda>frame.
     and_then (add_checked (next_frame fa) 1) (\<lambda>n.
       Inr (frame, fa\<lparr>next_frame := n\<rparr>)))"

section \<open>The trait\<close>

text \<open>What a callee that is lent an allocator can do with it: call it, any number of times.\<close>

inductive borrows :: "('s \<Rightarrow> (u64 option \<times> 's) outcome) \<Rightarrow> 's \<Rightarrow> 's \<Rightarrow> bool" for allocate where
  borrows_refl: "borrows allocate s s"
| borrows_step: "borrows allocate s t \<Longrightarrow> allocate t = Inr (r, u) \<Longrightarrow> borrows allocate s u"

lemma borrows_trans: "borrows allocate t u \<Longrightarrow> borrows allocate s t \<Longrightarrow> borrows allocate s u"
  by (induction rule: borrows.induct) (auto intro: borrows.intros)

lemma borrows_once: "allocate s = Inr (r, t) \<Longrightarrow> borrows allocate s t"
  by (rule borrows_step [OF borrows_refl])

text \<open>
  \<open>given s\<close> is the set of frames handed out so far, \<open>remaining s\<close> how many are left.
\<close>

locale frame_source =
  fixes allocate :: "'s \<Rightarrow> (u64 option \<times> 's) outcome"
    and inv :: "'s \<Rightarrow> bool"
    and given :: "'s \<Rightarrow> u64 set"
    and remaining :: "'s \<Rightarrow> nat"
  assumes allocate_inv: "inv s \<Longrightarrow> allocate s = Inr (r, s') \<Longrightarrow> inv s'"
    and allocate_fresh: "inv s \<Longrightarrow> allocate s = Inr (Some f, s') \<Longrightarrow>
      f \<notin> given s \<and> given s' = insert f (given s) \<and> f AND mask 12 = 0 \<and>
      remaining s = Suc (remaining s')"
    and allocate_none: "inv s \<Longrightarrow> allocate s = Inr (None, s') \<Longrightarrow>
      given s' = given s \<and> remaining s = 0 \<and> remaining s' = 0"
    and allocate_some: "inv s \<Longrightarrow> 0 < remaining s \<Longrightarrow> \<exists>f s'. allocate s = Inr (Some f, s')"
begin

lemma borrows_laws:
  "borrows allocate s t \<Longrightarrow> inv s \<Longrightarrow> inv t \<and> given s \<subseteq> given t \<and> remaining t \<le> remaining s"
proof (induction rule: borrows.induct)
  case (borrows_step s t r u)
  then show ?case
    using allocate_inv [of t r u] allocate_none [of t u] allocate_fresh [of t _ u] by (cases r) auto
qed simp

end

section \<open>The allocator implements the trait\<close>

text \<open>
  What the boot loader guarantees of the memory map: usable regions start on a page boundary,
  lie within 52 bits and do not overlap.
\<close>

definition apart_regions :: "'k MemoryRegion \<Rightarrow> 'k MemoryRegion \<Rightarrow> bool" where
  "apart_regions r q \<longleftrightarrow> mr_end r \<le> mr_start q \<or> mr_end q \<le> mr_start r"

definition regions_ok :: "'k \<Rightarrow> 'k MemoryRegion list \<Rightarrow> bool" where
  "regions_ok usable m \<longleftrightarrow>
     (let us = filter (\<lambda>r. mr_kind r = usable) m in
      (\<forall>r \<in> set us. mr_start r AND mask 12 = 0 \<and> unat (mr_end r) \<le> 2 ^ 52) \<and>
      sorted_wrt apart_regions us)"

lemma step_by_4096_bounds:
  assumes "k < step_count s e"
  shows "unat (s + 4096 * of_nat k) = unat s + 4096 * k" "unat s + 4096 * k < unat e"
proof -
  have "4096 * k < unat e - unat s" using assms unfolding step_count_def by linarith
  then show "unat s + 4096 * k < unat e" by linarith
  then have "unat s + 4096 * k < 2 ^ 64" using unat_u64_less [of e] by linarith
  then show "unat (s + 4096 * of_nat k) = unat s + 4096 * k"
    by (simp add: unat_word_ariths unat_of_nat mod_simps)
qed

lemma mask_0_mod: "a AND mask 12 = 0 \<longleftrightarrow> unat a mod 4096 = 0" for a :: u64
  using unat_take_bit [of 12 a] by (auto simp: take_bit_eq_mask [symmetric] unat_eq_0 [symmetric] simp del: unat_eq_0)

lemma step_by_4096_set:
  assumes "a \<in> set (step_by_4096 s e)"
  shows "s \<le> a" "a < e" "unat a mod 4096 = unat s mod 4096"
proof -
  from assms obtain k where k: "k < step_count s e" "a = s + 4096 * of_nat k"
    by (auto simp: step_by_4096_def)
  have a: "unat a = unat s + 4096 * k" "unat a < unat e"
    using step_by_4096_bounds [OF k(1)] unfolding k(2) by simp_all
  then show "s \<le> a" "a < e" "unat a mod 4096 = unat s mod 4096"
    by (simp_all add: word_le_nat_alt word_less_nat_alt)
qed

lemma step_by_4096_distinct: "distinct (step_by_4096 s e)"
proof -
  have "i = j" if "i < step_count s e" "j < step_count s e" "s + 4096 * of_nat i = s + 4096 * of_nat j" for i j
    using arg_cong [OF that(3), of unat] step_by_4096_bounds(1) [OF that(1)]
      step_by_4096_bounds(1) [OF that(2)] by linarith
  then show ?thesis by (auto simp: step_by_4096_def distinct_map inj_on_def)
qed

lemma frame_addresses_set:
  assumes "regions_ok usable m" "a \<in> set (frame_addresses usable m)"
  obtains r where "r \<in> set m" "mr_kind r = usable" "mr_start r \<le> a" "a < mr_end r"
    "a AND mask 12 = 0" "MIN_USABLE_PA \<le> a" "unat a < 2 ^ 52"
proof -
  from assms(2) obtain r where r: "r \<in> set m" "mr_kind r = usable" "MIN_USABLE_PA \<le> a"
      "a \<in> set (step_by_4096 (mr_start r) (mr_end r))"
    by (auto simp: frame_addresses_def)
  then have ok: "mr_start r AND mask 12 = 0" "unat (mr_end r) \<le> 2 ^ 52"
    using assms(1) by (auto simp: regions_ok_def)
  note a = step_by_4096_set [OF r(4)]
  have "unat a < 2 ^ 52" using a(2) ok(2) unfolding word_less_nat_alt by linarith
  with a r ok that show thesis by (simp add: mask_0_mod)
qed

lemma frame_addresses_distinct:
  assumes "regions_ok usable m"
  shows "distinct (frame_addresses usable m)"
proof -
  have "distinct (concat (map (\<lambda>r. step_by_4096 (mr_start r) (mr_end r)) us))"
    if "sorted_wrt apart_regions us" for us :: "'a MemoryRegion list"
    using that
  proof (induction us)
    case (Cons r us)
    have "set (step_by_4096 (mr_start r) (mr_end r)) \<inter> set (step_by_4096 (mr_start q) (mr_end q)) = {}"
      if "q \<in> set us" for q
    proof -
      have "apart_regions r q" using Cons.prems that by simp
      then show ?thesis
        using step_by_4096_set [of _ "mr_start r" "mr_end r"] step_by_4096_set [of _ "mr_start q" "mr_end q"]
        unfolding apart_regions_def by (meson disjoint_iff leD less_le_trans order_trans)
    qed
    with Cons show ?case by (auto simp: step_by_4096_distinct disjoint_iff)
  qed simp
  then show ?thesis using assms by (simp add: frame_addresses_def regions_ok_def Let_def)
qed

lemma frame_addresses_length:
  assumes "regions_ok usable m"
  shows "length (frame_addresses usable m) < 2 ^ 64 - 1"
proof -
  have "unat ` set (frame_addresses usable m) \<subseteq> {..<2 ^ 52}"
    using frame_addresses_set [OF assms] by (metis image_subsetI lessThan_iff)
  then have "card (unat ` set (frame_addresses usable m)) \<le> 2 ^ 52"
    using card_mono [of "{..<(2::nat) ^ 52}"] by fastforce
  then have "card (set (frame_addresses usable m)) \<le> 2 ^ 52"
    by (subst (asm) card_image) (auto simp: inj_on_def word_unat_eq_iff)
  then show ?thesis using distinct_card [OF frame_addresses_distinct [OF assms]] by simp
qed

lemma usable_frames_nth_run:
  assumes "paging_docs c" "\<And>a. a \<in> set as \<Longrightarrow> unat a < 2 ^ 52 \<and> a AND mask 12 = 0"
  shows "usable_frames_nth c as n = Inr (if n < length as then Some (as ! n) else None)"
  using assms(2)
proof (induction as arbitrary: n)
  case (Cons a as)
  have "a AND NOT (mask 12) = a"
    using Cons.prems [of a] by (simp add: and_not_mask_eq take_bit_eq_mask)
  then show ?case
    using Cons by (cases n) (simp_all add: paging_docsD [OF assms(1)])
qed simp

text \<open>The state of the allocator after \<open>n\<close> calls, and what it has given away.\<close>

definition allocator_inv :: "'k \<Rightarrow> 'k AbyssFrameAllocator \<Rightarrow> bool" where
  "allocator_inv usable fa \<longleftrightarrow> regions_ok usable (memory_map fa)"

definition frames_given :: "'k \<Rightarrow> 'k AbyssFrameAllocator \<Rightarrow> u64 set" where
  "frames_given usable fa =
     set (take (unat (next_frame fa)) (frame_addresses usable (memory_map fa)))"

definition frames_remaining :: "'k \<Rightarrow> 'k AbyssFrameAllocator \<Rightarrow> nat" where
  "frames_remaining usable fa =
     length (frame_addresses usable (memory_map fa)) - unat (next_frame fa)"

lemma allocate_frame_run:
  assumes "paging_docs c" "allocator_inv usable fa"
  shows "allocate_frame c usable fa =
     (if next_frame fa = - 1 then Inl ArithmeticOverflow
      else Inr (if 0 < frames_remaining usable fa
                then Some (frame_addresses usable (memory_map fa) ! unat (next_frame fa)) else None,
                fa\<lparr>next_frame := next_frame fa + 1\<rparr>))"
proof -
  have ok: "regions_ok usable (memory_map fa)" using assms(2) by (simp add: allocator_inv_def)
  have "usable_frames_nth c (frame_addresses usable (memory_map fa)) (unat (next_frame fa)) =
      Inr (if 0 < frames_remaining usable fa
           then Some (frame_addresses usable (memory_map fa) ! unat (next_frame fa)) else None)"
    unfolding frames_remaining_def zero_less_diff
    by (rule usable_frames_nth_run [OF assms(1)]) (use frame_addresses_set [OF ok] in metis)
  then show ?thesis
    using succ_u64_iff [of "next_frame fa"] by (simp add: allocate_frame_def add_checked_def)
qed

lemma allocate_frame_Inr:
  assumes "paging_docs c" "allocator_inv usable fa" "allocate_frame c usable fa = Inr (r, fa')"
  shows "memory_map fa' = memory_map fa" "unat (next_frame fa') = Suc (unat (next_frame fa))"
    and "r = (if 0 < frames_remaining usable fa
              then Some (frame_addresses usable (memory_map fa) ! unat (next_frame fa)) else None)"
proof -
  have "next_frame fa \<noteq> - 1" using assms allocate_frame_run [OF assms(1,2)] by auto
  then have "unat (next_frame fa) + 1 < 2 ^ 64" using succ_u64_iff by blast
  then have "unat (next_frame fa + 1) = Suc (unat (next_frame fa))" by (simp add: unat_word_ariths)
  then show "memory_map fa' = memory_map fa" "unat (next_frame fa') = Suc (unat (next_frame fa))"
    and "r = (if 0 < frames_remaining usable fa
              then Some (frame_addresses usable (memory_map fa) ! unat (next_frame fa)) else None)"
    using assms(3) \<open>next_frame fa \<noteq> - 1\<close> by (auto simp: allocate_frame_run [OF assms(1,2)])
qed

lemma allocate_frame_fresh:
  assumes "paging_docs c" "allocator_inv usable fa" "allocate_frame c usable fa = Inr (Some f, fa')"
  shows "f \<notin> frames_given usable fa" "frames_given usable fa' = insert f (frames_given usable fa)"
    and "f AND mask 12 = 0" "frames_remaining usable fa = Suc (frames_remaining usable fa')"
    and "f \<in> set (frame_addresses usable (memory_map fa))"
proof -
  let ?as = "frame_addresses usable (memory_map fa)" and ?n = "unat (next_frame fa)"
  have ok: "regions_ok usable (memory_map fa)" using assms(2) by (simp add: allocator_inv_def)
  note step = allocate_frame_Inr [OF assms]
  from step(3) have n: "?n < length ?as" "f = ?as ! ?n"
    by (auto simp: frames_remaining_def split: if_splits)
  then show mem: "f \<in> set ?as" by simp
  then show "f AND mask 12 = 0" by (rule frame_addresses_set [OF ok])
  show "f \<notin> frames_given usable fa"
    using frame_addresses_distinct [OF ok] n
    by (auto simp: frames_given_def in_set_conv_nth nth_eq_iff_index_eq)
  show "frames_given usable fa' = insert f (frames_given usable fa)"
    using n step by (simp add: frames_given_def take_Suc_conv_app_nth)
  show "frames_remaining usable fa = Suc (frames_remaining usable fa')"
    using n step by (simp add: frames_remaining_def)
qed

interpretation abyss: frame_source "allocate_frame c usable"
  "\<lambda>fa. paging_docs c \<and> allocator_inv usable fa" "frames_given usable" "frames_remaining usable"
  for c usable
proof unfold_locales
  fix fa :: "'a AbyssFrameAllocator"
  assume inv: "paging_docs c \<and> allocator_inv usable fa" and "0 < frames_remaining usable fa"
  then have "unat (next_frame fa) + 1 < 2 ^ 64"
    using frame_addresses_length [of usable "memory_map fa"]
    by (simp add: allocator_inv_def frames_remaining_def)
  then show "\<exists>f s'. allocate_frame c usable fa = Inr (Some f, s')"
    using inv \<open>0 < frames_remaining usable fa\<close> succ_u64_iff [of "next_frame fa"]
    by (auto simp: allocate_frame_run)
next
  fix fa fa' :: "'a AbyssFrameAllocator"
  assume "paging_docs c \<and> allocator_inv usable fa" "allocate_frame c usable fa = Inr (None, fa')"
  then show "frames_given usable fa' = frames_given usable fa \<and> frames_remaining usable fa = 0 \<and>
      frames_remaining usable fa' = 0"
    using allocate_frame_Inr [of c usable fa None fa']
    by (auto simp: frames_remaining_def frames_given_def split: if_splits)
qed (auto simp: allocate_frame_fresh allocator_inv_def dest: allocate_frame_Inr)

section \<open>Sequences of allocations\<close>








section \<open>page_allocator::init\<close>

record 'k BootInfo =
  physical_memory_offset_opt :: "u64 option"
  memory_regions :: "'k MemoryRegion list"

text \<open>The frame number part of \<open>CR3\<close> and the memory are arguments.\<close>

definition active_level_4_table :: "paging_crate \<Rightarrow> u64 \<Rightarrow> u64 \<Rightarrow> u64 outcome" where
  "active_level_4_table c cr3 offset = virt_add c offset cr3"

definition log_l4_entries :: "paging_crate \<Rightarrow> mem \<Rightarrow> u64 \<Rightarrow> log_record list" where
  "log_l4_entries c m l4 =
     concat (map (\<lambda>index. let entry = load64 m (l4 + 8 * of_nat index) in
                   if entry_is_unused c entry then []
                   else [debug ''Level 4 Table Entry {}: {:?}'' [ArgUsize index, ArgU64 entry]]) [0..<512])"

fun log_regions :: "paging_crate \<Rightarrow> ('k \<Rightarrow> fmt_arg) \<Rightarrow> 'k MemoryRegion list \<Rightarrow> log_record list outcome" where
  "log_regions c show_kind [] = Inr []"
| "log_regions c show_kind (r # rs) =
     and_then (VirtAddr_new c (mr_start r)) (\<lambda>start.
     and_then (VirtAddr_new c (mr_end r)) (\<lambda>end'.
     and_then (virt_sub c end' start) (\<lambda>size.
     and_then (log_regions c show_kind rs) (\<lambda>logs.
       Inr (debug ''Memory region: 0x{:x} - 0x{:x} ({:x} bytes) - {:?}''
              [ArgU64 start, ArgU64 end', ArgU64 size, show_kind (mr_kind r)] # logs)))))"

text \<open>The offset page table is the pair of the level-4 table's address and the offset.\<close>

definition page_allocator_init ::
  "paging_crate \<Rightarrow> ('k \<Rightarrow> fmt_arg) \<Rightarrow> ('k BootInfo \<Rightarrow> fmt_arg) \<Rightarrow> mem \<Rightarrow> u64 \<Rightarrow> 'k BootInfo
     \<Rightarrow> ((u64 \<times> u64) \<times> 'k AbyssFrameAllocator \<times> log_record list) outcome" where
  "page_allocator_init c show_kind show_info m cr3 boot_info =
     and_then (unwrap (physical_memory_offset_opt boot_info)) (\<lambda>off.
     and_then (VirtAddr_new c off) (\<lambda>offset.
     and_then (active_level_4_table c cr3 offset) (\<lambda>l4.
     and_then (log_regions c show_kind (memory_regions boot_info)) (\<lambda>region_logs.
     and_then (active_level_4_table c cr3 offset) (\<lambda>level_4_table.
       Inr ((level_4_table, offset), AbyssFrameAllocator_init (memory_regions boot_info),
            debug ''boot info {:#?}'' [show_info boot_info] # log_l4_entries c m l4 @ region_logs))))))"

end
