(* ===== verification/Heap_Allocator.thy ===== *)
theory Heap_Allocator
  imports Page_Allocator
begin

text \<open>
  The kernel heap, \<^verbatim>\<open>kernel/src/memory/heap_allocator.rs\<close>: \<open>init\<close> backs the heap's pages with
  frames and hands the range to the global allocator. It is generic over the frame allocator,
  as in the source: \<open>allocate\<close> is the trait's method. \<open>map_to\<close> of the \<^verbatim>\<open>x86_64\<close> crate's mapper is
  a parameter; \<open>mapper_docs\<close> is its documented effect on the translation of pages. The
  correctness of \<open>init\<close> is proved once for every \<open>frame_source\<close>.
\<close>

section \<open>Initialisation\<close>

definition HEAP_START :: u64 where
  "HEAP_START = 0xffffa00000000000"

definition HEAP_SIZE :: u64 where
  "HEAP_SIZE = 32 * 1024 * 1024"

datatype page_flag = PRESENT | WRITABLE

type_synonym ('pt, 's, 'e) mapper =
  "u64 \<Rightarrow> u64 \<Rightarrow> page_flag list \<Rightarrow> 's \<Rightarrow> 'pt \<Rightarrow> (('e + unit) \<times> 'pt \<times> 's) outcome"

definition heap_pages :: "paging_crate \<Rightarrow> u64 list outcome" where
  "heap_pages c =
     and_then (VirtAddr_new c HEAP_START) (\<lambda>heap_start.
     and_then (virt_add c heap_start HEAP_SIZE) (\<lambda>e.
     and_then (virt_sub_u64 c e 1) (\<lambda>heap_end.
       Inr (page_range_inclusive c (page_containing c heap_start) (page_containing c heap_end)))))"

fun map_pages ::
  "('s \<Rightarrow> (u64 option \<times> 's) outcome) \<Rightarrow> ('pt, 's, 'e) mapper \<Rightarrow> 'e \<Rightarrow> u64 list \<Rightarrow> 'pt \<Rightarrow> 's
     \<Rightarrow> (('e + unit) \<times> 'pt \<times> 's) outcome" where
  "map_pages allocate map_to frame_allocation_failed [] pt fa = Inr (Inr (), pt, fa)"
| "map_pages allocate map_to frame_allocation_failed (page # pages) pt fa =
     and_then (allocate fa) (\<lambda>(frame, fa).
       case frame of
         None \<Rightarrow> Inr (Inl frame_allocation_failed, pt, fa)
       | Some frame \<Rightarrow>
           and_then (map_to page frame [PRESENT, WRITABLE] fa pt) (\<lambda>(r, pt, fa).
             case r of
               Inl e \<Rightarrow> Inr (Inl e, pt, fa)
             | Inr _ \<Rightarrow> map_pages allocate map_to frame_allocation_failed pages pt fa))"

text \<open>\<open>ALLOCATOR\<close>: the range \<open>init\<close> gave to the linked-list heap, \<open>None\<close> while it is empty.\<close>

record ('pt, 's) heap_state =
  page_table :: 'pt
  frame_alloc :: 's
  ALLOCATOR :: "(u64 \<times> u64) option"
  heap_log :: "log_record list"

definition heap_init ::
  "paging_crate \<Rightarrow> ('s \<Rightarrow> (u64 option \<times> 's) outcome) \<Rightarrow> ('pt, 's, 'e) mapper \<Rightarrow> 'e
     \<Rightarrow> ('pt, 's) heap_state \<Rightarrow> (('e + unit) \<times> ('pt, 's) heap_state) outcome" where
  "heap_init c allocate map_to frame_allocation_failed st =
     and_then (heap_pages c) (\<lambda>pages.
     and_then (map_pages allocate map_to frame_allocation_failed pages (page_table st) (frame_alloc st))
       (\<lambda>(r, pt, fa).
         case r of
           Inl e \<Rightarrow> Inr (Inl e, st\<lparr>page_table := pt, frame_alloc := fa\<rparr>)
         | Inr _ \<Rightarrow> Inr (Inr (), st\<lparr>page_table := pt, frame_alloc := fa,
             ALLOCATOR := Some (HEAP_START, HEAP_SIZE),
             heap_log := heap_log st @ [debug ''Heap start: {:#x}, size: {}''
                            [ArgU64 HEAP_START, ArgU64 HEAP_SIZE]]\<rparr>)))"

section \<open>The heap's pages\<close>

definition heap_page :: "nat \<Rightarrow> u64" where
  "heap_page k = HEAP_START + 4096 * of_nat k"

lemma heap_pages_run:
  assumes "paging_docs c"
  shows "heap_pages c = Inr (map heap_page [0..<8192])"
proof -
  have "canonical HEAP_START" "canonical (HEAP_START + HEAP_SIZE)" "canonical (HEAP_START + HEAP_SIZE - 1)"
    by (simp_all add: canonical_def HEAP_START_def HEAP_SIZE_def mask_eq_exp_minus_1)
  moreover have "unat HEAP_START + unat HEAP_SIZE < 2 ^ 64" "1 \<le> HEAP_START + HEAP_SIZE"
    by (simp_all add: HEAP_START_def HEAP_SIZE_def)
  moreover have "HEAP_START AND NOT (mask 12) = HEAP_START"
    "(HEAP_START + HEAP_SIZE - 1) AND NOT (mask 12) = HEAP_START + 4096 * of_nat 8191"
    by (simp_all add: HEAP_START_def HEAP_SIZE_def mask_eq_exp_minus_1)
  moreover have "unat HEAP_START + 4096 * 8191 < 2 ^ 64" by (simp add: HEAP_START_def)
  then have "page_range_inclusive c HEAP_START (HEAP_START + 4096 * of_nat 8191) =
      map (\<lambda>k. HEAP_START + 4096 * of_nat k) [0..<Suc 8191]"
    by (rule paging_docsD [OF assms])
  ultimately show ?thesis
    by (simp add: heap_pages_def heap_page_def paging_docsD [OF assms] del: of_nat_numeral upt_Suc)
qed

lemma heap_page_inj: "i < 8192 \<Longrightarrow> j < 8192 \<Longrightarrow> heap_page i = heap_page j \<Longrightarrow> i = j"
proof -
  have "unat (heap_page k) = unat HEAP_START + 4096 * k" if "k < 8192" for k
    using that by (simp add: heap_page_def HEAP_START_def unat_word_ariths unat_of_nat mod_simps)
  then show "i < 8192 \<Longrightarrow> j < 8192 \<Longrightarrow> heap_page i = heap_page j \<Longrightarrow> i = j" by (metis add_left_cancel mult_cancel1 zero_neq_numeral)
qed

section \<open>Mapping the heap on any frame source\<close>

text \<open>
  The documentation of \<open>map_to\<close>: on success the page translates to the frame and no other page
  changes, on an error no page changes; the frame allocator is only asked for frames. The
  second predicate: with three frames for new tables at hand and a page that is not mapped,
  \<open>map_to\<close> succeeds.
\<close>

definition mapper_docs ::
  "('s \<Rightarrow> (u64 option \<times> 's) outcome) \<Rightarrow> ('pt \<Rightarrow> u64 \<Rightarrow> u64 option) \<Rightarrow> ('pt, 's, 'e) mapper \<Rightarrow> bool" where
  "mapper_docs allocate translate map_to \<longleftrightarrow>
     (\<forall>page frame flags fa pt r pt' fa'. map_to page frame flags fa pt = Inr (r, pt', fa') \<longrightarrow>
        borrows allocate fa fa' \<and>
        translate pt' = (case r of Inl _ \<Rightarrow> translate pt | Inr _ \<Rightarrow> (translate pt)(page \<mapsto> frame)))"

definition mapper_live ::
  "('s \<Rightarrow> nat) \<Rightarrow> ('pt \<Rightarrow> u64 \<Rightarrow> u64 option) \<Rightarrow> ('pt, 's, 'e) mapper \<Rightarrow> bool" where
  "mapper_live remaining translate map_to \<longleftrightarrow>
     (\<forall>page frame flags fa pt. 3 \<le> remaining fa \<and> translate pt page = None \<longrightarrow>
        (\<exists>pt' fa'. map_to page frame flags fa pt = Inr (Inr (), pt', fa') \<and>
                   remaining fa \<le> remaining fa' + 3))"

lemma map_pages_Cons_ok:
  assumes "map_pages allocate map_to faf (page # pages) pt fa = Inr (Inr (), pt', fa')"
  obtains frame fa1 pt2 fa2 where "allocate fa = Inr (Some frame, fa1)"
    "map_to page frame [PRESENT, WRITABLE] fa1 pt = Inr (Inr (), pt2, fa2)"
    "map_pages allocate map_to faf pages pt2 fa2 = Inr (Inr (), pt', fa')"
proof -
  from assms obtain frame fa1 where alloc: "allocate fa = Inr (Some frame, fa1)"
    by (cases "allocate fa") (auto split: option.splits prod.splits)
  with assms obtain r pt2 fa2 where mapped: "map_to page frame [PRESENT, WRITABLE] fa1 pt = Inr (r, pt2, fa2)"
    by (cases "map_to page frame [PRESENT, WRITABLE] fa1 pt") auto
  with assms alloc have "r = Inr ()" by (cases r) auto
  with that assms alloc mapped show thesis by simp
qed

lemma map_pages_borrows:
  assumes "mapper_docs allocate translate map_to"
  shows "map_pages allocate map_to faf pages pt fa = Inr (Inr (), pt', fa') \<Longrightarrow> borrows allocate fa fa'"
proof (induction pages arbitrary: pt fa)
  case (Cons page pages)
  from Cons.prems obtain frame fa1 pt2 fa2 where "allocate fa = Inr (Some frame, fa1)"
      "map_to page frame [PRESENT, WRITABLE] fa1 pt = Inr (Inr (), pt2, fa2)" "borrows allocate fa2 fa'"
    by (elim map_pages_Cons_ok) (auto intro: Cons.IH)
  moreover from this(2) have "borrows allocate fa1 fa2"
    using assms unfolding mapper_docs_def by blast
  ultimately show ?case by (blast intro: borrows_trans borrows_once)
qed (auto intro: borrows.intros)

context frame_source
begin

lemma map_pages_maps:
  assumes docs: "mapper_docs allocate translate map_to"
    and "inv fa" "map_pages allocate map_to faf pages pt fa = Inr (Inr (), pt', fa')"
  shows "\<exists>fs. length fs = length pages \<and> distinct fs \<and> set fs \<inter> given fa = {} \<and> set fs \<subseteq> given fa' \<and>
           (\<forall>f \<in> set fs. f AND mask 12 = 0) \<and> translate pt' = (translate pt)(pages [\<mapsto>] fs) \<and>
           remaining fa' + length pages \<le> remaining fa"
  using assms(2,3)
proof (induction pages arbitrary: pt fa)
  case (Cons page pages)
  from Cons.prems(2) obtain frame fa1 pt2 fa2 where
      alloc: "allocate fa = Inr (Some frame, fa1)"
    and mapped: "map_to page frame [PRESENT, WRITABLE] fa1 pt = Inr (Inr (), pt2, fa2)"
    and rest: "map_pages allocate map_to faf pages pt2 fa2 = Inr (Inr (), pt', fa')"
    by (rule map_pages_Cons_ok)
  note fresh = allocate_fresh [OF Cons.prems(1) alloc]
  have lent: "borrows allocate fa1 fa2" "translate pt2 = (translate pt)(page \<mapsto> frame)"
    using docs mapped unfolding mapper_docs_def by fastforce+
  have fa2: "inv fa2" "given fa1 \<subseteq> given fa2" "remaining fa2 \<le> remaining fa1"
    using borrows_laws [OF lent(1) allocate_inv [OF Cons.prems(1) alloc]] by auto
  obtain fs where fs: "length fs = length pages" "distinct fs" "set fs \<inter> given fa2 = {}"
      "set fs \<subseteq> given fa'" "\<forall>f \<in> set fs. f AND mask 12 = 0"
      "translate pt' = (translate pt2)(pages [\<mapsto>] fs)" "remaining fa' + length pages \<le> remaining fa2"
    using Cons.IH [OF fa2(1) rest] by blast
  moreover have "frame \<in> given fa'"
    using borrows_laws [OF map_pages_borrows [OF docs rest] fa2(1)] fresh fa2(2) by blast
  ultimately show ?case
    using fresh fa2 lent(2) by (intro exI [of _ "frame # fs"]) auto
qed simp

lemma map_pages_succeeds:
  assumes docs: "mapper_docs allocate translate map_to" and live: "mapper_live remaining translate map_to"
    and "inv fa" "4 * length pages \<le> remaining fa" "distinct pages"
      "\<And>p. p \<in> set pages \<Longrightarrow> translate pt p = None"
  shows "\<exists>pt' fa'. map_pages allocate map_to faf pages pt fa = Inr (Inr (), pt', fa')"
  using assms(3-)
proof (induction pages arbitrary: pt fa)
  case (Cons page pages)
  obtain frame fa1 where alloc: "allocate fa = Inr (Some frame, fa1)"
    using allocate_some [OF Cons.prems(1)] Cons.prems(2) by auto
  have left: "remaining fa = Suc (remaining fa1)" using allocate_fresh [OF Cons.prems(1) alloc] by simp
  then have "3 \<le> remaining fa1 \<and> translate pt page = None" using Cons.prems(2,4) by simp
  then obtain pt2 fa2 where mapped: "map_to page frame [PRESENT, WRITABLE] fa1 pt = Inr (Inr (), pt2, fa2)"
      "remaining fa1 \<le> remaining fa2 + 3"
    using live unfolding mapper_live_def by blast
  have lent: "borrows allocate fa1 fa2" "translate pt2 = (translate pt)(page \<mapsto> frame)"
    using docs mapped(1) unfolding mapper_docs_def by fastforce+
  have "inv fa2" using borrows_laws [OF lent(1) allocate_inv [OF Cons.prems(1) alloc]] by simp
  then have "\<exists>pt' fa'. map_pages allocate map_to faf pages pt2 fa2 = Inr (Inr (), pt', fa')"
    by (rule Cons.IH) (use Cons.prems mapped(2) left lent(2) in auto)
  then show ?case using alloc mapped(1) by simp
qed simp

end

section \<open>The heap on the frame allocator\<close>

lemma borrows_memory_map:
  "borrows (allocate_frame c usable) fa fa' \<Longrightarrow> memory_map fa' = memory_map fa"
  by (induction rule: borrows.induct) (auto simp: allocate_frame_def outcome_simps)

lemma heap_init_Inr:
  assumes "paging_docs c" "heap_init c allocate map_to faf st = Inr (r, st')"
  obtains pt fa where
    "map_pages allocate map_to faf (map heap_page [0..<8192]) (page_table st) (frame_alloc st) = Inr (r, pt, fa)"
    "page_table st' = pt"
    "ALLOCATOR st' = (case r of Inl _ \<Rightarrow> ALLOCATOR st | Inr _ \<Rightarrow> Some (HEAP_START, HEAP_SIZE))"
proof -
  from assms obtain q pt fa where res:
      "map_pages allocate map_to faf (map heap_page [0..<8192]) (page_table st) (frame_alloc st) = Inr (q, pt, fa)"
    by (auto simp: heap_init_def heap_pages_run [OF assms(1)] outcome_simps)
  with assms that show thesis by (cases q) (auto simp: heap_init_def heap_pages_run)
qed

lemma heap_init_ok:
  assumes docs: "paging_docs c" "regions_ok usable m" "mapper_docs (allocate_frame c usable) translate map_to"
    and st: "frame_alloc st = AbyssFrameAllocator_init m"
    and run: "heap_init c (allocate_frame c usable) map_to faf st = Inr (Inr (), st')"
  obtains fs where "ALLOCATOR st' = Some (HEAP_START, HEAP_SIZE)" "length fs = 8192" "distinct fs"
    "translate (page_table st') = (translate (page_table st))(map heap_page [0..<8192] [\<mapsto>] fs)"
    "set fs \<subseteq> set (frame_addresses usable m)" "8192 \<le> length (frame_addresses usable m)"
proof -
  let ?pages = "map heap_page [0..<8192]"
  from run obtain pt fa where maps:
      "map_pages (allocate_frame c usable) map_to faf ?pages (page_table st) (frame_alloc st) = Inr (Inr (), pt, fa)"
    and st': "ALLOCATOR st' = Some (HEAP_START, HEAP_SIZE)" "page_table st' = pt"
    by (rule heap_init_Inr [OF docs(1)]) simp
  have inv: "paging_docs c \<and> allocator_inv usable (frame_alloc st)"
    using docs by (simp add: st AbyssFrameAllocator_init_def allocator_inv_def)
  obtain fs where fs: "length fs = 8192" "distinct fs" "set fs \<subseteq> frames_given usable fa"
      "translate pt = (translate (page_table st))(?pages [\<mapsto>] fs)"
      "frames_remaining usable fa + 8192 \<le> frames_remaining usable (frame_alloc st)"
    using abyss.map_pages_maps [OF docs(3) inv maps] by auto
  have "memory_map fa = m"
    using borrows_memory_map [OF map_pages_borrows [OF docs(3) maps]]
    by (simp add: st AbyssFrameAllocator_init_def)
  then have "set fs \<subseteq> set (frame_addresses usable m)"
    using fs(3) by (auto simp: frames_given_def dest: in_set_takeD)
  moreover have "8192 \<le> length (frame_addresses usable m)"
    using fs(5) by (simp add: st frames_remaining_def AbyssFrameAllocator_init_def)
  ultimately show thesis using that fs st' by simp
qed

lemma heap_pages_distinct: "distinct (map heap_page [0..<8192])"
  using heap_page_inj by (auto simp: distinct_map inj_on_def)

lemma heap_translation:
  assumes "length fs = 8192" "t' = t(map heap_page [0..<8192] [\<mapsto>] fs)"
  shows "k < 8192 \<Longrightarrow> t' (heap_page k) = Some (fs ! k)"
    and "p \<notin> heap_page ` {..<8192} \<Longrightarrow> t' p = t p"
proof -
  have "t' = t ++ map_of (rev (zip (map heap_page [0..<8192]) fs))"
    by (simp add: assms(2) map_upds_def)
  moreover have "map_of (rev (zip (map heap_page [0..<8192]) fs)) = map_of (zip (map heap_page [0..<8192]) fs)"
    using heap_pages_distinct assms(1) by (subst map_of_inject_set) (simp_all add: rev_map [symmetric])
  ultimately have t': "t' = t ++ map_of (zip (map heap_page [0..<8192]) fs)" by simp
  show "t' (heap_page k) = Some (fs ! k)" if "k < 8192"
    using map_of_zip_nth [of "map heap_page [0..<8192]" fs k] that assms(1) heap_pages_distinct
    by (simp add: t' map_add_Some_iff)
  show "p \<notin> heap_page ` {..<8192} \<Longrightarrow> t' p = t p"
    using map_of_zip_is_None [of "map heap_page [0..<8192]" fs p] assms(1)
    by (simp add: t' map_add_def atLeast0LessThan del: map_of_zip_is_None)
qed

lemma heap_init_succeeds:
  assumes docs: "paging_docs c" "regions_ok usable m" "mapper_docs (allocate_frame c usable) translate map_to"
      "mapper_live (frames_remaining usable) translate map_to"
    and st: "frame_alloc st = AbyssFrameAllocator_init m" "4 * 8192 \<le> length (frame_addresses usable m)"
      "\<And>k. k < 8192 \<Longrightarrow> translate (page_table st) (heap_page k) = None"
  obtains st' where "heap_init c (allocate_frame c usable) map_to faf st = Inr (Inr (), st')"
proof -
  let ?pages = "map heap_page [0..<8192]"
  have inv: "paging_docs c \<and> allocator_inv usable (frame_alloc st)"
    using docs by (simp add: st AbyssFrameAllocator_init_def allocator_inv_def)
  have "\<exists>pt' fa'. map_pages (allocate_frame c usable) map_to faf ?pages (page_table st) (frame_alloc st) =
      Inr (Inr (), pt', fa')"
    by (rule abyss.map_pages_succeeds [OF docs(3,4) inv])
      (use st heap_pages_distinct in \<open>auto simp: frames_remaining_def AbyssFrameAllocator_init_def\<close>)
  with that show thesis
    by (auto simp: heap_init_def heap_pages_run [OF docs(1)])
qed

text \<open>
  C9. The heap is mapped completely and without aliasing: with enough usable frames and unmapped
  heap pages, \<open>heap_allocator::init\<close> on the frame allocator returns \<open>Ok\<close>; afterwards each of the
  8192 pages from \<open>HEAP_START\<close> on translates to a frame of its own, page-aligned, at or above
  1 MiB and in a usable region, no other page's translation has changed, and the global
  allocator owns exactly the mapped range.
\<close>

theorem heap_init_maps:
  assumes docs: "paging_docs c" "regions_ok usable m" "mapper_docs (allocate_frame c usable) translate map_to"
      "mapper_live (frames_remaining usable) translate map_to"
    and st: "frame_alloc st = AbyssFrameAllocator_init m" "4 * 8192 \<le> length (frame_addresses usable m)"
      "\<And>k. k < 8192 \<Longrightarrow> translate (page_table st) (heap_page k) = None"
  shows "\<exists>st' fs. heap_init c (allocate_frame c usable) map_to faf st = Inr (Inr (), st') \<and>
     ALLOCATOR st' = Some (HEAP_START, HEAP_SIZE) \<and> length fs = 8192 \<and> distinct fs \<and>
     (\<forall>k < 8192. translate (page_table st') (heap_page k) = Some (fs ! k)) \<and>
     (\<forall>p. p \<notin> heap_page ` {..<8192} \<longrightarrow> translate (page_table st') p = translate (page_table st) p) \<and>
     (\<forall>f \<in> set fs. f AND mask 12 = 0 \<and> 0x100000 \<le> f \<and>
        (\<exists>r \<in> set m. mr_kind r = usable \<and> mr_start r \<le> f \<and> f < mr_end r))"
proof -
  let ?pages = "map heap_page [0..<8192]"
  obtain st' where run: "heap_init c (allocate_frame c usable) map_to faf st = Inr (Inr (), st')"
    using heap_init_succeeds [OF docs st] .
  then obtain fs where fs: "ALLOCATOR st' = Some (HEAP_START, HEAP_SIZE)" "length fs = 8192" "distinct fs"
      "translate (page_table st') = (translate (page_table st))(?pages [\<mapsto>] fs)"
      "set fs \<subseteq> set (frame_addresses usable m)"
    by (rule heap_init_ok [OF docs(1-3) st(1)])
  have "f AND mask 12 = 0 \<and> 0x100000 \<le> f \<and>
      (\<exists>r \<in> set m. mr_kind r = usable \<and> mr_start r \<le> f \<and> f < mr_end r)" if "f \<in> set fs" for f
    using frame_addresses_set [OF docs(2), of f] fs(5) that by (metis MIN_USABLE_PA_def subsetD)
  with run fs heap_translation [OF fs(2,4)] show ?thesis by blast
qed

text \<open>The simplest mapper, and a machine with 128 MiB of usable memory above 1 MiB.\<close>

definition direct_mapper :: "(u64 \<Rightarrow> u64 option, 's, unit) mapper" where
  "direct_mapper page frame flags fa pt = Inr (Inr (), pt(page \<mapsto> frame), fa)"

lemma direct_mapper_docs:
  "mapper_docs allocate (\<lambda>pt. pt) direct_mapper" "mapper_live n (\<lambda>pt. pt) direct_mapper"
  by (auto simp: mapper_docs_def mapper_live_def direct_mapper_def intro: borrows.intros)

definition big_map :: "bool MemoryRegion list" where
  "big_map = [\<lparr>mr_start = 0x100000, mr_end = 0x8100000, mr_kind = True\<rparr>]"

lemma big_map_ok: "regions_ok True big_map" "length (frame_addresses True big_map) = 32768"
proof -
  show "regions_ok True big_map"
    by (simp add: regions_ok_def big_map_def mask_eq_exp_minus_1)
  have "frame_addresses True big_map = step_by_4096 0x100000 0x8100000"
    using step_by_4096_set(1) [of _ "0x100000" "0x8100000"]
    by (simp add: frame_addresses_def big_map_def MIN_USABLE_PA_def filter_id_conv)
  then show "length (frame_addresses True big_map) = 32768"
    by (simp add: step_by_4096_def step_count_def)
qed

definition big_heap_state :: "(u64 \<Rightarrow> u64 option, bool AbyssFrameAllocator) heap_state" where
  "big_heap_state = \<lparr>page_table = (\<lambda>_. None), frame_alloc = AbyssFrameAllocator_init big_map,
     ALLOCATOR = None, heap_log = []\<rparr>"

theorem heap_init_maps_witness:
  "\<exists>st' fs. heap_init std_paging (allocate_frame std_paging True) direct_mapper () big_heap_state =
       Inr (Inr (), st') \<and> ALLOCATOR st' = Some (HEAP_START, HEAP_SIZE) \<and> distinct fs \<and>
     (\<forall>k < 8192. page_table st' (heap_page k) = Some (fs ! k))"
  using heap_init_maps [OF std_paging_docs big_map_ok(1) direct_mapper_docs, of big_heap_state "()"]
    big_map_ok(2)
  by (auto simp: big_heap_state_def)

text \<open>
  The third predicate about \<open>map_to\<close>: it does not panic, and it asks for at most three frames, one
  for each level of tables below the root.
\<close>

definition mapper_returns :: "('s \<Rightarrow> nat) \<Rightarrow> ('pt, 's, 'e) mapper \<Rightarrow> bool" where
  "mapper_returns calls map_to \<longleftrightarrow>
     (\<forall>page frame flags fa pt. \<exists>r pt' fa'. map_to page frame flags fa pt = Inr (r, pt', fa') \<and> calls fa' \<le> calls fa + 3)"

lemma map_pages_returns:
  assumes docs: "paging_docs c" "mapper_docs (allocate_frame c usable) translate map_to"
    and ret: "mapper_returns (\<lambda>fa. unat (next_frame fa)) map_to"
    and "allocator_inv usable fa" "unat (next_frame fa) + 4 * length pages < 2 ^ 64"
  shows "\<exists>r. map_pages (allocate_frame c usable) map_to faf pages pt fa = Inr r"
  using assms(4-)
proof (induction pages arbitrary: pt fa)
  case (Cons page pages)
  have "next_frame fa \<noteq> - 1" using Cons.prems(2) succ_u64_iff [of "next_frame fa"] by simp
  then obtain frame fa1 where alloc: "allocate_frame c usable fa = Inr (frame, fa1)"
    using allocate_frame_run [OF docs(1) Cons.prems(1)] by simp
  note step = allocate_frame_Inr [OF docs(1) Cons.prems(1) alloc]
  show ?case
  proof (cases frame)
    case None
    with alloc show ?thesis by simp
  next
    case (Some f)
    obtain r pt2 fa2 where mapped: "map_to page f [PRESENT, WRITABLE] fa1 pt = Inr (r, pt2, fa2)"
        "unat (next_frame fa2) \<le> unat (next_frame fa1) + 3"
      using ret unfolding mapper_returns_def by blast
    have "borrows (allocate_frame c usable) fa1 fa2"
      using docs(2) mapped(1) unfolding mapper_docs_def by blast
    then have "memory_map fa2 = memory_map fa" using borrows_memory_map step(1) by metis
    then have "allocator_inv usable fa2" using Cons.prems(1) by (simp add: allocator_inv_def)
    then have "\<exists>r. map_pages (allocate_frame c usable) map_to faf pages pt2 fa2 = Inr r"
      by (rule Cons.IH) (use Cons.prems(2) step(2) mapped(2) in simp)
    then show ?thesis using alloc Some mapped(1) by (cases r) auto
  qed
qed simp

text \<open>
  C28. Too little memory: with fewer than 8192 usable frames, \<open>heap_allocator::init\<close> on a mapper that
  keeps its documentation returns an error, and the global allocator is left as it was, without a
  heap.
\<close>

theorem heap_init_out_of_frames:
  assumes docs: "paging_docs c" "regions_ok usable m" "mapper_docs (allocate_frame c usable) translate map_to"
      "mapper_returns (\<lambda>fa. unat (next_frame fa)) map_to"
    and st: "frame_alloc st = AbyssFrameAllocator_init m" "length (frame_addresses usable m) < 8192"
  shows "\<exists>e st'. heap_init c (allocate_frame c usable) map_to faf st = Inr (Inl e, st') \<and> ALLOCATOR st' = ALLOCATOR st"
proof -
  have "allocator_inv usable (frame_alloc st)" "unat (next_frame (frame_alloc st)) = 0"
    using docs(2) by (simp_all add: st(1) AbyssFrameAllocator_init_def allocator_inv_def)
  then obtain r pt fa where
      "map_pages (allocate_frame c usable) map_to faf (map heap_page [0..<8192]) (page_table st) (frame_alloc st) = Inr (r, pt, fa)"
    using map_pages_returns [OF docs(1,3,4), of "frame_alloc st" "map heap_page [0..<8192]" faf "page_table st"] by auto
  then obtain r st' where run: "heap_init c (allocate_frame c usable) map_to faf st = Inr (r, st')"
    by (cases r) (auto simp: heap_init_def heap_pages_run [OF docs(1)])
  have "r \<noteq> Inr ()"
    using heap_init_ok [OF docs(1-3) st(1), of faf st'] run st(2) by fastforce
  then obtain e where "r = Inl e" by (cases r) auto
  with run show ?thesis by (auto elim: heap_init_Inr [OF docs(1)])
qed

definition small_heap_state :: "(u64 \<Rightarrow> u64 option, bool AbyssFrameAllocator) heap_state" where
  "small_heap_state = big_heap_state\<lparr>frame_alloc := AbyssFrameAllocator_init []\<rparr>"

theorem heap_init_out_of_frames_witness:
  "\<exists>st'. heap_init std_paging (allocate_frame std_paging True) direct_mapper () small_heap_state =
       Inr (Inl (), st') \<and> ALLOCATOR st' = None"
proof -
  have "mapper_returns (\<lambda>fa. unat (next_frame fa)) direct_mapper"
    by (simp add: mapper_returns_def direct_mapper_def)
  from heap_init_out_of_frames [OF std_paging_docs _ direct_mapper_docs(1) this, of True "[]" small_heap_state "()"]
  show ?thesis
    by (simp add: regions_ok_def small_heap_state_def frame_addresses_def big_heap_state_def)
qed

end
