(* ===== verification/Memory.thy ===== *)
theory Memory
  imports Heap_Allocator
begin

text \<open>
  \<^verbatim>\<open>kernel/src/memory/mod.rs\<close>: the offset of the physical memory window, address translation
  by walking the page tables, the memory subsystem's initialisation, and the allocator test.
  Virtual memory is a byte memory \<open>m\<close>; the page tables are read through the window.
\<close>

section \<open>Address translation\<close>

text \<open>\<open>PHYSICAL_MEMORY_OFFSET\<close> is the content of the \<open>Once\<close> cell.\<close>

definition physical_memory_offset :: "u64 option \<Rightarrow> u64 outcome" where
  "physical_memory_offset cell = expect ''PHYSICAL_MEMORY_OFFSET not initialized'' cell"

definition physical_to_virtual :: "paging_crate \<Rightarrow> u64 option \<Rightarrow> u64 \<Rightarrow> u64 outcome" where
  "physical_to_virtual c cell addr =
     and_then (unwrap cell) (\<lambda>phys.
     and_then (add_checked phys addr) (\<lambda>a. VirtAddr_new c a))"

fun walk_tables :: "paging_crate \<Rightarrow> mem \<Rightarrow> u64 \<Rightarrow> nat list \<Rightarrow> u64 \<Rightarrow> u64 option outcome" where
  "walk_tables c m offset [] frame = Inr (Some frame)"
| "walk_tables c m offset (index # indexes) frame =
     and_then (virt_add c offset frame) (\<lambda>virt.
       case entry_frame c (load64 m (virt + 8 * of_nat index)) of
         FrameOk frame \<Rightarrow> walk_tables c m offset indexes frame
       | FrameNotPresent \<Rightarrow> Inr None
       | HugeFrame \<Rightarrow> Inl (ExplicitPanic ''huge pages not supported''))"

definition virtual_to_physical :: "paging_crate \<Rightarrow> mem \<Rightarrow> u64 \<Rightarrow> u64 \<Rightarrow> u64 \<Rightarrow> u64 option outcome" where
  "virtual_to_physical c m cr3 addr offset =
     and_then (walk_tables c m offset [table_index c 4 addr, table_index c 3 addr,
                                       table_index c 2 addr, table_index c 1 addr] cr3) (\<lambda>r.
       case r of
         None \<Rightarrow> Inr None
       | Some frame \<Rightarrow> and_then (phys_add c frame (page_offset c addr)) (\<lambda>a. Inr (Some a)))"

definition virtual_to_physical_current ::
  "paging_crate \<Rightarrow> mem \<Rightarrow> u64 \<Rightarrow> u64 option \<Rightarrow> u64 \<Rightarrow> u64 option outcome" where
  "virtual_to_physical_current c m cr3 cell addr =
     and_then (physical_memory_offset cell) (\<lambda>offset. virtual_to_physical c m cr3 addr offset)"

section \<open>The architecture's translation\<close>

text \<open>
  Four-level translation as the processor performs it on physical memory \<open>pm\<close>, written from the
  architecture manual: bits 47..39, 38..30, 29..21 and 20..12 of the address select the entries, bit 0 of
  an entry is present, bits 51..12 are the next table's or the page's address. Bit 7 is reserved in the
  top level and faults, makes the entry a page of 1 GiB or 2 MiB in the next two levels, and selects a
  memory type (PAT) in the last one, where it has no part in the translation. \<open>None\<close> is a page fault;
  other reserved bits are taken to be clear.
\<close>

definition hw_entry :: "mem \<Rightarrow> u64 \<Rightarrow> u64 \<Rightarrow> nat \<Rightarrow> u64" where
  "hw_entry pm table addr lsb = load64 pm (table + 8 * (take_bit 9 (drop_bit lsb addr)))"

definition hw_page :: "nat \<Rightarrow> u64 \<Rightarrow> u64 \<Rightarrow> u64" where
  "hw_page lsb e addr = (e AND (mask 52 AND NOT (mask lsb))) + (addr AND mask lsb)"

definition hw_base :: "u64 \<Rightarrow> u64" where
  "hw_base e = e AND (mask 52 AND NOT (mask 12))"

fun hw_walk :: "mem \<Rightarrow> u64 \<Rightarrow> nat list \<Rightarrow> u64 \<Rightarrow> u64 option" where
  "hw_walk pm addr [] table = Some (table + (addr AND mask 12))"
| "hw_walk pm addr (lsb # lsbs) table =
     (let e = hw_entry pm table addr lsb in
      if \<not> bit e 0 then None
      else if bit e 7 \<and> lsb = 39 then None
      else if bit e 7 \<and> (lsb = 30 \<or> lsb = 21) then Some (hw_page lsb e addr)
      else hw_walk pm addr lsbs (hw_base e))"

definition hw_translate :: "mem \<Rightarrow> u64 \<Rightarrow> u64 \<Rightarrow> u64 option" where
  "hw_translate pm cr3 addr = hw_walk pm addr [39, 30, 21, 12] cr3"

text \<open>Whether the first entry of the walk with bit 7 set, if any, is at a level of \<open>L\<close>.\<close>

fun bit7_in_walk :: "nat set \<Rightarrow> mem \<Rightarrow> u64 \<Rightarrow> nat list \<Rightarrow> u64 \<Rightarrow> bool" where
  "bit7_in_walk L pm addr [] table = False"
| "bit7_in_walk L pm addr (lsb # lsbs) table =
     (let e = hw_entry pm table addr lsb in
      bit e 0 \<and> (if bit e 7 then lsb \<in> L else bit7_in_walk L pm addr lsbs (hw_base e)))"

definition uses_large_page :: "mem \<Rightarrow> u64 \<Rightarrow> u64 \<Rightarrow> bool" where
  "uses_large_page pm cr3 addr = bit7_in_walk {30, 21} pm addr [39, 30, 21, 12] cr3"

definition has_pat_bit :: "mem \<Rightarrow> u64 \<Rightarrow> u64 \<Rightarrow> bool" where
  "has_pat_bit pm cr3 addr = bit7_in_walk {12} pm addr [39, 30, 21, 12] cr3"

definition has_reserved_bit :: "mem \<Rightarrow> u64 \<Rightarrow> u64 \<Rightarrow> bool" where
  "has_reserved_bit pm cr3 addr = bit7_in_walk {39} pm addr [39, 30, 21, 12] cr3"

text \<open>
  The window: physical memory up to \<open>2 ^ 46\<close> appears at \<open>offset\<close>, within one canonical half; the
  tables of a walk lie inside it.
\<close>

definition window :: "mem \<Rightarrow> mem \<Rightarrow> u64 \<Rightarrow> bool" where
  "window m pm offset \<longleftrightarrow>
     (\<forall>p. unat p < 2 ^ 46 \<longrightarrow>
        unat offset + unat p < 2 ^ 64 \<and> canonical (offset + p) \<and> m (offset + p) = pm p)"

fun tables_below :: "mem \<Rightarrow> u64 \<Rightarrow> nat list \<Rightarrow> u64 \<Rightarrow> bool" where
  "tables_below pm addr [] table = True"
| "tables_below pm addr (lsb # lsbs) table =
     (unat table + 4096 \<le> 2 ^ 46 \<and>
      (let e = hw_entry pm table addr lsb in bit e 0 \<longrightarrow> tables_below pm addr lsbs (hw_base e)))"

lemma unat_take_bit_9: "unat (take_bit 9 (drop_bit n a)) < 512" for a :: u64
  by (simp add: unat_take_bit)

lemma window_load:
  assumes "window m pm offset" "unat table + 4096 \<le> 2 ^ 46" "i < 512"
  shows "load64 m (offset + table + 8 * of_nat i) = load64 pm (table + 8 * of_nat i)"
proof -
  have "m (offset + table + 8 * of_nat i + of_nat k) = pm (table + 8 * of_nat i + of_nat k)" if "k < 8" for k
  proof -
    have "unat (table + 8 * of_nat i + of_nat k) = unat table + 8 * i + k"
      using assms(2,3) that by (simp add: unat_word_ariths unat_of_nat mod_simps)
    then have "unat (table + 8 * of_nat i + of_nat k) < 2 ^ 46" using assms(2,3) that by simp
    then show ?thesis
      using assms(1) by (simp add: window_def add.assoc)
  qed
  then show ?thesis unfolding load_def by (intro arg_cong [where f = word_of_bytes] map_cong) auto
qed

lemma walk_tables_step:
  assumes docs: "paging_docs c" and w: "window m pm offset" and "unat table + 4096 \<le> 2 ^ 46" "1 \<le> l" "l \<le> 4"
  shows "walk_tables c m offset (table_index c l addr # is) table =
    (let e = hw_entry pm table addr (3 + 9 * l) in
     if \<not> bit e 0 then Inr None
     else if bit e 7 then Inl (ExplicitPanic ''huge pages not supported'')
     else walk_tables c m offset is (hw_base e))"
proof -
  have "virt_add c offset table = Inr (offset + table)"
    using w assms(3) by (intro paging_docsD [OF docs]) (auto simp: window_def)
  moreover have "load64 m (offset + table + 8 * of_nat (table_index c l addr)) = hw_entry pm table addr (3 + 9 * l)"
    using window_load [OF w assms(3) unat_take_bit_9] assms(4,5)
    by (simp add: hw_entry_def paging_docsD [OF docs])
  ultimately show ?thesis
    by (simp add: paging_docsD(11) [OF docs] hw_base_def Let_def)
qed

lemma walk_tables_hw:
  assumes docs: "paging_docs c" and w: "window m pm offset"
    and "set ls \<subseteq> {1..4}" "tables_below pm addr (map (\<lambda>l. 3 + 9 * l) ls) table"
  shows "if bit7_in_walk UNIV pm addr (map (\<lambda>l. 3 + 9 * l) ls) table
     then walk_tables c m offset (map (\<lambda>l. table_index c l addr) ls) table = Inl (ExplicitPanic ''huge pages not supported'')
     else (\<exists>r. walk_tables c m offset (map (\<lambda>l. table_index c l addr) ls) table = Inr r \<and>
        hw_walk pm addr (map (\<lambda>l. 3 + 9 * l) ls) table = map_option (\<lambda>f. f + (addr AND mask 12)) r \<and>
        (ls \<noteq> [] \<or> (\<exists>e. table = hw_base e) \<longrightarrow> (\<forall>f. r = Some f \<longrightarrow> (\<exists>e. f = hw_base e))))"
  using assms(3,4)
proof (induction ls arbitrary: table)
  case (Cons l ls)
  let ?e = "hw_entry pm table addr (3 + 9 * l)"
  note step = walk_tables_step [OF docs w, of table l addr "map (\<lambda>l. table_index c l addr) ls"]
  show ?case
  proof (cases "bit ?e 0 \<and> \<not> bit ?e 7")
    case False
    then show ?thesis using Cons.prems step by (auto simp: Let_def)
  next
    case True
    then show ?thesis using Cons.IH [of "hw_base ?e"] Cons.prems step by (auto simp: Let_def split: if_splits)
  qed
qed auto

lemma hw_base_bounds: "unat (hw_base e) + unat (a AND mask 12) < 2 ^ 52"
proof -
  let ?x = "e AND mask 52"
  have "hw_base e = ?x AND NOT (mask 12)" by (simp add: hw_base_def and.assoc)
  then have "unat (hw_base e) = unat ?x - unat ?x mod 2 ^ 12" by (simp only: unat_align_down)
  moreover have "unat ?x < 2 ^ 52" by (simp add: take_bit_eq_mask [symmetric] unat_take_bit)
  then have "unat ?x div 4096 < 2 ^ 40" by (intro less_mult_imp_div_less) simp
  moreover have "unat (a AND mask 12) < 2 ^ 12" by (simp add: take_bit_eq_mask [symmetric] unat_take_bit)
  ultimately show ?thesis by (simp add: minus_mod_eq_div_mult)
qed

text \<open>The three meanings of bit 7 and what the processor does with each.\<close>

lemma bit7_cases:
  "bit7_in_walk UNIV pm addr [39, 30, 21, 12] cr3 \<longleftrightarrow>
     uses_large_page pm cr3 addr \<or> has_pat_bit pm cr3 addr \<or> has_reserved_bit pm cr3 addr"
  by (simp add: uses_large_page_def has_pat_bit_def has_reserved_bit_def Let_def)

lemma bit7_translation:
  "uses_large_page pm cr3 addr \<Longrightarrow> hw_translate pm cr3 addr \<noteq> None"
  "has_pat_bit pm cr3 addr \<Longrightarrow> hw_translate pm cr3 addr \<noteq> None"
  "has_reserved_bit pm cr3 addr \<Longrightarrow> hw_translate pm cr3 addr = None"
  by (auto simp: uses_large_page_def has_pat_bit_def has_reserved_bit_def hw_translate_def Let_def split: if_splits)

text \<open>
  C10. The software page walk against the processor's: when physical memory is visible through the window
  and the tables lie inside it, \<open>virtual_to_physical\<close> panics exactly when an entry of the walk has bit 7
  set, and otherwise returns exactly the processor's translation, \<open>None\<close> exactly when the processor would
  fault. Bit 7 is a large page or the reserved bit of the top level, for which a panic is meant, but also
  the PAT bit of an ordinary 4 KiB page, which the processor translates.
\<close>

theorem virtual_to_physical_correct:
  assumes "paging_docs c" "window m pm offset" "tables_below pm addr [39, 30, 21, 12] cr3"
  shows "virtual_to_physical c m cr3 addr offset =
     (if uses_large_page pm cr3 addr \<or> has_pat_bit pm cr3 addr \<or> has_reserved_bit pm cr3 addr
      then Inl (ExplicitPanic ''huge pages not supported'')
      else Inr (hw_translate pm cr3 addr)) \<and>
    (uses_large_page pm cr3 addr \<or> has_pat_bit pm cr3 addr \<longrightarrow> hw_translate pm cr3 addr \<noteq> None) \<and>
    (has_reserved_bit pm cr3 addr \<longrightarrow> hw_translate pm cr3 addr = None)"
proof -
  note walk = walk_tables_hw [OF assms(1,2), of "[4, 3, 2, 1]" addr cr3]
  have "virtual_to_physical c m cr3 addr offset =
     (if bit7_in_walk UNIV pm addr [39, 30, 21, 12] cr3 then Inl (ExplicitPanic ''huge pages not supported'')
      else Inr (hw_translate pm cr3 addr))"
  proof (cases "bit7_in_walk UNIV pm addr [39, 30, 21, 12] cr3")
    case True
    then show ?thesis using walk assms(3) by (simp add: virtual_to_physical_def del: bit7_in_walk.simps)
  next
    case False
    then obtain r where r: "walk_tables c m offset (map (\<lambda>l. table_index c l addr) [4, 3, 2, 1]) cr3 = Inr r"
      "hw_translate pm cr3 addr = map_option (\<lambda>f. f + (addr AND mask 12)) r" "\<forall>f. r = Some f \<longrightarrow> (\<exists>e. f = hw_base e)"
      using walk assms(3) by (auto simp: hw_translate_def simp del: bit7_in_walk.simps hw_walk.simps walk_tables.simps tables_below.simps)
    show ?thesis
    proof (cases r)
      case None
      then show ?thesis using r False by (simp add: virtual_to_physical_def del: bit7_in_walk.simps)
    next
      case (Some f)
      then have "phys_add c f (addr AND mask 12) = Inr (f + (addr AND mask 12))"
        using r(3) hw_base_bounds [of _ addr] by (intro paging_docsD [OF assms(1)]) auto
      then show ?thesis using r Some False
        by (simp add: virtual_to_physical_def paging_docsD(10) [OF assms(1)] del: bit7_in_walk.simps)
    qed
  qed
  then show ?thesis unfolding bit7_cases using bit7_translation [of pm cr3 addr] by auto
qed

text \<open>A machine with one page table of each level, mapping the page at \<open>0x1000\<close> to \<open>0x9000\<close>.\<close>

definition example_tables :: mem where
  "example_tables = store64 (store64 (store64 (store64 (\<lambda>_. 0) 0x2000 0x3001) 0x3000 0x4001) 0x4000 0x5001) 0x5008 0x9003"

lemma example_tables_entries:
  "load64 example_tables 0x2000 = 0x3001" "load64 example_tables 0x3000 = 0x4001"
  "load64 example_tables 0x4000 = 0x5001" "load64 example_tables 0x5008 = 0x9003"
  by (simp_all add: example_tables_def load_store_same load_store_apart apart_def)

lemma identity_window: "window m m 0"
proof -
  have "canonical p" if "unat p < 2 ^ 46" for p
  proof -
    have "unat (drop_bit 47 p) = 0"
      using that by (simp only: unat_drop_bit_eq) (simp add: drop_bit_eq_div)
    then show ?thesis by (simp add: canonical_def unat_eq_0)
  qed
  then show ?thesis by (simp add: window_def)
qed

theorem virtual_to_physical_correct_witness:
  "virtual_to_physical std_paging example_tables 0x2000 0x1234 0 = Inr (Some 0x9234)"
proof -
  have walk: "tables_below example_tables 0x1234 [39, 30, 21, 12] 0x2000"
      "\<not> uses_large_page example_tables 0x2000 0x1234" "\<not> has_pat_bit example_tables 0x2000 0x1234"
      "\<not> has_reserved_bit example_tables 0x2000 0x1234"
      "hw_translate example_tables 0x2000 0x1234 = Some 0x9234"
    by (simp_all add: uses_large_page_def has_pat_bit_def has_reserved_bit_def hw_translate_def hw_entry_def hw_base_def
        example_tables_entries mask_eq_exp_minus_1 bit_simps Let_def)
  show ?thesis
    using virtual_to_physical_correct [OF std_paging_docs identity_window walk(1)] walk(2-5) by simp
qed

end
