(* ===== verification/Memory_Init.thy ===== *)
theory Memory_Init
  imports Memory
begin

text \<open>
  \<open>memory::init\<close> and the allocator test of \<^verbatim>\<open>kernel/src/memory/mod.rs\<close>. In the test, \<open>grant n\<close>
  tells whether the global allocator serves a request of \<open>n\<close> bytes; a refused request ends in the
  allocation error handler.
\<close>

section \<open>memory::init\<close>

record ('pt, 's) memory_state =
  PHYSICAL_MEMORY_OFFSET :: "u64 option"
  heap :: "('pt, 's) heap_state"
  mem_log :: "log_record list"

text \<open>\<open>Once::call_once\<close> stores the value of its first call.\<close>

definition call_once :: "u64 option \<Rightarrow> u64 \<Rightarrow> u64 option" where
  "call_once cell v = (case cell of None \<Rightarrow> Some v | Some w \<Rightarrow> Some w)"

definition memory_init ::
  "paging_crate \<Rightarrow> 'k \<Rightarrow> ('k \<Rightarrow> fmt_arg) \<Rightarrow> ('k BootInfo \<Rightarrow> fmt_arg) \<Rightarrow> (u64 \<times> u64 \<Rightarrow> 'pt)
     \<Rightarrow> ('pt, 'k AbyssFrameAllocator, 'e) mapper \<Rightarrow> 'e \<Rightarrow> mem \<Rightarrow> u64 \<Rightarrow> 'k BootInfo \<Rightarrow> u64 option
     \<Rightarrow> ('pt, 'k AbyssFrameAllocator) memory_state outcome" where
  "memory_init c usable show_kind show_info new_table map_to faf m cr3 boot_info cell =
     and_then (expect ''Physical memory offset not found'' (physical_memory_offset_opt boot_info)) (\<lambda>off.
     and_then (VirtAddr_new c off) (\<lambda>offset.
     let cell = call_once cell offset in
     and_then (page_allocator_init c show_kind show_info m cr3 boot_info) (\<lambda>(table, frame_allocator, logs).
     and_then (heap_init c (allocate_frame c usable) map_to faf
                \<lparr>page_table = new_table table, frame_alloc = frame_allocator, ALLOCATOR = None, heap_log = []\<rparr>)
       (\<lambda>(_, h). Inr \<lparr>PHYSICAL_MEMORY_OFFSET = cell, heap = h, mem_log = logs @ heap_log h\<rparr>))))"

lemma memory_init_returns:
  assumes docs: "paging_docs c" "regions_ok usable (memory_regions bi)" "mapper_docs (allocate_frame c usable) translate map_to"
      "mapper_live (frames_remaining usable) translate map_to"
    and bi: "physical_memory_offset_opt bi = Some off" "canonical off" "unat off + unat cr3 < 2 ^ 64"
      "canonical (off + cr3)" "log_regions c show_kind (memory_regions bi) = Inr logs"
      "4 * 8192 \<le> length (frame_addresses usable (memory_regions bi))"
    and unmapped: "\<And>k. k < 8192 \<Longrightarrow> translate (new_table (off + cr3, off)) (heap_page k) = None"
  obtains st where "memory_init c usable show_kind show_info new_table map_to faf m cr3 bi None = Inr st"
    "PHYSICAL_MEMORY_OFFSET st = Some off" "ALLOCATOR (heap st) = Some (HEAP_START, HEAP_SIZE)"
proof -
  let ?h = "\<lparr>page_table = new_table (off + cr3, off), frame_alloc = AbyssFrameAllocator_init (memory_regions bi),
    ALLOCATOR = None, heap_log = []\<rparr>"
  obtain h where run: "heap_init c (allocate_frame c usable) map_to faf ?h = Inr (Inr (), h)"
    by (rule heap_init_succeeds [OF docs, of ?h]) (use bi(6) unmapped in simp_all)
  have "ALLOCATOR h = Some (HEAP_START, HEAP_SIZE)"
    by (rule heap_init_ok [OF docs(1-3) _ run]) simp_all
  moreover have "VirtAddr_new c off = Inr off" "virt_add c off cr3 = Inr (off + cr3)"
    using bi by (auto intro: paging_docsD [OF docs(1)])
  ultimately show thesis
    using that run bi(1,5)
    by (simp add: memory_init_def page_allocator_init_def active_level_4_table_def call_once_def Let_def)
qed

text \<open>
  \<open>memory::init\<close> hides a failed heap initialisation: on a machine whose memory map has no
  usable frame it returns normally, with the physical memory offset set and the global allocator
  still empty.
\<close>

theorem memory_init_hides_heap_failure:
  assumes docs: "paging_docs c"
    and bi: "physical_memory_offset_opt bi = Some off" "canonical off" "unat off + unat cr3 < 2 ^ 64"
      "canonical (off + cr3)" "frame_addresses usable (memory_regions bi) = []"
      "\<exists>logs. log_regions c show_kind (memory_regions bi) = Inr logs"
  shows "\<exists>st. memory_init c usable show_kind show_info new_table map_to faf m cr3 bi None = Inr st \<and>
     PHYSICAL_MEMORY_OFFSET st = Some off \<and> ALLOCATOR (heap st) = None"
proof -
  obtain logs where logs: "log_regions c show_kind (memory_regions bi) = Inr logs" using bi(6) by blast
  have off: "VirtAddr_new c off = Inr off" "virt_add c off cr3 = Inr (off + cr3)"
    using bi by (auto intro: paging_docsD [OF docs])
  have pages: "map heap_page [0..<8192] = heap_page 0 # map heap_page [1..<8192]"
    by (subst upt_rec) simp
  have empty: "allocate_frame c usable (AbyssFrameAllocator_init (memory_regions bi)) =
      Inr (None, (AbyssFrameAllocator_init (memory_regions bi))\<lparr>next_frame := 1\<rparr>)"
    by (simp add: allocate_frame_def AbyssFrameAllocator_init_def bi(5) add_checked_def)
  show ?thesis
    by (simp add: memory_init_def page_allocator_init_def active_level_4_table_def bi(1) off logs
        heap_init_def heap_pages_run [OF docs] pages empty call_once_def Let_def)
qed

theorem memory_init_hides_heap_failure_witness:
  "\<exists>st. memory_init std_paging True (\<lambda>_. ArgU64 0) (\<lambda>_. ArgU64 0) (\<lambda>_ _. None) direct_mapper () (\<lambda>_. 0) 0x1000
          \<lparr>physical_memory_offset_opt = Some 0xFFFF800000000000,
           memory_regions = [\<lparr>mr_start = 0, mr_end = 0x9F000, mr_kind = True\<rparr>]\<rparr> None = Inr st \<and>
        ALLOCATOR (heap st) = None"
proof -
  have "\<not> MIN_USABLE_PA \<le> a" if "a \<in> set (step_by_4096 0 0x9F000)" for a
    using step_by_4096_set(2) [OF that] by (simp add: MIN_USABLE_PA_def word_le_nat_alt word_less_nat_alt)
  then have "frame_addresses True [\<lparr>mr_start = 0, mr_end = 0x9F000, mr_kind = True\<rparr>] = []"
    by (simp add: frame_addresses_def filter_empty_conv)
  then show ?thesis
    using memory_init_hides_heap_failure [OF std_paging_docs, of "\<lparr>physical_memory_offset_opt = Some 0xFFFF800000000000,
           memory_regions = [\<lparr>mr_start = 0, mr_end = 0x9F000, mr_kind = True\<rparr>]\<rparr>" "0xFFFF800000000000" "0x1000" True
           "\<lambda>_. ArgU64 0" "\<lambda>_. ArgU64 0" "\<lambda>_ _. None" direct_mapper "()" "\<lambda>_. 0"]
    by (auto simp: canonical_def mask_eq_exp_minus_1 std_paging_def sub_checked_def)
qed

section \<open>The allocator test\<close>

definition vec_alloc :: "(nat \<Rightarrow> bool) \<Rightarrow> u8 \<Rightarrow> nat \<Rightarrow> u8 list outcome" where
  "vec_alloc grant c n = (if grant n then Inr (replicate n c) else Inl AllocationError)"

partial_function (option) alloc_pass_loop ::
  "(nat \<Rightarrow> bool) \<Rightarrow> nat \<Rightarrow> nat \<Rightarrow> u8 list list \<Rightarrow> u8 list list outcome option" where
  "alloc_pass_loop grant delta base items =
     (case vec_alloc grant (of_nat (delta mod 256)) (base + delta) of
        Inl e \<Rightarrow> Some (Inl e)
      | Inr a \<Rightarrow>
          (if 512 * 1024 \<le> base then Some (Inr (items @ [a]))
           else alloc_pass_loop grant delta (base * 2) (items @ [a])))"

definition alloc_pass :: "(nat \<Rightarrow> bool) \<Rightarrow> nat \<Rightarrow> u8 list list outcome option" where
  "alloc_pass grant delta = alloc_pass_loop grant delta 32 []"

definition vec_remove :: "'a list \<Rightarrow> nat \<Rightarrow> ('a \<times> 'a list) outcome" where
  "vec_remove xs j = (if j < length xs then Inr (xs ! j, take j xs @ drop (Suc j) xs) else Inl IndexOutOfBounds)"

text \<open>\<open>for j in (0..total).rev()\<close>, with \<open>total\<close> indices left.\<close>

fun free_pass_loop :: "u8 \<Rightarrow> nat \<Rightarrow> u8 list list \<Rightarrow> u8 list list outcome" where
  "free_pass_loop delta 0 items = Inr items"
| "free_pass_loop delta (Suc j) items =
     (if j mod 2 = 0 then
        and_then (vec_remove items j) (\<lambda>(ret, items).
        and_then (vec_get ret 0) (\<lambda>first.
        and_then (ensure AssertFailed (delta = first)) (\<lambda>_.
        and_then (vec_get ret (length ret - 1)) (\<lambda>last.
        and_then (ensure AssertFailed (delta = last)) (\<lambda>_.
          free_pass_loop delta j items)))))
      else free_pass_loop delta j items)"

definition free_pass :: "u8 list list \<Rightarrow> u8 \<Rightarrow> u8 list list outcome" where
  "free_pass items delta = free_pass_loop delta (length items) items"

text \<open>The body of \<open>alloc_test\<close> for \<open>i in is\<close>; \<open>append\<close> empties its argument.\<close>

fun alloc_test_loop ::
  "(nat \<Rightarrow> bool) \<Rightarrow> nat list \<Rightarrow> u8 list list \<Rightarrow> log_record list \<Rightarrow> (u8 list list \<times> log_record list) outcome option" where
  "alloc_test_loop grant [] pool logs = Some (Inr (pool, logs))"
| "alloc_test_loop grant (i # is) pool logs =
     (case alloc_pass grant i of
        None \<Rightarrow> None
      | Some (Inl e) \<Rightarrow> Some (Inl e)
      | Some (Inr items) \<Rightarrow>
          (case free_pass items (of_nat i) of
             Inl e \<Rightarrow> Some (Inl e)
           | Inr items \<Rightarrow>
               (let pool = pool @ items; items = [] :: u8 list list in
                case ensure AssertFailed (length items = 0) of
                  Inl e \<Rightarrow> Some (Inl e)
                | Inr _ \<Rightarrow> alloc_test_loop grant is pool (logs @ [info ''Indicator: {}'' [ArgUsize i]]))))"

definition alloc_test :: "(nat \<Rightarrow> bool) \<Rightarrow> (u8 list list \<times> log_record list) outcome option" where
  "alloc_test grant =
     (case alloc_test_loop grant [0..<8] [] [info ''Running bumb tests...'' []] of
        Some (Inr (pool, logs)) \<Rightarrow> Some (Inr (pool, logs @ [info ''Bumb tests run OK!'' []]))
      | r \<Rightarrow> r)"

lemma alloc_pass_run:
  assumes "\<forall>n \<le> 524288 + d. grant n"
  shows "alloc_pass grant d =
     Some (Inr (map (\<lambda>k. replicate (32 * 2 ^ k + d) (of_nat (d mod 256))) [0..<15]))"
proof -
  have step: "alloc_pass_loop grant d base items =
      (if 512 * 1024 \<le> base then Some (Inr (items @ [replicate (base + d) (of_nat (d mod 256))]))
       else alloc_pass_loop grant d (base * 2) (items @ [replicate (base + d) (of_nat (d mod 256))]))"
    if "base \<le> 524288" for base items
    using assms that by (subst alloc_pass_loop.simps) (simp add: vec_alloc_def)
  have "alloc_pass_loop grant d (32 * 2 ^ j) (map (\<lambda>k. replicate (32 * 2 ^ k + d) (of_nat (d mod 256))) [0..<j]) =
      Some (Inr (map (\<lambda>k. replicate (32 * 2 ^ k + d) (of_nat (d mod 256))) [0..<15]))" if "j \<le> 14" for j
    using that
  proof (induction "14 - j" arbitrary: j)
    case 0
    then have "j = 14" by simp
    then show ?case by (simp add: step upt_rec)
  next
    case (Suc n)
    then have "2 ^ j \<le> (2::nat) ^ 13" by (intro power_increasing) auto
    then have "\<not> 512 * 1024 \<le> 32 * (2::nat) ^ j" "32 * (2::nat) ^ j \<le> 524288" by simp_all
    then show ?case
      using Suc.hyps(1) [of "Suc j"] Suc.hyps(2) by (subst step) (simp_all add: mult.commute mult.left_commute)
  qed
  from this [of 0] show ?thesis by (simp add: alloc_pass_def)
qed

text \<open>What \<open>free_pass\<close> keeps: the items at odd positions.\<close>

definition odd_items :: "'a list \<Rightarrow> 'a list" where
  "odd_items xs = nths xs {j. odd j}"

lemma length_odd_items: "length (odd_items xs) = length xs div 2"
  unfolding odd_items_def by (induction xs rule: rev_induct) (auto simp: nths_append elim: oddE)

lemma free_pass_loop_run:
  assumes "n \<le> length items" "\<forall>x \<in> set items. x \<noteq> [] \<and> hd x = delta \<and> last x = delta"
  shows "free_pass_loop delta n items = Inr (odd_items (take n items) @ drop n items)"
  using assms
proof (induction n arbitrary: items)
  case 0
  then show ?case by (simp add: odd_items_def)
next
  case (Suc n)
  let ?rest = "take n items @ drop (Suc n) items"
  have x: "items ! n \<noteq> []" "hd (items ! n) = delta" "last (items ! n) = delta" using Suc.prems by auto
  then have ends: "items ! n ! 0 = delta" "items ! n ! (length (items ! n) - Suc 0) = delta"
    by (simp_all add: hd_conv_nth last_conv_nth)
  have take: "take (Suc n) items = take n items @ [items ! n]"
    using Suc.prems(1) by (simp add: take_Suc_conv_app_nth)
  show ?case
  proof (cases "even n")
    case True
    have "free_pass_loop delta n ?rest = Inr (odd_items (take n ?rest) @ drop n ?rest)"
      using Suc.prems by (intro Suc.IH) (auto dest: in_set_takeD in_set_dropD)
    then show ?thesis
      using True x(1) ends Suc.prems(1)
      by (simp add: vec_remove_def even_iff_mod_2_eq_zero [symmetric] take odd_items_def nths_append)
  next
    case False
    then show ?thesis
      using Suc.IH [OF Suc_leD [OF Suc.prems(1)] Suc.prems(2)] Suc.prems(1)
      by (simp add: even_iff_mod_2_eq_zero [symmetric] take odd_items_def nths_append Cons_nth_drop_Suc)
  qed
qed

lemma free_pass_run:
  assumes "\<forall>x \<in> set items. x \<noteq> [] \<and> hd x = delta \<and> last x = delta"
  shows "free_pass items delta = Inr (odd_items items)"
  using free_pass_loop_run [of "length items" items delta] assms by (simp add: free_pass_def)

lemma alloc_test_loop_run:
  assumes "\<forall>n \<le> 524295. grant n" "set is \<subseteq> {..<8}"
  shows "\<exists>pool'. alloc_test_loop grant is pool logs =
      Some (Inr (pool @ pool', logs @ map (\<lambda>i. info ''Indicator: {}'' [ArgUsize i]) is)) \<and>
    length pool' = 7 * length is"
  using assms(2)
proof (induction "is" arbitrary: pool logs)
  case (Cons i "is")
  let ?items = "map (\<lambda>k. replicate (32 * 2 ^ k + i) (of_nat (i mod 256) :: u8)) [0..<15]"
  have pass: "alloc_pass grant i = Some (Inr ?items)"
    using assms(1) Cons.prems by (intro alloc_pass_run) auto
  have free: "free_pass ?items (of_nat i) = Inr (odd_items ?items)"
    using Cons.prems by (intro free_pass_run) auto
  have len: "length (odd_items ?items) = 7"
    by (simp add: length_odd_items)
  then obtain kept where kept: "free_pass ?items (of_nat i) = Inr kept" "length kept = 7"
    using free by simp
  let ?log = "info ''Indicator: {}'' [ArgUsize i]"
  have "set is \<subseteq> {..<8}" using Cons.prems by simp
  from Cons.IH [OF this, of "pool @ kept" "logs @ [?log]"] show ?case
  proof (elim exE conjE)
    fix pool' assume "alloc_test_loop grant is (pool @ kept) (logs @ [?log]) =
        Some (Inr ((pool @ kept) @ pool', (logs @ [?log]) @ map (\<lambda>i. info ''Indicator: {}'' [ArgUsize i]) is))"
      "length pool' = 7 * length is"
    then show ?thesis
      using kept by (intro exI [of _ "kept @ pool'"]) (simp add: pass del: upt_rec_numeral)
  qed
qed simp

lemma alloc_test_run:
  assumes "\<forall>n \<le> 524295. grant n"
  shows "\<exists>pool. alloc_test grant =
     Some (Inr (pool, info ''Running bumb tests...'' [] #
                      map (\<lambda>i. info ''Indicator: {}'' [ArgUsize i]) [0..<8] @ [info ''Bumb tests run OK!'' []])) \<and>
     length pool = 56"
proof -
  obtain pool where "alloc_test_loop grant [0..<8] [] [info ''Running bumb tests...'' []] =
      Some (Inr (pool, [info ''Running bumb tests...'' []] @ map (\<lambda>i. info ''Indicator: {}'' [ArgUsize i]) [0..<8]))"
      "length pool = 56"
    using alloc_test_loop_run [OF assms, of "[0..<8]" "[]" "[info ''Running bumb tests...'' []]"]
    by (auto simp: atLeast0LessThan)
  then show ?thesis by (simp add: alloc_test_def del: upt_rec_numeral)
qed

text \<open>
  C30. The allocator test passes: when the allocator serves every request of up to 512 KiB + 7 bytes,
  the allocation loop of each pass ends, no index is out of range, no assertion fails, 56
  blocks are kept alive to the end, and the eight indicators and the final message are logged.
\<close>

theorem alloc_test_passes:
  assumes "\<forall>n \<le> 524295. grant n"
  shows "\<exists>pool. alloc_test grant =
     Some (Inr (pool, info ''Running bumb tests...'' [] #
                      map (\<lambda>i. info ''Indicator: {}'' [ArgUsize i]) [0..<8] @ [info ''Bumb tests run OK!'' []])) \<and>
     length pool = 56"
  using assms by (rule alloc_test_run)

theorem alloc_test_passes_witness: "\<exists>pool logs. alloc_test (\<lambda>_. True) = Some (Inr (pool, logs)) \<and> length pool = 56"
  using alloc_test_passes [of "\<lambda>_. True"] by blast

end
