(* ===== verification/Port_Io.thy ===== *)
theory Port_Io
  imports Prelude
begin

text \<open>
  Port-mapped devices. \<open>Port<T>::read\<close> and \<open>write\<close> are the processor's \<open>in\<close> and \<open>out\<close>
  instructions; what answers them is hardware. A machine's devices are a record of functions on
  a device state \<open>'d\<close>, an argument of every definition that does port I/O. The properties
  name what they rely on: \<open>pci_docs\<close> is configuration mechanism #1 of the PCI specification,
  and \<open>recording\<close> are devices that keep the list of all accesses.
\<close>

record 'd ports =
  in8 :: "u16 \<Rightarrow> 'd \<Rightarrow> u8 \<times> 'd"
  in16 :: "u16 \<Rightarrow> 'd \<Rightarrow> u16 \<times> 'd"
  in32 :: "u16 \<Rightarrow> 'd \<Rightarrow> u32 \<times> 'd"
  out8 :: "u16 \<Rightarrow> u8 \<Rightarrow> 'd \<Rightarrow> 'd"
  out16 :: "u16 \<Rightarrow> u16 \<Rightarrow> 'd \<Rightarrow> 'd"
  out32 :: "u16 \<Rightarrow> u32 \<Rightarrow> 'd \<Rightarrow> 'd"

section \<open>PCI configuration space\<close>

text \<open>
  A write to \<open>0xCF8\<close> latches an address, an access to \<open>0xCFC\<close> reaches the configuration register
  at that address. \<open>config d\<close> is the configuration space by address, \<open>plain a\<close> says that the
  register at \<open>a\<close> stores what is written to it.
\<close>

definition pci_docs ::
  "'d ports \<Rightarrow> ('d \<Rightarrow> u32) \<Rightarrow> ('d \<Rightarrow> u32 \<Rightarrow> u32) \<Rightarrow> (u32 \<Rightarrow> bool) \<Rightarrow> bool" where
  "pci_docs io latch config plain \<longleftrightarrow>
     (\<forall>a d. latch (out32 io 0xCF8 a d) = a \<and> config (out32 io 0xCF8 a d) = config d) \<and>
     (\<forall>d. fst (in32 io 0xCFC d) = config d (latch d)) \<and>
     (\<forall>d. config (snd (in32 io 0xCFC d)) = config d) \<and>
     (\<forall>v d. plain (latch d) \<longrightarrow> config (out32 io 0xCFC v d) = (config d)(latch d := v))"

text \<open>The simplest such device: a latch and a memory of registers.\<close>

definition pci_device :: "(u32 \<times> (u32 \<Rightarrow> u32)) ports" where
  "pci_device = \<lparr>
     in8 = (\<lambda>p d. (0xFF, d)), in16 = (\<lambda>p d. (0xFFFF, d)),
     in32 = (\<lambda>p d. (if p = 0xCFC then snd d (fst d) else 0xFFFFFFFF, d)),
     out8 = (\<lambda>p v d. d), out16 = (\<lambda>p v d. d),
     out32 = (\<lambda>p v d. if p = 0xCF8 then (v, snd d)
                      else if p = 0xCFC then (fst d, (snd d)(fst d := v)) else d)\<rparr>"

lemma pci_device_docs: "pci_docs pci_device fst snd (\<lambda>_. True)"
  by (simp add: pci_docs_def pci_device_def)

section \<open>Recording devices\<close>

datatype io_access =
    Out8 u16 u8 | Out16 u16 u16 | Out32 u16 u32
  | In8 u16 | In16 u16 | In32 u16

text \<open>Every access is appended to a trace; reads are answered from the trace so far.\<close>

definition recording :: "(io_access list \<Rightarrow> u16 \<Rightarrow> u32) \<Rightarrow> io_access list ports" where
  "recording answer = \<lparr>
     in8 = (\<lambda>p d. (ucast (answer d p), d @ [In8 p])),
     in16 = (\<lambda>p d. (ucast (answer d p), d @ [In16 p])),
     in32 = (\<lambda>p d. (answer d p, d @ [In32 p])),
     out8 = (\<lambda>p v d. d @ [Out8 p v]), out16 = (\<lambda>p v d. d @ [Out16 p v]),
     out32 = (\<lambda>p v d. d @ [Out32 p v])\<rparr>"

lemma recording_simps [simp]:
  "in8 (recording answer) p d = (ucast (answer d p), d @ [In8 p])"
  "in16 (recording answer) p d = (ucast (answer d p), d @ [In16 p])"
  "in32 (recording answer) p d = (answer d p, d @ [In32 p])"
  "out8 (recording answer) p b d = d @ [Out8 p b]"
  "out16 (recording answer) p h d = d @ [Out16 p h]"
  "out32 (recording answer) p w d = d @ [Out32 p w]"
  by (simp_all add: recording_def)

end
