(* ===== verification/Pcie.thy ===== *)
theory Pcie
  imports Port_Io Logging
begin

text \<open>
  The PCI bus scan, \<^verbatim>\<open>kernel/src/pcie.rs\<close>: reading configuration registers, the class code
  table, and the enumeration that logs every function it finds. The scan is proved equal to a
  specification over the configuration space alone.
\<close>

section \<open>The scan\<close>

definition pci_class_code_description :: "u8 \<Rightarrow> u8 \<Rightarrow> string" where
  "pci_class_code_description class_code subclass =
     (if (class_code, subclass) = (0x00, 0x00) then ''Unclassified: Non-VGA compatible device''
      else if (class_code, subclass) = (0x00, 0x01) then ''Unclassified: VGA compatible device''
      else if (class_code, subclass) = (0x01, 0x00) then ''Mass Storage: SCSI''
      else if (class_code, subclass) = (0x01, 0x01) then ''Mass Storage: IDE''
      else if (class_code, subclass) = (0x01, 0x06) then ''Mass Storage: SATA''
      else if (class_code, subclass) = (0x01, 0x80) then ''Mass Storage: Other''
      else if (class_code, subclass) = (0x02, 0x00) then ''Network: Ethernet controller''
      else if (class_code, subclass) = (0x03, 0x00) then ''Display: VGA compatible controller''
      else if (class_code, subclass) = (0x03, 0x01) then ''Display: XGA controller''
      else if (class_code, subclass) = (0x03, 0x80) then ''Display: Other''
      else if (class_code, subclass) = (0x06, 0x00) then ''Bridge: Host bridge''
      else if (class_code, subclass) = (0x06, 0x01) then ''Bridge: ISA bridge''
      else if (class_code, subclass) = (0x06, 0x04) then ''Bridge: PCI-to-PCI bridge''
      else if (class_code, subclass) = (0x06, 0x80) then ''Bridge: Other bridge device''
      else ''Unknown device'')"

definition pci_address_word :: "u8 \<Rightarrow> u8 \<Rightarrow> u8 \<Rightarrow> u8 \<Rightarrow> u32" where
  "pci_address_word bus device function offset =
     push_bit 31 1 OR push_bit 16 (ucast bus) OR push_bit 11 (ucast device) OR
     push_bit 8 (ucast function) OR (ucast offset AND 0xFC)"

definition pci_config_read :: "'d ports \<Rightarrow> u8 \<Rightarrow> u8 \<Rightarrow> u8 \<Rightarrow> u8 \<Rightarrow> 'd \<Rightarrow> u32 \<times> 'd" where
  "pci_config_read io bus device function offset d =
     (let address = pci_address_word bus device function offset;
          d = out32 io 0xCF8 address d
      in in32 io 0xCFC d)"

definition pci_record :: "u8 \<Rightarrow> u8 \<Rightarrow> u8 \<Rightarrow> u32 \<Rightarrow> u32 \<Rightarrow> log_record" where
  "pci_record bus device function vendor_device class_reg =
     (let vendor_id = ucast (vendor_device AND 0xFFFF) :: u16;
          device_id = ucast (drop_bit 16 vendor_device AND 0xFFFF) :: u16;
          class_code = ucast (drop_bit 24 class_reg AND 0xFF) :: u8;
          subclass = ucast (drop_bit 16 class_reg AND 0xFF) :: u8;
          prog_if = ucast (drop_bit 8 class_reg AND 0xFF) :: u8
      in debug ''PCI: Bus {:02X}, Dev {:02X}, Func {:X} => Vendor: {:04X}, Device: {:04X}, Class: {:02X}:{:02X}, ProgIF: {:02X} ({})''
           [ArgU8 bus, ArgU8 device, ArgU8 function, ArgU16 vendor_id, ArgU16 device_id, ArgU8 class_code,
            ArgU8 subclass, ArgU8 prog_if, ArgStr (pci_class_code_description class_code subclass)])"

text \<open>The innermost loop, from the functions still to be looked at.\<close>

fun scan_functions :: "'d ports \<Rightarrow> u8 \<Rightarrow> u8 \<Rightarrow> u8 list \<Rightarrow> 'd \<Rightarrow> log_record list \<times> 'd" where
  "scan_functions io bus device [] d = ([], d)"
| "scan_functions io bus device (function # functions) d =
     (let (vendor_device, d) = pci_config_read io bus device function 0x00 d in
      if vendor_device = 0xFFFFFFFF then scan_functions io bus device functions d
      else
        (let (class_reg, d) = pci_config_read io bus device function 0x08 d;
             (header_type_reg, d) = pci_config_read io bus device function 0x0C d;
             header_type = ucast (drop_bit 16 header_type_reg AND 0xFF) :: u8;
             r = pci_record bus device function vendor_device class_reg
         in if function = 0 \<and> header_type AND 0x80 = 0 then ([r], d)
            else (let (rs, d) = scan_functions io bus device functions d in (r # rs, d))))"

fun scan_devices :: "'d ports \<Rightarrow> u8 \<Rightarrow> u8 list \<Rightarrow> 'd \<Rightarrow> log_record list \<times> 'd" where
  "scan_devices io bus [] d = ([], d)"
| "scan_devices io bus (device # devices) d =
     (let (rs, d) = scan_functions io bus device (map of_nat [0..<8]) d;
          (rs', d) = scan_devices io bus devices d
      in (rs @ rs', d))"

fun scan_buses :: "'d ports \<Rightarrow> u8 list \<Rightarrow> 'd \<Rightarrow> log_record list \<times> 'd" where
  "scan_buses io [] d = ([], d)"
| "scan_buses io (bus # buses) d =
     (let (rs, d) = scan_devices io bus (map of_nat [0..<32]) d;
          (rs', d) = scan_buses io buses d
      in (rs @ rs', d))"

definition enumerate_pci :: "'d ports \<Rightarrow> 'd \<Rightarrow> log_record list \<times> 'd" where
  "enumerate_pci io d = scan_buses io (map of_nat [0..<256]) d"

definition pcie_init :: "'d ports \<Rightarrow> 'd \<Rightarrow> log_record list \<times> 'd" where
  "pcie_init io d = enumerate_pci io d"

section \<open>What is to be found\<close>

text \<open>
  Over the configuration space \<open>cfg\<close> alone: a function is present when its vendor register does
  not read as all ones; a device is single-function when its function 0 is present and does not
  have the multi-function bit. The functions to find are the present ones, except functions 1
  to 7 of single-function devices.
\<close>

definition present :: "(u32 \<Rightarrow> u32) \<Rightarrow> u8 \<Rightarrow> u8 \<Rightarrow> u8 \<Rightarrow> bool" where
  "present cfg bus device function \<longleftrightarrow> cfg (pci_address_word bus device function 0x00) \<noteq> 0xFFFFFFFF"

definition single_function :: "(u32 \<Rightarrow> u32) \<Rightarrow> u8 \<Rightarrow> u8 \<Rightarrow> bool" where
  "single_function cfg bus device \<longleftrightarrow>
     present cfg bus device 0 \<and> \<not> bit (cfg (pci_address_word bus device 0 0x0C)) 23"

definition to_find :: "(u32 \<Rightarrow> u32) \<Rightarrow> u8 \<Rightarrow> u8 \<Rightarrow> u8 \<Rightarrow> bool" where
  "to_find cfg bus device function \<longleftrightarrow>
     present cfg bus device function \<and> (function = 0 \<or> \<not> single_function cfg bus device)"

definition found_record :: "(u32 \<Rightarrow> u32) \<Rightarrow> u8 \<Rightarrow> u8 \<Rightarrow> u8 \<Rightarrow> log_record" where
  "found_record cfg bus device function =
     pci_record bus device function (cfg (pci_address_word bus device function 0x00))
       (cfg (pci_address_word bus device function 0x08))"

definition pci_inventory :: "(u32 \<Rightarrow> u32) \<Rightarrow> log_record list" where
  "pci_inventory cfg =
     concat (map (\<lambda>bus. concat (map (\<lambda>device.
       map (found_record cfg bus device) (filter (to_find cfg bus device) (map of_nat [0..<8])))
       (map of_nat [0..<32]))) (map of_nat [0..<256]))"

lemma pci_config_read_docs:
  assumes "pci_docs io latch config plain"
  shows "fst (pci_config_read io bus device function offset d) =
           config d (pci_address_word bus device function offset)"
    and "config (snd (pci_config_read io bus device function offset d)) = config d"
  using assms by (simp_all add: pci_config_read_def pci_docs_def Let_def)

lemma multi_function_bit: "(ucast (drop_bit 16 w AND 0xFF) :: u8) AND 0x80 = 0 \<longleftrightarrow> \<not> bit w 23" for w :: u32
proof -
  have "bit ((ucast (drop_bit 16 w AND 0xFF) :: u8) AND 0x80) n \<longleftrightarrow> n = 7 \<and> bit w 23" for n
  proof -
    have eqs: "(0x80 :: u8) = push_bit 7 1" "(0xFF :: u32) = mask 8" by (simp_all add: mask_eq_exp_minus_1)
    show ?thesis unfolding eqs bit_and_iff bit_push_bit_iff bit_1_iff by (auto simp: bit_simps)
  qed
  then show ?thesis by (metis bit_0_eq bit_eqI bot_apply bot_bool_def)
qed

lemma read_split:
  assumes "pci_docs io latch config plain"
  obtains d' where "pci_config_read io bus device function offset d =
      (config d (pci_address_word bus device function offset), d')" "config d' = config d"
  using pci_config_read_docs [OF assms, of bus device "function" offset d] that
  by (cases "pci_config_read io bus device function offset d") simp

lemma scan_functions_spec:
  assumes docs: "pci_docs io latch config plain"
    and "0 \<notin> set fs"
  shows "fst (scan_functions io bus device fs d) =
      map (found_record (config d) bus device) (filter (present (config d) bus device) fs) \<and>
    config (snd (scan_functions io bus device fs d)) = config d"
  using assms(2)
proof (induction fs arbitrary: d)
  case (Cons f fs)
  obtain d1 where r1: "pci_config_read io bus device f 0 d = (config d (pci_address_word bus device f 0), d1)"
    "config d1 = config d" by (rule read_split [OF docs])
  obtain d2 where r2: "pci_config_read io bus device f 8 d1 = (config d (pci_address_word bus device f 8), d2)"
    "config d2 = config d" by (rule read_split [OF docs, of bus device f 8 d1]) (simp add: r1)
  obtain d3 v where r3: "pci_config_read io bus device f 0xC d2 = (v, d3)" "config d3 = config d"
    by (rule read_split [OF docs, of bus device f "0xC" d2]) (simp add: r2)
  show ?case
    using r1 r2 r3 Cons.IH [of d1] Cons.IH [of d3] Cons.prems
    by (simp add: case_prod_beta present_def found_record_def)
qed simp

lemma scan_device_spec:
  assumes docs: "pci_docs io latch config plain"
  shows "fst (scan_functions io bus device (map of_nat [0..<8]) d) =
      map (found_record (config d) bus device) (filter (to_find (config d) bus device) (map of_nat [0..<8])) \<and>
    config (snd (scan_functions io bus device (map of_nat [0..<8]) d)) = config d"
proof -
  define fs where "fs = (map of_nat [1..<8] :: u8 list)"
  have eq: "map of_nat [0..<8] = (0 :: u8) # fs" and ne: "0 \<notin> set fs" by (simp_all add: fs_def upt_rec)
  obtain d1 where r1: "pci_config_read io bus device 0 0 d = (config d (pci_address_word bus device 0 0), d1)"
    "config d1 = config d" by (rule read_split [OF docs])
  obtain d2 where r2: "pci_config_read io bus device 0 8 d1 = (config d (pci_address_word bus device 0 8), d2)"
    "config d2 = config d" by (rule read_split [OF docs, of bus device 0 8 d1]) (simp add: r1)
  obtain d3 where r3: "pci_config_read io bus device 0 0xC d2 = (config d (pci_address_word bus device 0 0xC), d3)"
    "config d3 = config d" by (rule read_split [OF docs, of bus device 0 "0xC" d2]) (simp add: r2)
  have rest: "f \<in> set fs \<Longrightarrow> to_find (config d) bus device f \<longleftrightarrow>
      present (config d) bus device f \<and> \<not> single_function (config d) bus device" for f
    using ne by (auto simp: to_find_def)
  have filter: "filter (to_find (config d) bus device) fs =
      (if single_function (config d) bus device then [] else filter (present (config d) bus device) fs)"
    using rest by (auto simp: filter_empty_conv intro: filter_cong)
  show ?thesis
    unfolding eq
    using r1 r2 r3 scan_functions_spec [OF docs ne, of bus device d1] scan_functions_spec [OF docs ne, of bus device d3]
      filter multi_function_bit [of "config d (pci_address_word bus device 0 0xC)"]
    by (simp add: case_prod_beta present_def found_record_def to_find_def single_function_def)
qed

lemma scan_devices_spec:
  assumes docs: "pci_docs io latch config plain"
  shows "fst (scan_devices io bus ds d) =
      concat (map (\<lambda>device. map (found_record (config d) bus device)
        (filter (to_find (config d) bus device) (map of_nat [0..<8]))) ds) \<and>
    config (snd (scan_devices io bus ds d)) = config d"
proof (induction ds arbitrary: d)
  case (Cons dev ds)
  then show ?case
    using scan_device_spec [OF docs, of bus dev d] by (simp add: case_prod_beta del: upt_rec_numeral)
qed simp

lemma scan_buses_spec:
  assumes docs: "pci_docs io latch config plain"
  shows "fst (scan_buses io bs d) =
      concat (map (\<lambda>bus. concat (map (\<lambda>device. map (found_record (config d) bus device)
        (filter (to_find (config d) bus device) (map of_nat [0..<8]))) (map of_nat [0..<32]))) bs) \<and>
    config (snd (scan_buses io bs d)) = config d"
proof (induction bs arbitrary: d)
  case (Cons bus bs)
  then show ?case
    using scan_devices_spec [OF docs, of bus "map of_nat [0..<32]" d]
    by (simp add: case_prod_beta del: upt_rec_numeral)
qed simp

text \<open>
  C23. The scan is complete and exact: over devices that follow configuration mechanism #1, it logs
  exactly one line for every function to be found on the 256 buses, in bus, device and function
  order, with the identifiers and the class the registers hold, and changes no configuration
  register.
\<close>

theorem enumerate_pci_complete:
  assumes "pci_docs io latch config plain"
  shows "fst (enumerate_pci io d) = pci_inventory (config d) \<and>
         config (snd (enumerate_pci io d)) = config d"
  using scan_buses_spec [OF assms, of "map of_nat [0..<256]" d]
  by (simp add: enumerate_pci_def pci_inventory_def del: upt_rec_numeral)

theorem enumerate_pci_complete_witness:
  "fst (enumerate_pci pci_device (0, \<lambda>a. if a = 0x80000000 then 0x12345678 else 0xFFFFFFFF)) =
     pci_inventory (\<lambda>a. if a = 0x80000000 then 0x12345678 else 0xFFFFFFFF)"
  using enumerate_pci_complete [OF pci_device_docs] by simp

end
