(* ===== verification/Console.thy ===== *)
theory Console
  imports Prelude
begin

text \<open>
  The framebuffer console, \<^verbatim>\<open>kernel/src/console.rs\<close>. \<open>get_raster\<close> of the font crate is a
  parameter (weight and height are fixed by \<open>init\<close>); a raster is its width and its rows of
  intensities. A string is its list of Unicode scalar values; \<open>str_len\<close> is its length in UTF-8.
  \<open>usize\<close> values are natural numbers: an index that leaves the buffer panics long before it could
  overflow. \<open>_print\<close> receives the pieces that the formatting machinery passes to \<open>write_str\<close>.
\<close>

type_synonym rstr = "u32 list"

definition str_of :: "string \<Rightarrow> rstr" where
  "str_of s = map (\<lambda>c. of_nat (of_char c)) s"

definition utf8_len :: "u32 \<Rightarrow> nat" where
  "utf8_len c = (if c < 0x80 then 1 else if c < 0x800 then 2 else if c < 0x10000 then 3 else 4)"

definition str_len :: "rstr \<Rightarrow> nat" where
  "str_len s = sum_list (map utf8_len s)"

record raster =
  raster_width :: nat
  raster_rows :: "u8 list list"

type_synonym font = "u32 \<Rightarrow> raster option"

record NotoFontDisplay =
  width :: nat
  height :: nat
  stride :: nat
  draw_buffer :: "u32 list"
  raster_height :: nat
  cursor_x :: nat
  cursor_y :: nat

definition NotoFontDisplay_new :: "nat \<Rightarrow> nat \<Rightarrow> nat \<Rightarrow> u32 list \<Rightarrow> nat \<Rightarrow> NotoFontDisplay" where
  "NotoFontDisplay_new w h s buffer rh =
     \<lparr>width = w, height = h, stride = s, draw_buffer = buffer, raster_height = rh, cursor_x = 0, cursor_y = 0\<rparr>"

definition clear :: "NotoFontDisplay \<Rightarrow> NotoFontDisplay" where
  "clear d = d\<lparr>draw_buffer := map (\<lambda>_. 0) (draw_buffer d)\<rparr>"

section \<open>Drawing\<close>

definition saturating_add :: "u8 \<Rightarrow> u8 \<Rightarrow> u8" where
  "saturating_add a b = (if unat a + unat b < 256 then a + b else 0xFF)"

definition blend :: "u32 \<Rightarrow> u8 \<Rightarrow> u32" where
  "blend curr_pixel_rgb intensity =
     (let r = ucast (drop_bit 16 (curr_pixel_rgb AND 0xff0000)) :: u8;
          g = ucast (drop_bit 8 (curr_pixel_rgb AND 0xff00)) :: u8;
          b = ucast (curr_pixel_rgb AND 0xff) :: u8;
          r = saturating_add r intensity;
          g = saturating_add g intensity;
          b = saturating_add b intensity
      in push_bit 16 (ucast r) + push_bit 8 (ucast g) + ucast b)"

definition draw_pixel :: "nat \<Rightarrow> u8 \<Rightarrow> u32 list \<Rightarrow> u32 list outcome" where
  "draw_pixel index intensity buffer =
     and_then (vec_get buffer index) (\<lambda>curr_pixel_rgb. vec_set buffer index (blend curr_pixel_rgb intensity))"

text \<open>One row of a glyph from column \<open>col_i\<close>, the rows from \<open>row_i\<close>, the characters from \<open>char_i\<close>.\<close>

fun draw_row :: "nat \<Rightarrow> nat \<Rightarrow> u8 list \<Rightarrow> u32 list \<Rightarrow> u32 list outcome" where
  "draw_row start col_i [] buffer = Inr buffer"
| "draw_row start col_i (intensity # row) buffer =
     and_then (draw_pixel (start + col_i) intensity buffer) (draw_row start (Suc col_i) row)"

fun draw_rows :: "nat \<Rightarrow> nat \<Rightarrow> nat \<Rightarrow> u8 list list \<Rightarrow> u32 list \<Rightarrow> u32 list outcome" where
  "draw_rows origin st row_i [] buffer = Inr buffer"
| "draw_rows origin st row_i (row # rows) buffer =
     and_then (draw_row (origin + row_i * st) 0 row buffer) (draw_rows origin st (Suc row_i) rows)"

definition char_raster :: "font \<Rightarrow> u32 \<Rightarrow> raster outcome" where
  "char_raster get_raster c =
     (case get_raster c of
        Some r \<Rightarrow> Inr r
      | None \<Rightarrow> unwrap (get_raster 0x20))"

fun draw_chars :: "font \<Rightarrow> nat \<Rightarrow> nat \<Rightarrow> nat \<Rightarrow> rstr \<Rightarrow> u32 list \<Rightarrow> u32 list outcome" where
  "draw_chars get_raster base st char_i [] buffer = Inr buffer"
| "draw_chars get_raster base st char_i (c # cs) buffer =
     and_then (char_raster get_raster c) (\<lambda>r.
     and_then (draw_rows (char_i * raster_width r + base) st 0 (raster_rows r) buffer)
       (draw_chars get_raster base st (Suc char_i) cs))"

definition draw_string :: "font \<Rightarrow> rstr \<Rightarrow> NotoFontDisplay \<Rightarrow> NotoFontDisplay outcome" where
  "draw_string get_raster msg d =
     and_then (draw_chars get_raster (cursor_x d + cursor_y d * stride d) (stride d) 0 msg (draw_buffer d)) (\<lambda>buffer.
       let d = d\<lparr>draw_buffer := buffer, cursor_y := cursor_y d + str_len msg\<rparr> in
       Inr (if width d \<le> cursor_x d
            then d\<lparr>cursor_y := 0, cursor_x := cursor_x d + raster_height d\<rparr> else d))"

definition write_str :: "font \<Rightarrow> rstr \<Rightarrow> NotoFontDisplay \<Rightarrow> NotoFontDisplay outcome" where
  "write_str get_raster s d = draw_string get_raster s d"

section \<open>The module's entry points\<close>

text \<open>\<open>CONSOLE\<close> is the content of the mutex.\<close>

text \<open>
  \<open>init\<close> fills \<open>s * h\<close> pixels of four bytes through a raw pointer to a frame buffer of \<open>len\<close> bytes.
\<close>

definition console_init :: "font \<Rightarrow> nat \<Rightarrow> nat \<Rightarrow> nat \<Rightarrow> nat \<Rightarrow> NotoFontDisplay option outcome" where
  "console_init get_raster len w h s =
     and_then (ensure RawOutOfBounds (4 * (s * h) \<le> len)) (\<lambda>_.
     let console = NotoFontDisplay_new w h s (replicate (s * h) 0xff408deb) 24 in
      and_then (draw_string get_raster (str_of ''Kernel Message'') console) (\<lambda>c. Inr (Some c)))"

fun write_pieces :: "font \<Rightarrow> rstr list \<Rightarrow> NotoFontDisplay \<Rightarrow> NotoFontDisplay outcome" where
  "write_pieces get_raster [] d = Inr d"
| "write_pieces get_raster (p # ps) d = and_then (write_str get_raster p d) (write_pieces get_raster ps)"

definition console_print :: "font \<Rightarrow> rstr list \<Rightarrow> NotoFontDisplay option \<Rightarrow> NotoFontDisplay option outcome" where
  "console_print get_raster pieces CONSOLE =
     and_then (unwrap CONSOLE) (\<lambda>d. and_then (write_pieces get_raster pieces d) (\<lambda>d. Inr (Some d)))"

end
