(* ===== verification/Console_Drawing.thy ===== *)
theory Console_Drawing
  imports Console
begin

text \<open>
  What the console draws. A string is drawn as a list of plots, pairs of a buffer index and an
  intensity; the loops of \<open>draw_string\<close> are shown to perform them, and the picture is computed
  from them.
\<close>

section \<open>Colour channels\<close>

definition channel :: "nat \<Rightarrow> u32 \<Rightarrow> u8" where
  "channel k p = ucast (drop_bit (8 * k) p)"

lemma channels_sum:
  "channel 0 (push_bit 16 (ucast r) + push_bit 8 (ucast g) + ucast b) = b"
  "channel 1 (push_bit 16 (ucast r) + push_bit 8 (ucast g) + ucast b) = g"
  "channel 2 (push_bit 16 (ucast r) + push_bit 8 (ucast g) + ucast b) = r"
  "channel 3 (push_bit 16 (ucast r) + push_bit 8 (ucast g) + ucast b) = 0"
  for r g b :: u8
proof -
  let ?r = "push_bit 16 (ucast r) :: u32" and ?g = "push_bit 8 (ucast g) :: u32" and ?b = "ucast b :: u32"
  have "?r AND ?g = 0" "(?r OR ?g) AND ?b = 0"
    by (rule bit_eqI, auto simp: bit_simps dest: bit_imp_le_length)+
  then have sum: "?r + ?g + ?b = ?r OR ?g OR ?b" by (simp add: disjunctive_add_eq_or or.assoc)
  show "channel 0 (?r + ?g + ?b) = b" "channel 1 (?r + ?g + ?b) = g" "channel 2 (?r + ?g + ?b) = r"
    "channel 3 (?r + ?g + ?b) = 0"
    unfolding sum channel_def
    by (rule bit_eqI, auto simp: bit_simps dest: bit_imp_le_length)+
qed

lemma channel_masks:
  "ucast (drop_bit 16 (p AND 0xff0000)) = channel 2 p"
  "ucast (drop_bit 8 (p AND 0xff00)) = channel 1 p"
  "ucast (p AND 0xff) = channel 0 p"
proof -
  have masks: "(0xff0000 :: u32) = push_bit 16 (mask 8)" "(0xff00 :: u32) = push_bit 8 (mask 8)" "(0xff :: u32) = mask 8"
    by (simp_all add: mask_eq_exp_minus_1)
  have keep: "(ucast (drop_bit k (p AND push_bit k (mask 8))) :: u8) = ucast (drop_bit k p)" for k
    by (rule bit_eqI) (auto simp: bit_simps dest: bit_imp_le_length)
  show "ucast (drop_bit 16 (p AND 0xff0000)) = channel 2 p" "ucast (drop_bit 8 (p AND 0xff00)) = channel 1 p"
    "ucast (p AND 0xff) = channel 0 p"
    using keep [of 16] keep [of 8] keep [of 0] unfolding masks channel_def by (simp_all only:) simp_all
qed

text \<open>
  C34. Blending adds the glyph's intensity to each colour channel of the pixel, saturating at 255,
  without a carry into the neighbouring channel, and clears the unused top byte.
\<close>

theorem blend_channels:
  "channel 0 (blend p i) = saturating_add (channel 0 p) i \<and>
   channel 1 (blend p i) = saturating_add (channel 1 p) i \<and>
   channel 2 (blend p i) = saturating_add (channel 2 p) i \<and>
   channel 3 (blend p i) = 0 \<and>
   unat (saturating_add (channel k p) i) = min 255 (unat (channel k p) + unat i)"
proof -
  have "unat (saturating_add a i) = min 255 (unat a + unat i)" for a
    by (auto simp: saturating_add_def unat_word_ariths)
  then show ?thesis by (simp only: blend_def channel_masks channels_sum Let_def simp_thms)
qed

section \<open>Plots\<close>

fun draw_all :: "(nat \<times> u8) list \<Rightarrow> u32 list \<Rightarrow> u32 list outcome" where
  "draw_all [] buffer = Inr buffer"
| "draw_all ((i, v) # ps) buffer = and_then (draw_pixel i v buffer) (draw_all ps)"

lemma draw_all_append: "draw_all (ps @ qs) buffer = and_then (draw_all ps buffer) (draw_all qs)"
  by (induction ps buffer rule: draw_all.induct) (simp_all add: and_then_assoc fun_eq_iff cong: and_then_cong)

definition row_plots :: "nat \<Rightarrow> u8 list \<Rightarrow> (nat \<times> u8) list" where
  "row_plots start row = map (\<lambda>c. (start + c, row ! c)) [0..<length row]"

definition glyph_plots :: "nat \<Rightarrow> nat \<Rightarrow> u8 list list \<Rightarrow> (nat \<times> u8) list" where
  "glyph_plots origin st rows = concat (map (\<lambda>k. row_plots (origin + k * st) (rows ! k)) [0..<length rows])"

lemma map_upt_shift: "map f [0..<Suc n] = f 0 # map (\<lambda>k. f (Suc k)) [0..<n]"
  by (simp add: upt_conv_Cons map_Suc_upt [symmetric] comp_def del: upt_Suc map_Suc_upt)

lemma draw_row_plots: "draw_row start col row buffer = draw_all (row_plots (start + col) row) buffer"
proof (induction row arbitrary: col buffer)
  case (Cons v row)
  have "row_plots (start + col) (v # row) = (start + col, v) # row_plots (start + Suc col) row"
    unfolding row_plots_def length_Cons map_upt_shift by simp
  then show ?case by (simp add: Cons.IH [abs_def])
qed (simp add: row_plots_def)

lemma draw_rows_plots:
  "draw_rows origin st j rows buffer = draw_all (glyph_plots (origin + j * st) st rows) buffer"
proof (induction rows arbitrary: j buffer)
  case (Cons row rows)
  have "glyph_plots (origin + j * st) st (row # rows) =
      row_plots (origin + j * st) row @ glyph_plots (origin + Suc j * st) st rows"
    unfolding glyph_plots_def length_Cons map_upt_shift by (simp add: add.commute add.left_commute)
  then show ?case by (simp add: draw_all_append draw_row_plots Cons.IH [abs_def])
qed (simp add: glyph_plots_def)

text \<open>
  What the font crate documents for one weight and height: it has a raster for the blank, it need not
  have one for other characters, and every raster has \<open>rh\<close> rows of \<open>rw\<close> intensities.
\<close>

definition monospaced :: "font \<Rightarrow> nat \<Rightarrow> nat \<Rightarrow> bool" where
  "monospaced get_raster rw rh \<longleftrightarrow> get_raster 0x20 \<noteq> None \<and>
     (\<forall>c r. get_raster c = Some r \<longrightarrow> raster_width r = rw \<and> length (raster_rows r) = rh \<and>
        (\<forall>row \<in> set (raster_rows r). length row = rw))"

text \<open>The rows shown for a character: those of its raster, or of the blank where the font has none.\<close>

definition rows_of :: "font \<Rightarrow> u32 \<Rightarrow> u8 list list" where
  "rows_of get_raster c = raster_rows (the (if get_raster c = None then get_raster 0x20 else get_raster c))"

lemma monospacedD:
  assumes "monospaced get_raster rw rh"
  shows "char_raster get_raster c = Inr \<lparr>raster_width = rw, raster_rows = rows_of get_raster c\<rparr>"
    and "length (rows_of get_raster c) = rh"
    and "y < rh \<Longrightarrow> length (rows_of get_raster c ! y) = rw"
proof -
  obtain e r where "get_raster e = Some r" "char_raster get_raster c = Inr r" "rows_of get_raster c = raster_rows r"
    using assms by (cases "get_raster c") (auto simp: monospaced_def char_raster_def rows_of_def)
  moreover from this have "raster_width r = rw" "length (raster_rows r) = rh" "\<forall>row \<in> set (raster_rows r). length row = rw"
    using assms unfolding monospaced_def by blast+
  ultimately show "char_raster get_raster c = Inr \<lparr>raster_width = rw, raster_rows = rows_of get_raster c\<rparr>"
    "length (rows_of get_raster c) = rh" "y < rh \<Longrightarrow> length (rows_of get_raster c ! y) = rw"
    by simp_all
qed

definition string_plots :: "font \<Rightarrow> nat \<Rightarrow> nat \<Rightarrow> nat \<Rightarrow> rstr \<Rightarrow> (nat \<times> u8) list" where
  "string_plots get_raster rw base st msg =
     concat (map (\<lambda>k. glyph_plots (k * rw + base) st (rows_of get_raster (msg ! k))) [0..<length msg])"

lemma draw_chars_plots:
  assumes "monospaced get_raster rw rh"
  shows "draw_chars get_raster base st j cs buffer =
    draw_all (string_plots get_raster rw (j * rw + base) st cs) buffer"
proof (induction cs arbitrary: j buffer)
  case (Cons c cs)
  have "string_plots get_raster rw (j * rw + base) st (c # cs) =
      glyph_plots (j * rw + base) st (rows_of get_raster c) @ string_plots get_raster rw (Suc j * rw + base) st cs"
    unfolding string_plots_def length_Cons map_upt_shift by (simp add: add.commute add.left_commute)
  then show ?case
    by (simp add: draw_all_append draw_rows_plots monospacedD(1) [OF assms] Cons.IH [abs_def])
qed (simp add: string_plots_def)

section \<open>The picture\<close>

lemma draw_all_result:
  assumes "\<forall>i \<in> fst ` set ps. i < length buffer" "distinct (map fst ps)"
  shows "\<exists>b. draw_all ps buffer = Inr b \<and> length b = length buffer \<and>
     (\<forall>i < length buffer. b ! i = (case map_of ps i of None \<Rightarrow> buffer ! i | Some v \<Rightarrow> blend (buffer ! i) v))"
  using assms
proof (induction ps arbitrary: buffer)
  case (Cons p ps)
  obtain i v where p: "p = (i, v)" by (cases p)
  let ?b = "buffer[i := blend (buffer ! i) v]"
  have i: "i < length buffer" using Cons.prems p by simp
  obtain b where b: "draw_all ps ?b = Inr b" "length b = length buffer"
      "\<forall>k < length buffer. b ! k = (case map_of ps k of None \<Rightarrow> ?b ! k | Some v \<Rightarrow> blend (?b ! k) v)"
    using Cons.IH [of ?b] Cons.prems by auto
  have "map_of ps i = None" using Cons.prems(2) p by (simp add: map_of_eq_None_iff)
  then show ?case
    using b i by (intro exI [of _ b]) (auto simp: p draw_pixel_def vec_set_def nth_list_update split: option.splits)
qed simp

lemma distinct_concat_mapI:
  assumes "distinct xs" "\<And>x. x \<in> set xs \<Longrightarrow> distinct (f x)"
    "\<And>x y. x \<in> set xs \<Longrightarrow> y \<in> set xs \<Longrightarrow> x \<noteq> y \<Longrightarrow> set (f x) \<inter> set (f y) = {}"
  shows "distinct (concat (map f xs))"
  using assms
proof (induction xs)
  case (Cons x xs)
  have "set (f x) \<inter> set (f y) = {}" if "y \<in> set xs" for y
    using Cons.prems(1) Cons.prems(3) [of x y] that by auto
  moreover have "distinct (concat (map f xs))" using Cons.prems by (intro Cons.IH) auto
  ultimately show ?case using Cons.prems(2) by auto
qed simp

lemma string_plots_iff:
  assumes "monospaced get_raster rw rh"
  shows "(i, v) \<in> set (string_plots get_raster rw base st msg) \<longleftrightarrow>
    (\<exists>k < length msg. \<exists>y < rh. \<exists>c < rw. i = base + (k * rw + c) + y * st \<and>
       v = rows_of get_raster (msg ! k) ! y ! c)"
  using monospacedD(2,3) [OF assms]
  by (auto simp: string_plots_def glyph_plots_def row_plots_def ac_simps) fastforce+

lemma grid_unique:
  assumes "x + y * st = x' + y' * (st :: nat)" "x < st" "x' < st"
  shows "x = x'" "y = y'"
proof -
  have "(x + y * st) mod st = x" "(x' + y' * st) mod st = x'" using assms(2,3) by simp_all
  then show "x = x'" using assms(1) by simp
  then show "y = y'" using assms by simp
qed

lemma cell_unique:
  assumes "k * rw + c = k' * rw + (c' :: nat)" "c < rw" "c' < rw"
  shows "k = k'" "c = c'"
  using grid_unique [of c k rw c' k'] assms by (simp_all add: add.commute)

lemma cell_bound: "k < n \<Longrightarrow> c < rw \<Longrightarrow> k * rw + c < n * (rw :: nat)"
  by (metis add.commute add_less_cancel_left less_le_trans mult.commute mult_Suc_right mult_le_mono2 Suc_leI)

lemma row_plots_iff: "(i, v) \<in> set (row_plots start row) \<longleftrightarrow> (\<exists>c < length row. i = start + c \<and> v = row ! c)"
  by (auto simp: row_plots_def)

lemma glyph_plots_iff:
  "(i, v) \<in> set (glyph_plots origin st rows) \<longleftrightarrow>
     (\<exists>y < length rows. \<exists>c < length (rows ! y). i = origin + y * st + c \<and> v = rows ! y ! c)"
  by (auto simp: glyph_plots_def row_plots_iff)

lemma glyph_plots_distinct:
  assumes "\<And>y. y < length rows \<Longrightarrow> length (rows ! y) \<le> st"
  shows "distinct (map fst (glyph_plots origin st rows))"
proof -
  have "distinct (concat (map (\<lambda>k. map fst (row_plots (origin + k * st) (rows ! k))) [0..<length rows]))"
  proof (rule distinct_concat_mapI)
    fix x y assume xy: "x \<in> set [0..<length rows]" "y \<in> set [0..<length rows]" "x \<noteq> y"
    have "origin + x * st + c \<noteq> origin + y * st + d"
      if "c < length (rows ! x)" "d < length (rows ! y)" for c d
      using grid_unique(2) [of c x st d y] that assms [of x] assms [of y] xy by auto
    then show "set (map fst (row_plots (origin + x * st) (rows ! x))) \<inter>
        set (map fst (row_plots (origin + y * st) (rows ! y))) = {}"
      by (auto simp: row_plots_iff disjoint_iff)
  qed (auto simp: row_plots_def comp_def distinct_map inj_on_def)
  then show ?thesis by (simp add: glyph_plots_def map_concat comp_def)
qed

lemma string_plots_distinct:
  assumes mono: "monospaced get_raster rw rh" and fits: "length msg * rw \<le> st"
  shows "distinct (map fst (string_plots get_raster rw base st msg))"
proof -
  let ?g = "\<lambda>k. glyph_plots (k * rw + base) st (rows_of get_raster (msg ! k))"
  have "distinct (concat (map (\<lambda>k. map fst (?g k)) [0..<length msg]))"
  proof (rule distinct_concat_mapI)
    fix k assume "k \<in> set [0..<length msg]"
    then have "rw \<le> st" using fits by (cases "length msg") auto
    then show "distinct (map fst (?g k))"
      using monospacedD(2,3) [OF mono] by (intro glyph_plots_distinct) simp
  next
    fix k l assume kl: "k \<in> set [0..<length msg]" "l \<in> set [0..<length msg]" "k \<noteq> l"
    have "False" if "k * rw + base + y * st + c = l * rw + base + z * st + d" "c < rw" "d < rw" for y z c d
    proof -
      have "(k * rw + c) + y * st = (l * rw + d) + z * st" using that(1) by simp
      moreover have "k * rw + c < st" "l * rw + d < st"
        using cell_bound [of _ "length msg" _ rw] kl that fits by (auto intro: less_le_trans)
      ultimately have "k * rw + c = l * rw + d" by (rule grid_unique)
      then show False using cell_unique(1) that kl by blast
    qed
    then show "set (map fst (?g k)) \<inter> set (map fst (?g l)) = {}"
      using monospacedD(2,3) [OF mono] by (force simp: glyph_plots_iff)
  qed simp
  then show ?thesis by (simp add: string_plots_def map_concat comp_def)
qed

text \<open>The plot of a pixel, by its coordinates, for a string drawn from row \<open>cy\<close>.\<close>

lemma string_plots_lookup:
  assumes mono: "monospaced get_raster rw rh" and fits: "length msg * rw \<le> st" and x: "x < st"
  shows "map_of (string_plots get_raster rw (cy * st) st msg) (x + y * st) =
    (if cy \<le> y \<and> y < cy + rh \<and> x < length msg * rw
     then Some (rows_of get_raster (msg ! (x div rw)) ! (y - cy) ! (x mod rw)) else None)"
proof (cases "cy \<le> y \<and> y < cy + rh \<and> x < length msg * rw")
  case True
  then have "0 < rw" by (cases rw) auto
  then have "(x + y * st, rows_of get_raster (msg ! (x div rw)) ! (y - cy) ! (x mod rw)) \<in>
      set (string_plots get_raster rw (cy * st) st msg)"
    unfolding string_plots_iff [OF mono]
    using True by (intro exI [of _ "x div rw"] exI [of _ "y - cy"] exI [of _ "x mod rw"] conjI)
      (auto simp: less_mult_imp_div_less add_mult_distrib [symmetric])
  then show ?thesis using True string_plots_distinct [OF mono fits] by (simp add: map_of_eq_Some_iff)
next
  case False
  have "x + y * st \<notin> fst ` set (string_plots get_raster rw (cy * st) st msg)"
  proof
    assume "x + y * st \<in> fst ` set (string_plots get_raster rw (cy * st) st msg)"
    then obtain k z c where p: "k < length msg" "z < rh" "c < rw" "x + y * st = (k * rw + c) + (cy + z) * st"
      by (auto simp: string_plots_iff [OF mono] algebra_simps)
    have "k * rw + c < st" using cell_bound [OF p(1,3)] fits by simp
    then have "x = k * rw + c" "y = cy + z" using grid_unique [OF p(4) x] by simp_all
    then show False using False p cell_bound [OF p(1,3)] by simp
  qed
  then show ?thesis unfolding if_not_P [OF False] by (simp add: map_of_eq_None_iff)
qed

lemma draw_string_fits:
  assumes mono: "monospaced get_raster rw rh"
    and geometry: "length (draw_buffer d) = stride d * height d" "cursor_x d = 0" "0 < width d"
    and fits: "length msg * rw \<le> stride d" "cursor_y d + rh \<le> height d"
  obtains b where "draw_string get_raster msg d = Inr (d\<lparr>draw_buffer := b, cursor_y := cursor_y d + str_len msg\<rparr>)"
    "\<forall>i < length (draw_buffer d). b ! i =
       (case map_of (string_plots get_raster rw (cursor_y d * stride d) (stride d) msg) i of
          None \<Rightarrow> draw_buffer d ! i | Some v \<Rightarrow> blend (draw_buffer d ! i) v)"
proof -
  let ?st = "stride d" and ?cy = "cursor_y d"
  let ?ps = "string_plots get_raster rw (?cy * ?st) ?st msg"
  have dist: "distinct (map fst ?ps)" using string_plots_distinct [OF mono fits(1)] .
  have in_buffer: "x + y * ?st < length (draw_buffer d)" if "y < height d" "x < ?st" for x y
    using cell_bound [OF that] by (simp add: geometry(1) ac_simps)
  have in_range: "i < length (draw_buffer d)" if "i \<in> fst ` set ?ps" for i
  proof -
    from that obtain k y c where "k < length msg" "y < rh" "c < rw" "i = ?cy * ?st + (k * rw + c) + y * ?st"
      by (auto simp: string_plots_iff [OF mono])
    then show ?thesis
      using in_buffer [of "?cy + y" "k * rw + c"] fits cell_bound [of k "length msg" c rw] by (simp add: algebra_simps)
  qed
  obtain b where b: "draw_all ?ps (draw_buffer d) = Inr b"
      "\<forall>i < length (draw_buffer d). b ! i =
         (case map_of ?ps i of None \<Rightarrow> draw_buffer d ! i | Some v \<Rightarrow> blend (draw_buffer d ! i) v)"
    using draw_all_result [of ?ps "draw_buffer d"] in_range dist by auto
  moreover have "draw_string get_raster msg d = Inr (d\<lparr>draw_buffer := b, cursor_y := ?cy + str_len msg\<rparr>)"
    using b(1) geometry(2,3) draw_chars_plots [OF mono, of "?cy * ?st" ?st 0 msg "draw_buffer d"]
    by (simp add: draw_string_def Let_def)
  ultimately show thesis using that by blast
qed

text \<open>
  C18. Drawing a string that fits draws exactly its picture: it returns, every pixel of the glyphs'
  rectangle at the cursor is blended once with the intensity of its character's raster (that of the
  blank for a character the font does not have, such as a line break), every other pixel keeps its value, and the cursor moves down by the string's length in bytes.
\<close>

theorem draw_string_picture:
  assumes mono: "monospaced get_raster rw rh"
    and geometry: "length (draw_buffer d) = stride d * height d" "cursor_x d = 0" "0 < width d"
    and fits: "length msg * rw \<le> stride d" "cursor_y d + rh \<le> height d"
  shows "\<exists>d'. draw_string get_raster msg d = Inr d' \<and> cursor_x d' = 0 \<and> cursor_y d' = cursor_y d + str_len msg \<and>
     (\<forall>y < height d. \<forall>x < stride d. draw_buffer d' ! (x + y * stride d) =
        (if cursor_y d \<le> y \<and> y < cursor_y d + rh \<and> x < length msg * rw
         then blend (draw_buffer d ! (x + y * stride d))
                (rows_of get_raster (msg ! (x div rw)) ! (y - cursor_y d) ! (x mod rw))
         else draw_buffer d ! (x + y * stride d)))"
proof -
  let ?st = "stride d" and ?cy = "cursor_y d"
  obtain b where run: "draw_string get_raster msg d = Inr (d\<lparr>draw_buffer := b, cursor_y := ?cy + str_len msg\<rparr>)"
    and b: "\<forall>i < length (draw_buffer d). b ! i =
       (case map_of (string_plots get_raster rw (?cy * ?st) ?st msg) i of
          None \<Rightarrow> draw_buffer d ! i | Some v \<Rightarrow> blend (draw_buffer d ! i) v)"
    using draw_string_fits [OF assms] .
  have in_buffer: "x + y * ?st < length (draw_buffer d)" if "y < height d" "x < ?st" for x y
    using cell_bound [OF that] by (simp add: geometry(1) ac_simps)
  have "b ! (x + y * ?st) = (if ?cy \<le> y \<and> y < ?cy + rh \<and> x < length msg * rw
      then blend (draw_buffer d ! (x + y * ?st)) (rows_of get_raster (msg ! (x div rw)) ! (y - ?cy) ! (x mod rw))
      else draw_buffer d ! (x + y * ?st))" if "y < height d" "x < ?st" for x y
    using string_plots_lookup [OF mono fits(1) that(2), of ?cy y] b in_buffer [OF that] by simp
  then show ?thesis using run geometry by auto
qed

text \<open>
  A font with one-pixel glyphs for the printable characters, dark for the blank, and a tiny screen for
  the witnesses.
\<close>

definition dot_font :: font where
  "dot_font c =
     (if c = 0x20 then Some \<lparr>raster_width = 1, raster_rows = [[0]]\<rparr>
      else if 0x20 < c \<and> c < 0x7F then Some \<lparr>raster_width = 1, raster_rows = [[0x10]]\<rparr> else None)"

lemma dot_font_mono: "monospaced dot_font 1 1"
  by (simp add: monospaced_def dot_font_def)

definition tiny_screen :: NotoFontDisplay where
  "tiny_screen = NotoFontDisplay_new 4 3 4 (replicate 12 0) 24"

theorem draw_string_picture_witness:
  "\<exists>d'. draw_string dot_font [0x61, 0x0A] tiny_screen = Inr d' \<and> cursor_y d' = 2 \<and>
        draw_buffer d' ! 0 = blend 0 0x10 \<and> draw_buffer d' ! 1 = blend 0 0 \<and> draw_buffer d' ! 2 = 0"
proof -
  let ?msg = "[0x61, 0x0A] :: rstr"
  have "\<exists>d'. draw_string dot_font ?msg tiny_screen = Inr d' \<and> cursor_x d' = 0 \<and>
      cursor_y d' = cursor_y tiny_screen + str_len ?msg \<and>
     (\<forall>y < height tiny_screen. \<forall>x < stride tiny_screen. draw_buffer d' ! (x + y * stride tiny_screen) =
        (if cursor_y tiny_screen \<le> y \<and> y < cursor_y tiny_screen + 1 \<and> x < length ?msg * 1
         then blend (draw_buffer tiny_screen ! (x + y * stride tiny_screen))
                (rows_of dot_font (?msg ! (x div 1)) ! (y - cursor_y tiny_screen) ! (x mod 1))
         else draw_buffer tiny_screen ! (x + y * stride tiny_screen)))"
    by (rule draw_string_picture [OF dot_font_mono]) (simp_all add: tiny_screen_def NotoFontDisplay_new_def)
  then obtain d' where d': "draw_string dot_font ?msg tiny_screen = Inr d'" "cursor_y d' = 2"
      "\<And>x. x < 4 \<Longrightarrow> draw_buffer d' ! x = (if x < 2 then blend 0 (rows_of dot_font (?msg ! x) ! 0 ! 0) else 0)"
    by (force simp: tiny_screen_def NotoFontDisplay_new_def str_len_def utf8_len_def)
  then show ?thesis
    using d'(3) [of 0] d'(3) [of 1] d'(3) [of 2] by (simp add: rows_of_def dot_font_def)
qed

section \<open>The bottom of the screen\<close>

lemma draw_all_Inl: "draw_all ps buffer = Inl e \<Longrightarrow> e = IndexOutOfBounds"
  by (induction ps buffer rule: draw_all.induct)
    (auto simp: outcome_simps draw_pixel_def vec_get_def vec_set_def split: if_splits)

lemma draw_string_cases:
  assumes "monospaced get_raster rw rh" "0 < width d" "cursor_x d = 0"
  shows "draw_string get_raster msg d = Inl IndexOutOfBounds \<or>
    (\<exists>b. draw_string get_raster msg d = Inr (d\<lparr>draw_buffer := b, cursor_y := cursor_y d + str_len msg\<rparr>) \<and>
         length b = length (draw_buffer d))"
proof -
  have len: "draw_all ps b = Inr b' \<Longrightarrow> length b' = length b" for ps b b'
    by (induction ps b rule: draw_all.induct)
      (auto simp: outcome_simps draw_pixel_def vec_set_def split: if_splits)
  show ?thesis
    using assms draw_all_Inl len
    by (cases "draw_all (string_plots get_raster rw (cursor_y d * stride d) (stride d) msg) (draw_buffer d)")
      (auto simp: draw_string_def draw_chars_plots [OF assms(1)] Let_def)
qed

lemma draw_below_screen:
  assumes "monospaced get_raster rw rh" "0 < rw" "0 < rh" "length (draw_buffer d) \<le> cursor_y d * stride d" "msg \<noteq> []"
  shows "draw_string get_raster msg d = Inl IndexOutOfBounds"
proof -
  obtain c cs where msg: "msg = c # cs" using assms(5) by (cases msg) auto
  have "length (rows_of get_raster c) = rh" "length (rows_of get_raster c ! 0) = rw"
    using monospacedD(2) [OF assms(1)] monospacedD(3) [OF assms(1,3)] by auto
  then obtain v vs rows where rows: "rows_of get_raster c = (v # vs) # rows"
    using assms(2,3) by (cases "rows_of get_raster c"; cases "hd (rows_of get_raster c)") auto
  have "draw_pixel (cursor_x d + cursor_y d * stride d) v (draw_buffer d) = Inl IndexOutOfBounds"
    using assms(4) by (simp add: draw_pixel_def)
  then show ?thesis
    by (simp add: draw_string_def msg monospacedD(1) [OF assms(1)] rows)
qed

lemma write_pieces_cases:
  assumes "monospaced get_raster rw rh" "0 < width d" "cursor_x d = 0"
  shows "write_pieces get_raster ms d = Inl IndexOutOfBounds \<or>
    (\<exists>b. write_pieces get_raster ms d = Inr (d\<lparr>draw_buffer := b, cursor_y := cursor_y d + sum_list (map str_len ms)\<rparr>) \<and>
         length b = length (draw_buffer d))"
  using assms(2,3)
proof (induction ms arbitrary: d)
  case Nil
  then show ?case by (intro disjI2 exI [of _ "draw_buffer d"]) simp
next
  case (Cons m ms)
  from draw_string_cases [OF assms(1) Cons.prems, of m] show ?case
  proof (elim disjE exE conjE)
    fix b assume b: "draw_string get_raster m d = Inr (d\<lparr>draw_buffer := b, cursor_y := cursor_y d + str_len m\<rparr>)"
      "length b = length (draw_buffer d)"
    let ?d = "d\<lparr>draw_buffer := b, cursor_y := cursor_y d + str_len m\<rparr>"
    from Cons.IH [of ?d] Cons.prems b(2) show ?thesis by (auto simp: write_str_def b(1) add.assoc)
  qed (simp add: write_str_def)
qed

lemma write_pieces_append:
  "write_pieces get_raster (ms @ ns) d = and_then (write_pieces get_raster ms d) (write_pieces get_raster ns)"
  by (induction ms arbitrary: d) (simp_all add: and_then_assoc fun_eq_iff cong: and_then_cong)

text \<open>
  C37. The console never wraps and never scrolls: whatever is printed, the column stays 0 and the row grows by
  the number of bytes printed, or printing has panicked with an index out of bounds. So on a screen of
  \<open>height\<close> rows, once the strings printed since the top of the screen have \<open>height\<close> or more bytes, the next
  non-empty string that is printed panics.
\<close>

theorem console_runs_off_screen:
  assumes "monospaced get_raster rw rh" "0 < rw" "0 < rh"
    and "0 < width d" "cursor_x d = 0" "length (draw_buffer d) = stride d * height d"
  shows "(case write_pieces get_raster ms d of
        Inl e \<Rightarrow> e = IndexOutOfBounds
      | Inr d' \<Rightarrow> cursor_x d' = 0 \<and> cursor_y d' = cursor_y d + sum_list (map str_len ms)) \<and>
    (height d \<le> cursor_y d + sum_list (map str_len ms) \<and> msg \<noteq> [] \<longrightarrow>
       write_pieces get_raster (ms @ [msg]) d = Inl IndexOutOfBounds)"
  using write_pieces_cases [OF assms(1,4,5), of ms]
proof (elim disjE exE conjE)
  fix b assume b: "write_pieces get_raster ms d = Inr (d\<lparr>draw_buffer := b, cursor_y := cursor_y d + sum_list (map str_len ms)\<rparr>)"
    "length b = length (draw_buffer d)"
  let ?d = "d\<lparr>draw_buffer := b, cursor_y := cursor_y d + sum_list (map str_len ms)\<rparr>"
  have "draw_string get_raster msg ?d = Inl IndexOutOfBounds"
    if "height d \<le> cursor_y d + sum_list (map str_len ms)" "msg \<noteq> []"
    by (rule draw_below_screen [OF assms(1-3) _ that(2)]) (use b(2) assms(6) that(1) in \<open>simp add: mult.commute\<close>)
  then show ?thesis using b(1) assms(5) by (simp add: write_pieces_append write_str_def)
qed (simp add: write_pieces_append)

theorem console_runs_off_screen_witness:
  "write_pieces dot_font ([str_of ''a'', [0x62, 0x0A]] @ [str_of ''c'']) tiny_screen = Inl IndexOutOfBounds"
  using console_runs_off_screen [OF dot_font_mono, of tiny_screen "[str_of ''a'', [0x62, 0x0A]]" "str_of ''c''"]
  by (simp add: tiny_screen_def NotoFontDisplay_new_def str_len_def str_of_def utf8_len_def)

end
