(* ===== verification/Acpi.thy ===== *)
theory Acpi
  imports Memory Port_Io Logging
begin

text \<open>
  Power management, \<^verbatim>\<open>kernel/src/acpi/mod.rs\<close>: finding out at boot how to switch the machine
  off, and switching it off. The ACPI and AML interpreters are crates outside the repository; what
  \<open>init\<close> calls of them is the record \<open>acpi_crate\<close>, an argument. Of the values of an AML
  namespace only those the source distinguishes are told apart.
\<close>

datatype aml_value = Package "aml_value list" | Integer u64 | OtherValue

record dsdt_table =
  phys_address :: u64
  dsdt_length :: u32

record ('tables, 'fadt, 'ns, 'name) acpi_crate =
  from_rsdp :: "u64 \<Rightarrow> fmt_arg + 'tables"
  dsdt :: "'tables \<Rightarrow> fmt_arg + dsdt_table"
  find_fadt :: "'tables \<Rightarrow> 'fadt option"
  pm1a_control_block_of :: "'fadt \<Rightarrow> fmt_arg + u64"
  parse_table :: "u8 list \<Rightarrow> fmt_arg + 'ns"
  AmlName_from_str :: "string \<Rightarrow> fmt_arg + 'name"
  get_by_path :: "'ns \<Rightarrow> 'name \<Rightarrow> fmt_arg + aml_value"

record AcpiShutdown =
  pm1a_control_block :: u64
  slp_typ_a :: u16
  slp_len :: u16
  use_qemu_fallback :: bool

record acpi_state =
  ACPI_SHUTDOWN :: AcpiShutdown
  acpi_log :: "log_record list"

definition ACPI_SHUTDOWN_initial :: AcpiShutdown where
  "ACPI_SHUTDOWN_initial =
     \<lparr>pm1a_control_block = 0, slp_typ_a = 0, slp_len = 0, use_qemu_fallback = True\<rparr>"

section \<open>acpi::init\<close>

text \<open>The early return every failing step makes: an error, a warning, nothing else changed.\<close>

definition give_up :: "string \<Rightarrow> fmt_arg list \<Rightarrow> acpi_state \<Rightarrow> acpi_state outcome" where
  "give_up msg args st =
     Inr (st\<lparr>acpi_log := acpi_log st @ [error msg args, warn ''Using QEMU fallback for shutdown'' []]\<rparr>)"

definition ACPI_TABLE_HEADER_SIZE :: u64 where
  "ACPI_TABLE_HEADER_SIZE = 36"

text \<open>The bytes of the AML code: the table less its header.\<close>

definition aml_bytes :: "paging_crate \<Rightarrow> u64 option \<Rightarrow> mem \<Rightarrow> dsdt_table \<Rightarrow> u8 list outcome" where
  "aml_bytes c cell m d =
     and_then (PhysAddr_new c (phys_address d)) (\<lambda>phys.
     and_then (physical_to_virtual c cell phys) (\<lambda>ptr.
     and_then (sub_checked (ucast (dsdt_length d)) ACPI_TABLE_HEADER_SIZE) (\<lambda>aml_length.
       Inr (map (\<lambda>i. m (ptr + ACPI_TABLE_HEADER_SIZE + of_nat i)) [0..<unat aml_length]))))"

definition read_s5 ::
  "('tables, 'fadt, 'ns, 'name) acpi_crate \<Rightarrow> u8 list \<Rightarrow> acpi_state
     \<Rightarrow> (u16 \<Rightarrow> acpi_state outcome) \<Rightarrow> acpi_state outcome" where
  "read_s5 ac table st k =
     (case parse_table ac table of
        Inl e \<Rightarrow> give_up ''Failed to parse AML stream. Err = {:?}'' [e] st
      | Inr aml \<Rightarrow>
     (case AmlName_from_str ac (CHR 0x5C # ''_S5'') of
        Inl e \<Rightarrow> give_up ''Failed to create AML name: {:?}'' [e] st
      | Inr name \<Rightarrow>
     (case get_by_path ac aml name of
        Inr (Package (Integer v # _)) \<Rightarrow> k (ucast v)
      | Inr (Package _) \<Rightarrow> give_up (CHR 0x5C # ''_S5[0] is not an Integer'') [] st
      | Inr _ \<Rightarrow> give_up (CHR 0x5C # ''_S5 is not a Package'') [] st
      | Inl e \<Rightarrow> give_up (''Failed to get '' @ CHR 0x5C # ''_S5: {:?}'') [e] st)))"

definition acpi_init ::
  "('tables, 'fadt, 'ns, 'name) acpi_crate \<Rightarrow> paging_crate \<Rightarrow> u64 option \<Rightarrow> mem \<Rightarrow> u64
     \<Rightarrow> acpi_state \<Rightarrow> acpi_state outcome" where
  "acpi_init ac c cell m rsdp_addr st =
     (case from_rsdp ac rsdp_addr of
        Inl e \<Rightarrow> give_up ''Failed to parse ACPI tables: {:?}'' [e] st
      | Inr tables \<Rightarrow>
     (case dsdt ac tables of
        Inl e \<Rightarrow> give_up ''Failed to get DSDT table: {:?}'' [e] st
      | Inr d \<Rightarrow>
     (case find_fadt ac tables of
        None \<Rightarrow> give_up ''Failed to get FADT table'' [] st
      | Some fadt \<Rightarrow>
     (case pm1a_control_block_of ac fadt of
        Inl e \<Rightarrow> give_up ''PM1A control block not found in FADT: {:?}'' [e] st
      | Inr pm1a \<Rightarrow>
     and_then (aml_bytes c cell m d) (\<lambda>table.
       read_s5 ac table st (\<lambda>slp_typ.
         let len = push_bit 13 1;
             st = st\<lparr>ACPI_SHUTDOWN := \<lparr>pm1a_control_block = pm1a, slp_typ_a = slp_typ, slp_len = len,
                                        use_qemu_fallback = False\<rparr>\<rparr>
         in Inr (st\<lparr>acpi_log := acpi_log st @
                   [debug ''PM1A Control Block: {:#x}'' [ArgU64 pm1a],
                    debug ''S5 Sleep Type: {:#x}'' [ArgU16 slp_typ],
                    debug ''S5 Sleep Length: {:#x}'' [ArgU16 len]]\<rparr>)))))))"

section \<open>acpi::shutdown\<close>

definition acpi_shutdown :: "'d ports \<Rightarrow> AcpiShutdown \<Rightarrow> 'd \<Rightarrow> log_record list \<times> 'd" where
  "acpi_shutdown io shutdown_info d =
     (if use_qemu_fallback shutdown_info
      then ([debug ''Using QEMU debug exit for shutdown'' []], out32 io 0xf4 0x10 d)
      else ([debug ''Using ACPI S5 sleep for shutdown'' []],
            out16 io (ucast (pm1a_control_block shutdown_info))
              (slp_typ_a shutdown_info OR slp_len shutdown_info) d))"

section \<open>Properties\<close>

definition failure_logged :: "acpi_state \<Rightarrow> acpi_state \<Rightarrow> bool" where
  "failure_logged st st' \<longleftrightarrow> ACPI_SHUTDOWN st' = ACPI_SHUTDOWN st \<and>
     (\<exists>msg args. acpi_log st' = acpi_log st @ [error msg args, warn ''Using QEMU fallback for shutdown'' []])"

lemma give_up_logged: "\<exists>st'. give_up msg args st = Inr st' \<and> failure_logged st st'"
  by (auto simp: give_up_def failure_logged_def)

definition s5_found :: "('tables, 'fadt, 'ns, 'name) acpi_crate \<Rightarrow> u8 list \<Rightarrow> u64 \<Rightarrow> bool" where
  "s5_found ac table v \<longleftrightarrow> (\<exists>aml name vs. parse_table ac table = Inr aml \<and>
     AmlName_from_str ac (CHR 0x5C # ''_S5'') = Inr name \<and>
     get_by_path ac aml name = Inr (Package (Integer v # vs)))"

lemma read_s5_cases:
  "(\<exists>st'. read_s5 ac table st k = Inr st' \<and> failure_logged st st') \<or>
   (\<exists>v. s5_found ac table v \<and> read_s5 ac table st k = k (ucast v))"
proof (cases "parse_table ac table")
  case (Inl e)
  then show ?thesis using give_up_logged by (simp add: read_s5_def)
next
  case aml: (Inr aml)
  show ?thesis
  proof (cases "AmlName_from_str ac (CHR 0x5C # ''_S5'')")
    case (Inl e)
    then show ?thesis using aml give_up_logged by (simp add: read_s5_def)
  next
    case name: (Inr name)
    show ?thesis
    proof (cases "\<exists>v vs. get_by_path ac aml name = Inr (Package (Integer v # vs))")
      case True
      then show ?thesis using aml name by (auto simp: read_s5_def s5_found_def)
    next
      case False
      then have "\<exists>msg args. read_s5 ac table st k = give_up msg args st"
        using aml name by (auto simp: read_s5_def split: sum.split aml_value.split list.split)
      then show ?thesis using give_up_logged by metis
    qed
  qed
qed

lemma acpi_init_cases:
  "(\<exists>st'. acpi_init ac c cell m rsdp st = Inr st' \<and> failure_logged st st') \<or>
   (\<exists>tables d fadt pm1a e. from_rsdp ac rsdp = Inr tables \<and> dsdt ac tables = Inr d \<and> find_fadt ac tables = Some fadt \<and>
      pm1a_control_block_of ac fadt = Inr pm1a \<and> aml_bytes c cell m d = Inl e \<and> acpi_init ac c cell m rsdp st = Inl e) \<or>
   (\<exists>st' tables d fadt pm1a table v. acpi_init ac c cell m rsdp st = Inr st' \<and>
      from_rsdp ac rsdp = Inr tables \<and> dsdt ac tables = Inr d \<and> find_fadt ac tables = Some fadt \<and>
      pm1a_control_block_of ac fadt = Inr pm1a \<and> aml_bytes c cell m d = Inr table \<and> s5_found ac table v \<and>
      ACPI_SHUTDOWN st' = \<lparr>pm1a_control_block = pm1a, slp_typ_a = ucast v, slp_len = 0x2000,
                            use_qemu_fallback = False\<rparr>)"
proof -
  consider (gave_up) msg args where "acpi_init ac c cell m rsdp st = give_up msg args st"
    | (tables) tables d fadt pm1a where "from_rsdp ac rsdp = Inr tables" "dsdt ac tables = Inr d"
        "find_fadt ac tables = Some fadt" "pm1a_control_block_of ac fadt = Inr pm1a"
    by (cases "from_rsdp ac rsdp"; cases "dsdt ac (projr (from_rsdp ac rsdp))";
        cases "find_fadt ac (projr (from_rsdp ac rsdp))";
        cases "pm1a_control_block_of ac (the (find_fadt ac (projr (from_rsdp ac rsdp))))")
      (auto simp: acpi_init_def)
  then show ?thesis
  proof cases
    case gave_up
    then show ?thesis using give_up_logged by metis
  next
    case tables
    show ?thesis
    proof (cases "aml_bytes c cell m d")
      case (Inl e)
      then show ?thesis using tables by (auto simp: acpi_init_def)
    next
      case (Inr table)
      then show ?thesis
        using tables read_s5_cases [of ac table st] by (fastforce simp: acpi_init_def Let_def)
    qed
  qed
qed

text \<open>
  The bytes of AML behind the header of the DSDT, when it can be read: the memory window is set up,
  shows the table, and the table has a whole header.
\<close>

definition dsdt_code :: "u64 option \<Rightarrow> mem \<Rightarrow> dsdt_table \<Rightarrow> u8 list \<Rightarrow> bool" where
  "dsdt_code cell m d code \<longleftrightarrow> (\<exists>off. cell = Some off \<and> unat (phys_address d) < 2 ^ 52 \<and>
     unat off + unat (phys_address d) < 2 ^ 64 \<and> canonical (off + phys_address d) \<and> 36 \<le> unat (dsdt_length d) \<and>
     code = map (\<lambda>i. m (off + phys_address d + 36 + of_nat i)) [0..<unat (dsdt_length d) - 36])"

text \<open>The documented panics of the address types.\<close>

definition paging_panics :: "paging_crate \<Rightarrow> bool" where
  "paging_panics c \<longleftrightarrow> (\<forall>a. 2 ^ 52 \<le> unat a \<longrightarrow> (\<exists>e. PhysAddr_new c a = Inl e)) \<and>
     (\<forall>a. \<not> canonical a \<longrightarrow> (\<exists>e. VirtAddr_new c a = Inl e))"

lemma aml_bytes_code:
  assumes "paging_docs c" "dsdt_code cell m d code"
  shows "aml_bytes c cell m d = Inr code"
proof -
  have len: "unat (ucast (dsdt_length d) :: u64) = unat (dsdt_length d)"
    using unsigned_less [of "dsdt_length d", where ?'a = nat] by (simp add: unsigned_ucast_eq take_bit_nat_eq_self)
  obtain off where off: "cell = Some off" "unat (phys_address d) < 2 ^ 52" "unat off + unat (phys_address d) < 2 ^ 64"
      "canonical (off + phys_address d)" "36 \<le> unat (dsdt_length d)"
      "code = map (\<lambda>i. m (off + phys_address d + 36 + of_nat i)) [0..<unat (dsdt_length d) - 36]"
    using assms(2) unfolding dsdt_code_def by blast
  have "sub_checked (ucast (dsdt_length d)) (36 :: u64) = Inr (ucast (dsdt_length d) - 36)"
      "unat (ucast (dsdt_length d) - 36 :: u64) = unat (dsdt_length d) - 36"
    using off(5) len by (simp_all add: sub_checked_def word_le_nat_alt unat_sub)
  then show ?thesis
    using off(1-4,6) by (simp add: aml_bytes_def physical_to_virtual_def add_checked_def paging_docsD [OF assms(1)] ACPI_TABLE_HEADER_SIZE_def)
qed

lemma aml_bytes_panics:
  assumes "paging_docs c" "paging_panics c" "\<nexists>code. dsdt_code cell m d code"
  shows "\<exists>e. aml_bytes c cell m d = Inl e"
proof (rule ccontr)
  assume "\<nexists>e. aml_bytes c cell m d = Inl e"
  then obtain code where run: "aml_bytes c cell m d = Inr code" by (cases "aml_bytes c cell m d") auto
  have len: "unat (ucast (dsdt_length d) :: u64) = unat (dsdt_length d)"
    using unsigned_less [of "dsdt_length d", where ?'a = nat] by (simp add: unsigned_ucast_eq take_bit_nat_eq_self)
  have phys: "unat (phys_address d) < 2 ^ 52"
  proof (rule ccontr)
    assume "\<not> ?thesis"
    then obtain e where "PhysAddr_new c (phys_address d) = Inl e" using assms(2) unfolding paging_panics_def by (meson not_le)
    with run show False by (simp add: aml_bytes_def)
  qed
  then have "PhysAddr_new c (phys_address d) = Inr (phys_address d)" by (rule paging_docsD [OF assms(1)])
  with run obtain off a where off: "cell = Some off" "unat off + unat (phys_address d) < 2 ^ 64"
      "VirtAddr_new c (off + phys_address d) = Inr a" "36 \<le> unat (dsdt_length d)"
    by (auto simp: aml_bytes_def physical_to_virtual_def unwrap_def add_checked_def sub_checked_def outcome_simps
        ACPI_TABLE_HEADER_SIZE_def word_le_nat_alt len split: option.splits if_splits)
  then have "canonical (off + phys_address d)" using assms(2) unfolding paging_panics_def by fastforce
  then show False using assms(3) off phys unfolding dsdt_code_def by blast
qed

text \<open>
  The firmware answers every question of \<open>init\<close>, with the control block and the S5 value; or everything
  up to the control block, but its DSDT cannot be read.
\<close>

definition s5_values ::
  "('tables, 'fadt, 'ns, 'name) acpi_crate \<Rightarrow> u64 option \<Rightarrow> mem \<Rightarrow> u64 \<Rightarrow> u64 \<Rightarrow> u64 \<Rightarrow> bool" where
  "s5_values ac cell m rsdp pm1a v \<longleftrightarrow> (\<exists>tables d fadt code. from_rsdp ac rsdp = Inr tables \<and> dsdt ac tables = Inr d \<and>
     find_fadt ac tables = Some fadt \<and> pm1a_control_block_of ac fadt = Inr pm1a \<and>
     dsdt_code cell m d code \<and> s5_found ac code v)"

definition dsdt_unreadable ::
  "('tables, 'fadt, 'ns, 'name) acpi_crate \<Rightarrow> u64 option \<Rightarrow> mem \<Rightarrow> u64 \<Rightarrow> bool" where
  "dsdt_unreadable ac cell m rsdp \<longleftrightarrow> (\<exists>tables d fadt pm1a. from_rsdp ac rsdp = Inr tables \<and> dsdt ac tables = Inr d \<and>
     find_fadt ac tables = Some fadt \<and> pm1a_control_block_of ac fadt = Inr pm1a \<and> (\<nexists>code. dsdt_code cell m d code))"

text \<open>
  C21. \<open>acpi::init\<close> is all or nothing, and which it is depends on the firmware alone. When every lookup
  succeeds it stores a complete record: the firmware's control block, the sleep type of the first
  element of the S5 package in the AML behind the DSDT's header, the sleep-enable bit, and no fallback. When
  the lookups succeed up to the control block but the DSDT lies outside the memory window or is
  shorter than its header, it panics. In every other case it returns with the shutdown record
  untouched, having logged an error and the announcement of the fallback.
\<close>

theorem acpi_init_all_or_nothing:
  assumes "paging_docs c" "paging_panics c"
  shows "(s5_values ac cell m rsdp pm1a v \<longrightarrow>
      (\<exists>st'. acpi_init ac c cell m rsdp st = Inr st' \<and>
         ACPI_SHUTDOWN st' = \<lparr>pm1a_control_block = pm1a, slp_typ_a = ucast v, slp_len = 0x2000, use_qemu_fallback = False\<rparr>)) \<and>
   (dsdt_unreadable ac cell m rsdp \<longrightarrow> (\<exists>e. acpi_init ac c cell m rsdp st = Inl e)) \<and>
   ((\<nexists>pm1a v. s5_values ac cell m rsdp pm1a v) \<and> \<not> dsdt_unreadable ac cell m rsdp \<longrightarrow>
      (\<exists>st'. acpi_init ac c cell m rsdp st = Inr st' \<and> failure_logged st st'))"
proof (intro conjI impI)
  assume "s5_values ac cell m rsdp pm1a v"
  then show "\<exists>st'. acpi_init ac c cell m rsdp st = Inr st' \<and>
      ACPI_SHUTDOWN st' = \<lparr>pm1a_control_block = pm1a, slp_typ_a = ucast v, slp_len = 0x2000, use_qemu_fallback = False\<rparr>"
    by (auto simp: s5_values_def s5_found_def acpi_init_def read_s5_def Let_def aml_bytes_code [OF assms(1)])
next
  assume "dsdt_unreadable ac cell m rsdp"
  then show "\<exists>e. acpi_init ac c cell m rsdp st = Inl e"
    using aml_bytes_panics [OF assms, of cell m] by (fastforce simp: dsdt_unreadable_def acpi_init_def)
next
  assume none: "(\<nexists>pm1a v. s5_values ac cell m rsdp pm1a v) \<and> \<not> dsdt_unreadable ac cell m rsdp"
  have "\<exists>code. dsdt_code cell m d code \<and> aml_bytes c cell m d = Inr code"
    if "from_rsdp ac rsdp = Inr tables" "dsdt ac tables = Inr d" "find_fadt ac tables = Some fadt"
      "pm1a_control_block_of ac fadt = Inr pm1a" for tables d fadt pm1a
    using that none aml_bytes_code [OF assms(1)] unfolding dsdt_unreadable_def by blast
  note code = this
  from acpi_init_cases [of ac c cell m rsdp st]
  show "\<exists>st'. acpi_init ac c cell m rsdp st = Inr st' \<and> failure_logged st st'"
  proof (elim disjE exE conjE)
    fix tables d fadt pm1a e
    assume "from_rsdp ac rsdp = Inr tables" "dsdt ac tables = Inr d" "find_fadt ac tables = Some fadt"
      "pm1a_control_block_of ac fadt = Inr pm1a" "aml_bytes c cell m d = Inl e"
    with code show ?thesis by fastforce
  next
    fix tables d fadt pm1a table v
    assume lookups: "from_rsdp ac rsdp = Inr tables" "dsdt ac tables = Inr d" "find_fadt ac tables = Some fadt"
      "pm1a_control_block_of ac fadt = Inr pm1a" "aml_bytes c cell m d = Inr table" "s5_found ac table v"
    with code [OF lookups(1-4)] have "s5_values ac cell m rsdp pm1a v" unfolding s5_values_def by auto
    with none show ?thesis by blast
  qed blast
qed

text \<open>A firmware with a control block at \<open>0x604\<close> and S5 type 5, and an empty DSDT at the start of memory.\<close>

definition example_acpi :: "(unit, unit, unit, unit) acpi_crate" where
  "example_acpi = \<lparr>from_rsdp = (\<lambda>_. Inr ()), dsdt = (\<lambda>_. Inr \<lparr>phys_address = 0, dsdt_length = 36\<rparr>), find_fadt = (\<lambda>_. Some ()),
     pm1a_control_block_of = (\<lambda>_. Inr 0x604), parse_table = (\<lambda>_. Inr ()), AmlName_from_str = (\<lambda>_. Inr ()),
     get_by_path = (\<lambda>_ _. Inr (Package [Integer 5]))\<rparr>"

theorem acpi_init_all_or_nothing_witness:
  "\<exists>st'. acpi_init example_acpi std_paging (Some 0) (\<lambda>_. 0) 0xE0000 \<lparr>ACPI_SHUTDOWN = ACPI_SHUTDOWN_initial, acpi_log = []\<rparr> = Inr st' \<and>
     ACPI_SHUTDOWN st' = \<lparr>pm1a_control_block = 0x604, slp_typ_a = 5, slp_len = 0x2000, use_qemu_fallback = False\<rparr>"
proof -
  have "paging_panics std_paging" by (auto simp: paging_panics_def std_paging_def)
  moreover have "s5_values example_acpi (Some 0) (\<lambda>_. 0) 0xE0000 0x604 5"
    by (simp add: s5_values_def s5_found_def example_acpi_def dsdt_code_def canonical_def)
  ultimately show ?thesis
    using acpi_init_all_or_nothing [OF std_paging_docs, of example_acpi "Some 0" "\<lambda>_. 0" "0xE0000" "0x604" 5] by simp
qed

text \<open>
  C39. Switching off: with the fallback, \<open>shutdown\<close> writes the exit code to QEMU's debug port; otherwise
  it writes one word with the sleep-enable bit set to the control block's port. The sleep type goes
  into the word unshifted: for every type below eight the sleep-type field of the register (bits
  10 to 12) is written as zero, so the transition is to S5 only on a machine whose S5 type is zero.
\<close>

theorem shutdown_word:
  assumes "v < 8"
  shows "snd (acpi_shutdown (recording answer) ACPI_SHUTDOWN_initial d) = d @ [Out32 0xf4 0x10] \<and>
    (\<exists>w. snd (acpi_shutdown (recording answer)
            \<lparr>pm1a_control_block = pm1a, slp_typ_a = v, slp_len = 0x2000, use_qemu_fallback = False\<rparr> d) =
          d @ [Out16 (ucast pm1a) w] \<and>
       bit w 13 \<and> take_bit 3 (drop_bit 10 w) = 0 \<and> take_bit 3 w = v)"
proof -
  have v: "v = take_bit 3 v"
    using assms by (simp add: take_bit_eq_mod word_less_nat_alt word_unat_eq_iff unat_mod)
  have "drop_bit 10 (take_bit 3 v OR push_bit 13 1) = push_bit 3 1"
    by (rule bit_eqI) (auto simp: bit_simps)
  moreover have "take_bit 3 (take_bit 3 v OR push_bit 13 1) = take_bit 3 v"
    by (rule bit_eqI) (auto simp: bit_simps)
  ultimately have "take_bit 3 (drop_bit 10 (v OR 0x2000)) = 0" "take_bit 3 (v OR 0x2000) = v"
    using v by simp_all
  moreover have "bit (v OR 0x2000) 13" by (simp add: bit_simps)
  ultimately show ?thesis by (simp add: acpi_shutdown_def ACPI_SHUTDOWN_initial_def)
qed

theorem shutdown_word_witness:
  "\<exists>w. snd (acpi_shutdown (recording (\<lambda>_ _. 0))
          \<lparr>pm1a_control_block = 0x604, slp_typ_a = 5, slp_len = 0x2000, use_qemu_fallback = False\<rparr> []) =
        [Out16 0x604 w] \<and> take_bit 3 (drop_bit 10 w) = 0"
  using shutdown_word [of 5 "\<lambda>_ _. 0" "[]" "0x604"] by auto

end
