(* ===== verification/Apic.thy ===== *)
theory Apic
  imports Memory Port_Io Logging
begin

text \<open>
  Interrupt controllers, \<^verbatim>\<open>kernel/src/apic.rs\<close>: the 8259 PICs are reprogrammed and masked, the
  local APIC and the I/O APICs the firmware reports are set up. The register-level drivers are the
  \<^verbatim>\<open>x2apic\<close> crate's; the model keeps the sequence of calls made to them, \<open>apic_calls\<close>.
  \<open>build_ok\<close> tells whether \<open>LocalApicBuilder::build\<close> accepts a configuration, \<open>platform\<close> what the ACPI
  crate reports.
\<close>

datatype irq_mode = Fixed

record redirection_entry =
  re_mode :: irq_mode
  re_vector :: u8
  re_dest :: u8

datatype apic_call =
    IoApic_new u64
  | IoApic_init u64 u8
  | IoApic_set_table_entry u64 u8 redirection_entry
  | IoApic_enable_irq u64 u8
  | LocalApic_enable u64
  | LocalApic_end_of_interrupt u64

record lapic_config =
  timer_vector :: u8
  error_vector :: u8
  spurious_vector :: u8
  xapic_base :: u64

text \<open>An \<open>IoApic\<close> is its base address, a \<open>LocalApic\<close> the configuration it was built from.\<close>

record IOApic =
  io_addr :: u64
  ioapic :: "u64 option"

record LApic =
  l_addr :: u64
  lapic :: "lapic_config option"

record 'd apic_state =
  IOAPIC :: "IOApic list option"
  LAPIC :: "LApic option"
  apic_calls :: "apic_call list"
  apic_ports :: 'd
  apic_log :: "log_record list"

section \<open>I/O APICs\<close>

definition phys_u64 :: "paging_crate \<Rightarrow> u64 option \<Rightarrow> u64 \<Rightarrow> u64 outcome" where
  "phys_u64 c cell addr = and_then (PhysAddr_new c addr) (\<lambda>p. physical_to_virtual c cell p)"

definition IOApic_new :: "paging_crate \<Rightarrow> u64 option \<Rightarrow> u64 \<Rightarrow> IOApic outcome" where
  "IOApic_new c cell addr = and_then (phys_u64 c cell addr) (\<lambda>v. Inr \<lparr>io_addr = v, ioapic = None\<rparr>)"

definition IOApic_init :: "IOApic \<Rightarrow> IOApic \<times> apic_call list \<times> log_record list" where
  "IOApic_init a = (a\<lparr>ioapic := Some (io_addr a)\<rparr>, [IoApic_new (io_addr a)],
                    [debug ''Initializing IOAPIC'' [], debug ''IOAPIC initialized'' []])"

definition IOApic_enable :: "IOApic \<Rightarrow> apic_call list" where
  "IOApic_enable a =
     (case ioapic a of
        None \<Rightarrow> []
      | Some io \<Rightarrow> [IoApic_init io 32,
                    IoApic_set_table_entry io 1 \<lparr>re_mode = Fixed, re_vector = 33, re_dest = 0\<rparr>,
                    IoApic_enable_irq io 1])"

definition get_ioapic :: "IOApic \<Rightarrow> u64 option" where
  "get_ioapic a = ioapic a"

definition init_ioapic :: "paging_crate \<Rightarrow> u64 option \<Rightarrow> u64 \<Rightarrow> 'd apic_state \<Rightarrow> 'd apic_state outcome" where
  "init_ioapic c cell ioapic_addr st =
     and_then (case IOAPIC st of
                 Some v \<Rightarrow> Inr v
               | None \<Rightarrow> and_then (IOApic_new c cell ioapic_addr) (\<lambda>a. Inr [a])) (\<lambda>v.
     and_then (IOApic_new c cell ioapic_addr) (\<lambda>a.
       Inr (st\<lparr>IOAPIC := Some (v @ [a])\<rparr>)))"

section \<open>The local APIC\<close>

definition LApic_new :: "paging_crate \<Rightarrow> u64 option \<Rightarrow> u64 \<Rightarrow> LApic outcome" where
  "LApic_new c cell addr = and_then (phys_u64 c cell addr) (\<lambda>v. Inr \<lparr>l_addr = v, lapic = None\<rparr>)"

definition disable_8259 :: "'d ports \<Rightarrow> 'd \<Rightarrow> 'd" where
  "disable_8259 io d =
     (let spin = out8 io 0x80 0;
          d = out8 io 0x20 0x11 d;
          d = out8 io 0xa0 0x11 d;
          d = spin d;
          d = out8 io 0x21 0xf8 d;
          d = out8 io 0xa1 0xff d;
          d = spin d;
          d = out8 io 0x21 0b100 d;
          d = spin d;
          d = out8 io 0xa1 0b10 d;
          d = spin d;
          d = out8 io 0x21 0x1 d;
          d = out8 io 0xa1 0x1 d;
          d = spin d;
          d = out8 io 0x21 0xFF d
      in out8 io 0xa1 0xFF d)"

definition LApic_init :: "(lapic_config \<Rightarrow> bool) \<Rightarrow> LApic \<Rightarrow> LApic" where
  "LApic_init build_ok a =
     (let config = \<lparr>timer_vector = 32, error_vector = 51, spurious_vector = 0xff, xapic_base = l_addr a\<rparr>
      in a\<lparr>lapic := (if build_ok config then Some config else None)\<rparr>)"

definition LApic_enable :: "LApic \<Rightarrow> apic_call outcome" where
  "LApic_enable a = and_then (unwrap (lapic a)) (\<lambda>l. Inr (LocalApic_enable (xapic_base l)))"

definition end_interrupts :: "LApic \<Rightarrow> apic_call outcome" where
  "end_interrupts a = and_then (unwrap (lapic a)) (\<lambda>l. Inr (LocalApic_end_of_interrupt (xapic_base l)))"

definition init_lapic ::
  "(lapic_config \<Rightarrow> bool) \<Rightarrow> paging_crate \<Rightarrow> u64 option \<Rightarrow> 'd ports \<Rightarrow> u64 \<Rightarrow> 'd apic_state \<Rightarrow> 'd apic_state outcome" where
  "init_lapic build_ok c cell io lapic_addr st =
     and_then (case LAPIC st of Some a \<Rightarrow> Inr a | None \<Rightarrow> LApic_new c cell lapic_addr) (\<lambda>a.
       Inr (st\<lparr>LAPIC := Some (LApic_init build_ok a), apic_ports := disable_8259 io (apic_ports st)\<rparr>))"

section \<open>apic::init\<close>

datatype interrupt_model = Apic u64 "u32 list" | OtherModel

text \<open>The model as the log prints it.\<close>

fun model_arg :: "interrupt_model \<Rightarrow> fmt_arg" where
  "model_arg (Apic la ios) = ArgFmt ''Apic'' (ArgU64 la # map ArgU32 ios)"
| "model_arg OtherModel = ArgStr ''Unknown''"

fun init_ioapics :: "paging_crate \<Rightarrow> u64 option \<Rightarrow> u32 list \<Rightarrow> 'd apic_state \<Rightarrow> 'd apic_state outcome" where
  "init_ioapics c cell [] st = Inr st"
| "init_ioapics c cell (i # is) st =
     and_then (init_ioapic c cell (ucast i) st) (\<lambda>st.
       init_ioapics c cell is (st\<lparr>apic_log := apic_log st @ [debug ''IO Pushed: {:?}'' [ArgU32 i]]\<rparr>))"

fun enable_ioapics :: "IOApic list \<Rightarrow> IOApic list \<times> apic_call list \<times> log_record list" where
  "enable_ioapics [] = ([], [], [])"
| "enable_ioapics (a # as) =
     (let (a, calls, logs) = IOApic_init a;
          calls = calls @ IOApic_enable a;
          logs = logs @ [debug ''IO Enabled: {:?}'' [ArgU64 (the (get_ioapic a))]];
          (as, calls', logs') = enable_ioapics as
      in (a # as, calls @ calls', logs @ logs'))"

definition apic_init ::
  "(u64 \<Rightarrow> fmt_arg + interrupt_model) \<Rightarrow> (lapic_config \<Rightarrow> bool) \<Rightarrow> paging_crate \<Rightarrow> u64 option \<Rightarrow> 'd ports
     \<Rightarrow> u64 \<Rightarrow> 'd apic_state \<Rightarrow> 'd apic_state outcome" where
  "apic_init platform build_ok c cell io rsdp_addr st =
     (case platform rsdp_addr of
        Inl e \<Rightarrow> Inl (ExpectFailed ''called Result::unwrap() on an Err value'')
      | Inr model \<Rightarrow>
         (let st = st\<lparr>apic_log := apic_log st @ [debug ''Interrupt Model: {:?}'' [model_arg model]]\<rparr> in
          case model of
            OtherModel \<Rightarrow> Inr st
          | Apic local_apic_address io_apics \<Rightarrow>
              and_then (init_lapic build_ok c cell io local_apic_address st) (\<lambda>st.
              and_then (init_ioapics c cell io_apics st) (\<lambda>st.
              and_then (unwrap (IOAPIC st)) (\<lambda>v.
              let (v, calls, logs) = enable_ioapics v;
                  st = st\<lparr>IOAPIC := Some v, apic_calls := apic_calls st @ calls, apic_log := apic_log st @ logs\<rparr> in
              and_then (unwrap (LAPIC st)) (\<lambda>l.
              and_then (LApic_enable l) (\<lambda>call.
                Inr (st\<lparr>apic_calls := apic_calls st @ [call]\<rparr>))))))))"

section \<open>Properties\<close>

text \<open>The accesses to the ports of one PIC.\<close>

fun at_ports :: "u16 set \<Rightarrow> io_access \<Rightarrow> bool" where
  "at_ports P (Out8 p v) = (p \<in> P)"
| "at_ports P _ = False"

text \<open>
  Each 8259 gets its initialisation words in the order the chip requires, command word first, then
  vector offset, cascade and mode on the data port, and is left with all its lines masked.
\<close>

lemma disable_8259_masks:
  "filter (at_ports {0x20, 0x21}) (disable_8259 (recording answer) []) =
     [Out8 0x20 0x11, Out8 0x21 0xf8, Out8 0x21 4, Out8 0x21 1, Out8 0x21 0xFF] \<and>
   filter (at_ports {0xa0, 0xa1}) (disable_8259 (recording answer) []) =
     [Out8 0xa0 0x11, Out8 0xa1 0xff, Out8 0xa1 2, Out8 0xa1 1, Out8 0xa1 0xFF]"
  by (simp add: disable_8259_def Let_def)

lemma phys_u64_run:
  assumes "paging_docs c" "unat a < 2 ^ 52" "unat off + unat a < 2 ^ 64" "canonical (off + a)"
  shows "phys_u64 c (Some off) a = Inr (off + a)"
  using assms by (simp add: phys_u64_def physical_to_virtual_def add_checked_def paging_docsD)

definition programmed :: "u64 \<Rightarrow> apic_call list" where
  "programmed v = [IoApic_new v, IoApic_init v 32,
     IoApic_set_table_entry v 1 \<lparr>re_mode = Fixed, re_vector = 33, re_dest = 0\<rparr>, IoApic_enable_irq v 1]"

lemma enable_ioapics_calls:
  "fst (snd (enable_ioapics as)) = concat (map (\<lambda>a. programmed (io_addr a)) as)"
  by (induction as) (auto simp: IOApic_init_def IOApic_enable_def programmed_def case_prod_beta Let_def)

lemma init_ioapics_run:
  assumes "\<forall>i \<in> set is. phys_u64 c cell (ucast i) = Inr (off + ucast i)" "IOAPIC st = Some v"
  shows "\<exists>st'. init_ioapics c cell is st = Inr st' \<and>
     IOAPIC st' = Some (v @ map (\<lambda>i. \<lparr>io_addr = off + ucast i, ioapic = None\<rparr>) is) \<and>
     LAPIC st' = LAPIC st \<and> apic_calls st' = apic_calls st \<and> apic_ports st' = apic_ports st"
  using assms
proof (induction "is" arbitrary: st v)
  case (Cons i "is")
  let ?a = "\<lparr>io_addr = off + ucast i, ioapic = None\<rparr>"
  have "init_ioapic c cell (ucast i) st = Inr (st\<lparr>IOAPIC := Some (v @ [?a])\<rparr>)"
    using Cons.prems by (simp add: init_ioapic_def IOApic_new_def)
  then show ?case
    using Cons.IH [of "st\<lparr>IOAPIC := Some (v @ [?a]), apic_log := apic_log st @ [debug ''IO Pushed: {:?}'' [ArgU32 i]]\<rparr>"
        "v @ [?a]"] Cons.prems(1) by auto
qed simp

lemma apic_init_run:
  assumes "platform rsdp = Inr (Apic la (i # is))" "IOAPIC st = None" "LAPIC st = None"
    and "build_ok \<lparr>timer_vector = 32, error_vector = 51, spurious_vector = 0xff, xapic_base = off + la\<rparr>"
    and "phys_u64 c cell la = Inr (off + la)"
      "\<forall>j \<in> set (i # is). phys_u64 c cell (ucast j) = Inr (off + ucast j)"
  shows "\<exists>st'. apic_init platform build_ok c cell io rsdp st = Inr st' \<and>
     apic_ports st' = disable_8259 io (apic_ports st) \<and>
     map_option (map io_addr) (IOAPIC st') = Some (map (\<lambda>j. off + ucast j) (i # i # is)) \<and>
     map_option lapic (LAPIC st') = Some (Some \<lparr>timer_vector = 32, error_vector = 51, spurious_vector = 0xff, xapic_base = off + la\<rparr>) \<and>
     apic_calls st' = apic_calls st @
       concat (map (\<lambda>j. programmed (off + ucast j)) (i # i # is)) @ [LocalApic_enable (off + la)]"
proof -
  let ?new = "\<lambda>j :: u32. \<lparr>io_addr = off + ucast j, ioapic = None\<rparr>"
  let ?lapic = "\<lparr>l_addr = off + la,
    lapic = Some \<lparr>timer_vector = 32, error_vector = 51, spurious_vector = 0xff, xapic_base = off + la\<rparr>\<rparr>"
  define st1 where "st1 = st\<lparr>apic_log := apic_log st @ [debug ''Interrupt Model: {:?}'' [model_arg (Apic la (i # is))]],
    LAPIC := Some ?lapic, apic_ports := disable_8259 io (apic_ports st)\<rparr>"
  have lapic: "init_lapic build_ok c cell io la (st\<lparr>apic_log := apic_log st @ [debug ''Interrupt Model: {:?}'' [model_arg (Apic la (i # is))]]\<rparr>) =
      Inr st1"
    using assms(3-5) by (simp add: init_lapic_def LApic_new_def LApic_init_def st1_def Let_def)
  have "init_ioapic c cell (ucast i) st1 = Inr (st1\<lparr>IOAPIC := Some [?new i, ?new i]\<rparr>)"
    using assms(2,6) by (simp add: init_ioapic_def IOApic_new_def st1_def)
  then obtain st2 where st2: "init_ioapics c cell (i # is) st1 = Inr st2"
      "IOAPIC st2 = Some (map ?new (i # i # is))" "LAPIC st2 = Some ?lapic"
      "apic_calls st2 = apic_calls st" "apic_ports st2 = disable_8259 io (apic_ports st)"
    using init_ioapics_run [of "is" c cell off "st1\<lparr>IOAPIC := Some [?new i, ?new i],
        apic_log := apic_log st1 @ [debug ''IO Pushed: {:?}'' [ArgU32 i]]\<rparr>" "[?new i, ?new i]"] assms(6)
    by (auto simp: st1_def)
  define js ns where "js = i # is" and "ns = i # js"
  note st2 = st2 [folded js_def, folded ns_def]
  obtain v calls logs where v: "enable_ioapics (map ?new ns) = (v, calls, logs)" by (metis prod_cases3)
  have "map io_addr (fst (enable_ioapics as)) = map io_addr as" for as
    by (induction as) (auto simp: IOApic_init_def case_prod_beta Let_def)
  from this [of "map ?new ns"] enable_ioapics_calls [of "map ?new ns"] show ?thesis
    using assms(1) lapic st2 unfolding js_def [symmetric] ns_def [symmetric]
    by (simp add: apic_init_def v LApic_enable_def comp_def)
qed

text \<open>
  An 8259 as its data sheet describes it, reading the writes to its command and data ports: a command
  with bit 4 set starts an initialisation and clears the mask, one to three words on the data port
  follow (the vector base, the cascade unless bit 1, the mode if bit 0), and every later word on
  the data port is the mask. The state is the number of words still awaited and the mask.
\<close>

fun pic_step :: "u16 \<Rightarrow> u16 \<Rightarrow> io_access \<Rightarrow> nat \<times> u8 \<Rightarrow> nat \<times> u8" where
  "pic_step cmd data (Out8 p v) (awaited, imask) =
     (if p = cmd \<and> bit v 4 then (1 + of_bool (\<not> bit v 1) + of_bool (bit v 0), 0)
      else if p = data then (if awaited = 0 then (0, v) else (awaited - 1, imask))
      else (awaited, imask))"
| "pic_step cmd data _ s = s"

lemma disable_8259_trace:
  "\<exists>tr. disable_8259 (recording answer) d = d @ tr \<and>
     (\<forall>s. fold (pic_step 0x20 0x21) tr s = (0, 0xFF) \<and> fold (pic_step 0xa0 0xa1) tr s = (0, 0xFF))"
  by (auto simp: disable_8259_def Let_def)

text \<open>
  C25. \<open>apic::init\<close> on a machine with a local APIC at \<open>la\<close> and I/O APICs at \<open>i # is\<close>: the port writes leave both
  8259 controllers, whatever their state, initialised and with all lines masked, every I/O APIC is
  programmed with the keyboard line on vector 33, and the local APIC is configured and enabled last. The
  list of I/O APICs is created with the first one already in it, so the first is registered and
  programmed twice.
\<close>

theorem apic_init_programs:
  assumes "platform rsdp = Inr (Apic la (i # is))" "IOAPIC st = None" "LAPIC st = None"
    and "build_ok \<lparr>timer_vector = 32, error_vector = 51, spurious_vector = 0xff, xapic_base = off + la\<rparr>"
    and "phys_u64 c cell la = Inr (off + la)"
      "\<forall>j \<in> set (i # is). phys_u64 c cell (ucast j) = Inr (off + ucast j)"
  shows "\<exists>st' tr. apic_init platform build_ok c cell (recording answer) rsdp st = Inr st' \<and>
     apic_ports st' = apic_ports st @ tr \<and>
     (\<forall>s. fold (pic_step 0x20 0x21) tr s = (0, 0xFF) \<and> fold (pic_step 0xa0 0xa1) tr s = (0, 0xFF)) \<and>
     map_option (map io_addr) (IOAPIC st') = Some (map (\<lambda>j. off + ucast j) (i # i # is)) \<and>
     map_option lapic (LAPIC st') = Some (Some \<lparr>timer_vector = 32, error_vector = 51, spurious_vector = 0xff, xapic_base = off + la\<rparr>) \<and>
     apic_calls st' = apic_calls st @
       concat (map (\<lambda>j. programmed (off + ucast j)) (i # i # is)) @ [LocalApic_enable (off + la)]"
proof -
  obtain tr where "disable_8259 (recording answer) (apic_ports st) = apic_ports st @ tr"
    "\<forall>s. fold (pic_step 0x20 0x21) tr s = (0, 0xFF) \<and> fold (pic_step 0xa0 0xa1) tr s = (0, 0xFF)"
    using disable_8259_trace [of answer "apic_ports st"] by blast
  moreover have "\<exists>st'. apic_init platform build_ok c cell (recording answer) rsdp st = Inr st' \<and>
     apic_ports st' = disable_8259 (recording answer) (apic_ports st) \<and>
     map_option (map io_addr) (IOAPIC st') = Some (map (\<lambda>j. off + ucast j) (i # i # is)) \<and>
     map_option lapic (LAPIC st') = Some (Some \<lparr>timer_vector = 32, error_vector = 51, spurious_vector = 0xff, xapic_base = off + la\<rparr>) \<and>
     apic_calls st' = apic_calls st @
       concat (map (\<lambda>j. programmed (off + ucast j)) (i # i # is)) @ [LocalApic_enable (off + la)]"
    using assms by (rule apic_init_run)
  ultimately show ?thesis by metis
qed

theorem apic_init_programs_witness:
  "\<exists>st'. apic_init (\<lambda>_. Inr (Apic 0xFEE00000 [0xFEC00000])) (\<lambda>_. True) std_paging (Some 0x1000000000)
           (recording (\<lambda>_ _. 0)) 0 \<lparr>IOAPIC = None, LAPIC = None, apic_calls = [], apic_ports = [], apic_log = []\<rparr> = Inr st' \<and>
     apic_calls st' = programmed 0x10FEC00000 @ programmed 0x10FEC00000 @ [LocalApic_enable 0x10FEE00000]"
proof -
  let ?st = "\<lparr>IOAPIC = None, LAPIC = None, apic_calls = [], apic_ports = [], apic_log = []\<rparr> :: io_access list apic_state"
  have "phys_u64 std_paging (Some 0x1000000000) a = Inr (0x1000000000 + a)" if "unat a < 2 ^ 40" for a
  proof (rule phys_u64_run [OF std_paging_docs])
    have "unat (0x1000000000 + a) = 0x1000000000 + unat a" using that by (simp add: unat_word_ariths)
    then have "unat (drop_bit 47 (0x1000000000 + a)) = 0"
      using that by (simp only: unat_drop_bit_eq) (simp add: drop_bit_eq_div)
    then show "canonical (0x1000000000 + a)" by (simp add: canonical_def unat_eq_0)
  qed (use that in simp_all)
  then have "phys_u64 std_paging (Some 0x1000000000) 0xFEE00000 = Inr (0x1000000000 + 0xFEE00000)"
      "\<forall>j \<in> set [0xFEC00000 :: u32]. phys_u64 std_paging (Some 0x1000000000) (ucast j) = Inr (0x1000000000 + ucast j)"
    by simp_all
  from apic_init_programs [OF _ _ _ _ this, of "\<lambda>_. Inr (Apic 0xFEE00000 [0xFEC00000])" 0 ?st "\<lambda>_. True" "\<lambda>_ _. 0"]
  show ?thesis by auto
qed

text \<open>
  A machine that reports a local APIC but no I/O APIC does not boot: \<open>apic::init\<close> panics, and once the
  local APIC's address is mapped it does so at the missing list of I/O APICs.
\<close>

theorem apic_init_without_ioapic:
  assumes "platform rsdp = Inr (Apic la [])" "IOAPIC st = None"
  shows "apic_init platform build_ok c cell io rsdp st =
           (case LAPIC st of
              None \<Rightarrow> and_then (LApic_new c cell la) (\<lambda>_. Inl UnwrapNone)
            | Some _ \<Rightarrow> Inl UnwrapNone)"
  using assms
  by (cases "LApic_new c cell la") (auto simp: apic_init_def init_lapic_def Let_def split: option.split)

theorem apic_init_without_ioapic_witness:
  "apic_init (\<lambda>_. Inr (Apic 0xFEE00000 [])) (\<lambda>_. True) std_paging (Some 0x1000000000) (recording (\<lambda>_ _. 0)) 0
     \<lparr>IOAPIC = None, LAPIC = Some \<lparr>l_addr = 0, lapic = None\<rparr>, apic_calls = [], apic_ports = [], apic_log = []\<rparr> =
   Inl UnwrapNone"
  by (subst apic_init_without_ioapic) simp_all

end
