(* ===== verification/Gdt.thy ===== *)
theory Gdt
  imports Paging_Crate
begin

text \<open>
  Segmentation, \<^verbatim>\<open>kernel/src/gdt.rs\<close>: the task state segment with its interrupt stack table, the
  descriptor table, and loading both. \<open>GlobalDescriptorTable\<close> is the \<^verbatim>\<open>x86_64\<close> crate's: its
  operations are the record \<open>gdt_crate\<close>, and \<open>gdt_docs\<close> states that \<open>append\<close> places a descriptor
  into the next free entries and returns its selector. The stack's address and the table a new
  TSS starts with are arguments.
\<close>

definition DOUBLE_FAULT_IST_INDEX :: u16 where "DOUBLE_FAULT_IST_INDEX = 0"

definition DEBUG_IST_INDEX :: u16 where "DEBUG_IST_INDEX = 1"

definition NON_MASKABLE_INTERRUPT_IST_INDEX :: u16 where "NON_MASKABLE_INTERRUPT_IST_INDEX = 2"

section \<open>The task state segment\<close>

definition STACK_SIZE :: u64 where "STACK_SIZE = 4096 * 5"

fun fill_ist :: "paging_crate \<Rightarrow> u64 \<Rightarrow> nat \<Rightarrow> u16 list \<Rightarrow> u64 list \<Rightarrow> u64 list outcome" where
  "fill_ist c STACK i [] ist = Inr ist"
| "fill_ist c STACK i (_ # frames) ist =
     and_then (VirtAddr_new c STACK) (\<lambda>stack_start.
     and_then (virt_add c stack_start STACK_SIZE) (\<lambda>e.
     and_then (vec_set ist i e) (\<lambda>ist. fill_ist c STACK (Suc i) frames ist)))"

definition TSS_build :: "paging_crate \<Rightarrow> u64 \<Rightarrow> u64 list \<Rightarrow> u64 list outcome" where
  "TSS_build c STACK new_ist =
     fill_ist c STACK 0 [0, DOUBLE_FAULT_IST_INDEX, DEBUG_IST_INDEX, NON_MASKABLE_INTERRUPT_IST_INDEX] new_ist"

section \<open>The descriptor table\<close>

record ('g, 'desc) gdt_crate =
  GDT_new :: 'g
  gdt_append :: "'desc \<Rightarrow> 'g \<Rightarrow> (u16 \<times> 'g) outcome"
  kernel_code_segment :: 'desc
  kernel_data_segment :: 'desc
  user_code_segment :: 'desc
  user_data_segment :: 'desc
  tss_segment :: "u64 list \<Rightarrow> 'desc"

record Selectors =
  code_selector :: u16
  data_selector :: u16

record 'g Gdt_record =
  gdt :: 'g
  tss_selector :: u16
  kernel :: Selectors
  user :: Selectors

definition GDT_build :: "('g, 'desc) gdt_crate \<Rightarrow> u64 list \<Rightarrow> 'g Gdt_record outcome" where
  "GDT_build gc TSS =
     (let g = GDT_new gc in
      and_then (gdt_append gc (kernel_code_segment gc) g) (\<lambda>(kernel_code_selector, g).
      and_then (gdt_append gc (kernel_data_segment gc) g) (\<lambda>(kernel_data_selector, g).
      and_then (gdt_append gc (user_code_segment gc) g) (\<lambda>(user_code_selector, g).
      and_then (gdt_append gc (user_data_segment gc) g) (\<lambda>(user_data_selector, g).
      and_then (gdt_append gc (tss_segment gc TSS) g) (\<lambda>(tss_selector, g).
        Inr \<lparr>gdt = g, tss_selector = tss_selector,
             kernel = \<lparr>code_selector = kernel_code_selector, data_selector = kernel_data_selector\<rparr>,
             user = \<lparr>code_selector = user_code_selector, data_selector = user_data_selector\<rparr>\<rparr>))))))"

datatype 'g segment_load = LoadGdt 'g | SetCS u16 | SetDS u16 | SetSS u16 | LoadTss u16

definition gdt_init :: "'g Gdt_record \<Rightarrow> 'g segment_load list" where
  "gdt_init G = [LoadGdt (gdt G), SetCS (code_selector (kernel G)), SetDS (data_selector (kernel G)),
                 SetSS (data_selector (kernel G)), LoadTss (tss_selector G)]"

section \<open>Properties\<close>

text \<open>
  \<open>used g\<close> counts the entries in use; a table has eight, the first is the null descriptor. A
  selector is the entry's offset with the descriptor's privilege level in its low bits; a system
  descriptor takes two entries.
\<close>

definition gdt_docs :: "('g, 'desc) gdt_crate \<Rightarrow> ('g \<Rightarrow> nat) \<Rightarrow> bool" where
  "gdt_docs gc used \<longleftrightarrow> used (GDT_new gc) = 1 \<and>
     (\<forall>desc g n dpl. ((desc = kernel_code_segment gc \<or> desc = kernel_data_segment gc) \<and> n = 1 \<and> dpl = 0 \<or>
        (desc = user_code_segment gc \<or> desc = user_data_segment gc) \<and> n = 1 \<and> dpl = 3 \<or>
        desc \<in> range (tss_segment gc) \<and> n = 2 \<and> dpl = 0) \<and> used g + n \<le> 8 \<longrightarrow>
        (\<exists>g'. gdt_append gc desc g = Inr (of_nat (8 * used g) OR dpl, g') \<and> used g' = used g + n))"

lemma GDT_build_run:
  assumes "gdt_docs gc used"
  shows "\<exists>G. GDT_build gc TSS = Inr G \<and>
     kernel G = \<lparr>code_selector = 0x08, data_selector = 0x10\<rparr> \<and>
     user G = \<lparr>code_selector = 0x1b, data_selector = 0x23\<rparr> \<and> tss_selector G = 0x28 \<and>
     gdt_init G = [LoadGdt (gdt G), SetCS 0x08, SetDS 0x10, SetSS 0x10, LoadTss 0x28]"
proof -
  have app: "\<exists>g'. gdt_append gc desc g = Inr (of_nat (8 * used g) OR dpl, g') \<and> used g' = used g + n"
    if "(desc = kernel_code_segment gc \<or> desc = kernel_data_segment gc) \<and> n = 1 \<and> dpl = 0 \<or>
        (desc = user_code_segment gc \<or> desc = user_data_segment gc) \<and> n = 1 \<and> dpl = 3 \<or>
        desc \<in> range (tss_segment gc) \<and> n = 2 \<and> dpl = 0" "used g + n \<le> 8" for desc g n dpl
    using assms that unfolding gdt_docs_def by blast
  have g0: "used (GDT_new gc) = 1" using assms by (simp add: gdt_docs_def)
  obtain g1 where g1: "gdt_append gc (kernel_code_segment gc) (GDT_new gc) = Inr (8, g1)" "used g1 = 2"
    using app [of "kernel_code_segment gc" 1 0 "GDT_new gc"] g0 by auto
  obtain g2 where g2: "gdt_append gc (kernel_data_segment gc) g1 = Inr (0x10, g2)" "used g2 = 3"
    using app [of "kernel_data_segment gc" 1 0 g1] g1 by auto
  obtain g3 where g3: "gdt_append gc (user_code_segment gc) g2 = Inr (0x1b, g3)" "used g3 = 4"
    using app [of "user_code_segment gc" 1 3 g2] g2 by auto
  obtain g4 where g4: "gdt_append gc (user_data_segment gc) g3 = Inr (0x23, g4)" "used g4 = 5"
    using app [of "user_data_segment gc" 1 3 g3] g3 by auto
  obtain g5 where "gdt_append gc (tss_segment gc TSS) g4 = Inr (0x28, g5)"
    using app [of "tss_segment gc TSS" 2 0 g4] g4 by auto
  with g1 g2 g3 g4 show ?thesis by (simp add: GDT_build_def gdt_init_def)
qed

text \<open>
  C31. Building the descriptor table does not run out of entries and yields the selectors 0x08 and 0x10
  for the kernel, 0x1b and 0x23 for user mode with privilege level 3, and 0x28 for the TSS; \<open>init\<close>
  loads the table before the segment registers and the task register.
\<close>

theorem gdt_selectors:
  assumes "gdt_docs gc used"
  shows "\<exists>G. GDT_build gc TSS = Inr G \<and>
     kernel G = \<lparr>code_selector = 0x08, data_selector = 0x10\<rparr> \<and>
     user G = \<lparr>code_selector = 0x1b, data_selector = 0x23\<rparr> \<and> tss_selector G = 0x28 \<and>
     gdt_init G = [LoadGdt (gdt G), SetCS 0x08, SetDS 0x10, SetSS 0x10, LoadTss 0x28]"
  using assms by (rule GDT_build_run)

text \<open>A descriptor table that only counts: a descriptor is its size and privilege level.\<close>

definition counting_gdt :: "(nat, nat \<times> u16) gdt_crate" where
  "counting_gdt = \<lparr>GDT_new = 1,
     gdt_append = (\<lambda>(n, dpl) g. if g + n \<le> 8 then Inr (of_nat (8 * g) OR dpl, g + n) else Inl (ExplicitPanic ''GDT full'')),
     kernel_code_segment = (1, 0), kernel_data_segment = (1, 0),
     user_code_segment = (1, 3), user_data_segment = (1, 3), tss_segment = (\<lambda>_. (2, 0))\<rparr>"

theorem gdt_selectors_witness:
  "\<exists>G. GDT_build counting_gdt [] = Inr G \<and> tss_selector G = 0x28"
proof -
  have "gdt_docs counting_gdt (\<lambda>g. g)" by (auto simp: gdt_docs_def counting_gdt_def)
  then show ?thesis using gdt_selectors [of counting_gdt "\<lambda>g. g" "[]"] by blast
qed

lemma TSS_build_run:
  assumes "paging_docs c" "canonical STACK" "unat STACK + 20480 < 2 ^ 64" "canonical (STACK + 20480)" "length new_ist = 7"
  shows "TSS_build c STACK new_ist = Inr (new_ist[0 := STACK + 20480, 1 := STACK + 20480, 2 := STACK + 20480, 3 := STACK + 20480])"
proof -
  have "VirtAddr_new c STACK = Inr STACK" "virt_add c STACK STACK_SIZE = Inr (STACK + 20480)"
    using assms by (auto intro: paging_docsD [OF assms(1)] simp: STACK_SIZE_def paging_docsD [OF assms(1)])
  then show ?thesis
    using assms(5) by (simp add: TSS_build_def vec_set_def numeral_eq_Suc)
qed

text \<open>
  The interrupt stack table entries for double fault, debug and non-maskable interrupt (and the
  one after them) all hold the end of one and the same stack; the stacks the indices stand for
  are not separate.
\<close>

theorem ist_entries_share_stack:
  assumes "paging_docs c" "canonical STACK" "unat STACK + 20480 < 2 ^ 64" "canonical (STACK + 20480)" "length new_ist = 7"
  shows "\<exists>ist. TSS_build c STACK new_ist = Inr ist \<and> length ist = 7 \<and>
     ist ! unat DOUBLE_FAULT_IST_INDEX = STACK + 20480 \<and> ist ! unat DEBUG_IST_INDEX = STACK + 20480 \<and>
     ist ! unat NON_MASKABLE_INTERRUPT_IST_INDEX = STACK + 20480 \<and> ist ! 3 = STACK + 20480 \<and>
     drop 4 ist = drop 4 new_ist"
  using TSS_build_run [OF assms] assms(5)
  by (simp add: DOUBLE_FAULT_IST_INDEX_def DEBUG_IST_INDEX_def NON_MASKABLE_INTERRUPT_IST_INDEX_def)

theorem ist_entries_share_stack_witness:
  "\<exists>ist. TSS_build std_paging 0x10000 (replicate 7 0) = Inr ist \<and> ist ! 0 = ist ! 1 \<and> ist ! 1 = ist ! 2"
  using ist_entries_share_stack [OF std_paging_docs, of "0x10000" "replicate 7 0"]
  by (auto simp: canonical_def DOUBLE_FAULT_IST_INDEX_def DEBUG_IST_INDEX_def NON_MASKABLE_INTERRUPT_IST_INDEX_def)

end
