(* ===== verification/Interrupts.thy ===== *)
theory Interrupts
  imports Kernel_Invariant Acpi Apic Gdt Console
begin

text \<open>
  Interrupt handling, \<^verbatim>\<open>kernel/src/interrupts.rs\<close>: the interrupt descriptor table and the
  handlers. The table's entries for processor exceptions are named as in the \<^verbatim>\<open>x86_64\<close> crate,
  the others by their vector; a gate is a handler with an optional stack index. A handler either
  returns or halts the processor. A formatted message is its format string and arguments; \<open>render\<close>
  gives the pieces the formatting machinery passes to the console.
\<close>

section \<open>The descriptor table\<close>

datatype InterruptIndex = Timer | Keyboard | LapicError | Spurious

fun as_u8 :: "InterruptIndex \<Rightarrow> u8" where
  "as_u8 Timer = 32"
| "as_u8 Keyboard = 33"
| "as_u8 LapicError = 51"
| "as_u8 Spurious = 0xff"

definition as_usize :: "InterruptIndex \<Rightarrow> nat" where
  "as_usize i = unat (as_u8 i)"

datatype idt_slot =
    F_divide_error | F_debug | F_non_maskable_interrupt | F_overflow | F_bound_range_exceeded
  | F_invalid_opcode | F_device_not_available | F_x87_floating_point | F_simd_floating_point
  | F_virtualization | F_breakpoint | F_invalid_tss | F_segment_not_present | F_stack_segment_fault
  | F_general_protection_fault | F_alignment_check | F_security_exception | F_double_fault
  | F_machine_check | F_page_fault | Idx u8

datatype handler =
    simple_handler string
  | error_code_handler string
  | double_fault_handler | machine_check_handler | page_fault_handler | breakpoint_handler
  | timer_interrupt_handler | keyboard_interrupt_handler | lapic_error_handler
  | spurious_interrupt_handler

definition SIMPLE_HANDLERS :: "(idt_slot \<times> handler) list" where
  "SIMPLE_HANDLERS = [
     (F_divide_error, simple_handler ''DIVIDE BY ZERO''),
     (F_debug, simple_handler ''DEBUG''),
     (F_non_maskable_interrupt, simple_handler ''NON MASKABLE INTERRUPT''),
     (F_overflow, simple_handler ''OVERFLOW''),
     (F_bound_range_exceeded, simple_handler ''BOUND RANGE EXCEEDED''),
     (F_invalid_opcode, simple_handler ''INVALID OPCODE''),
     (F_device_not_available, simple_handler ''DEVICE NOT AVAILABLE''),
     (F_x87_floating_point, simple_handler ''X87 FLOATING POINT''),
     (F_simd_floating_point, simple_handler ''SIMD FLOATING POINT''),
     (F_virtualization, simple_handler ''VIRTUALIZATION''),
     (F_breakpoint, breakpoint_handler)]"

definition ERROR_CODE_HANDLERS :: "(idt_slot \<times> handler) list" where
  "ERROR_CODE_HANDLERS = [
     (F_invalid_tss, error_code_handler ''INVALID TSS''),
     (F_segment_not_present, error_code_handler ''SEGMENT NOT PRESENT''),
     (F_stack_segment_fault, error_code_handler ''STACK SEGMENT FAULT''),
     (F_general_protection_fault, error_code_handler ''GENERAL PROTECTION FAULT''),
     (F_alignment_check, error_code_handler ''ALIGNMENT CHECK''),
     (F_security_exception, error_code_handler ''SECURITY EXCEPTION'')]"

type_synonym idt = "idt_slot \<Rightarrow> (handler \<times> u16 option) option"

definition set_handler_fn :: "idt_slot \<times> handler \<Rightarrow> idt \<Rightarrow> idt" where
  "set_handler_fn = (\<lambda>(slot, h) t. t(slot \<mapsto> (h, None)))"

definition set_stack_index :: "idt_slot \<Rightarrow> u16 \<Rightarrow> idt \<Rightarrow> idt" where
  "set_stack_index slot i t = t(slot := map_option (\<lambda>(h, _). (h, Some i)) (t slot))"

definition IDT :: idt where
  "IDT =
     (let t = (\<lambda>_. None);
          t = fold set_handler_fn SIMPLE_HANDLERS t;
          t = fold set_handler_fn ERROR_CODE_HANDLERS t;
          t = set_stack_index F_double_fault DOUBLE_FAULT_IST_INDEX
                (set_handler_fn (F_double_fault, double_fault_handler) t);
          t = set_handler_fn (F_machine_check, machine_check_handler) t;
          t = set_handler_fn (F_page_fault, page_fault_handler) t;
          t = set_handler_fn (Idx (as_u8 Timer), timer_interrupt_handler) t;
          t = set_handler_fn (Idx (as_u8 Keyboard), keyboard_interrupt_handler) t;
          t = set_handler_fn (Idx (as_u8 LapicError), lapic_error_handler) t
      in set_handler_fn (Idx (as_u8 Spurious), spurious_interrupt_handler) t)"

section \<open>The handlers\<close>

text \<open>
  \<open>I_eoi\<close> keeps, for every end of interrupt signalled so far, the index of the thread that was on the
  processor when it was.
\<close>

record 'd int_state = kernel_state +
  I_LAPIC :: "LApic option"
  I_calls :: "apic_call list"
  I_eoi :: "nat list"
  I_ports :: 'd
  I_shutdown :: AcpiShutdown
  I_serial :: "(string \<times> fmt_arg list) list"
  I_console :: "NotoFontDisplay option"

datatype 's handler_end = Returned 's | Halted 's

definition serial_println :: "string \<Rightarrow> fmt_arg list \<Rightarrow> 'd int_state \<Rightarrow> 'd int_state" where
  "serial_println f args st = st\<lparr>I_serial := I_serial st @ [(f @ NL, args)]\<rparr>"

definition send_eoi :: "'d int_state \<Rightarrow> 'd int_state outcome" where
  "send_eoi st =
     and_then (unwrap (I_LAPIC st)) (\<lambda>l.
     and_then (end_interrupts l) (\<lambda>call.
       Inr (st\<lparr>I_calls := I_calls st @ [call], I_eoi := I_eoi st @ [current (SCHEDULER st)]\<rparr>)))"

definition timer_interrupt :: "(nat \<Rightarrow> u64) \<Rightarrow> u64 \<Rightarrow> 'd int_state \<Rightarrow> 'd int_state outcome" where
  "timer_interrupt addr ret st = and_then (send_eoi st) (\<lambda>st. tick addr ret st)"

definition keyboard_interrupt :: "'d ports \<Rightarrow> 'd int_state \<Rightarrow> 'd int_state outcome" where
  "keyboard_interrupt io st =
     (let (scancode, d) = in8 io 0x60 (I_ports st);
          st = klog (warn ''Keyboard scancode: {}'' [ArgU8 scancode]) (st\<lparr>I_ports := d\<rparr>);
          st = (if scancode = 28
                then (let (logs, d) = acpi_shutdown io (I_shutdown st) (I_ports st)
                      in fold klog logs (st\<lparr>I_ports := d\<rparr>))
                else st)
      in send_eoi st)"

definition lapic_error_interrupt :: "'d int_state \<Rightarrow> 'd int_state outcome" where
  "lapic_error_interrupt st = send_eoi (klog (warn ''LAPIC ERROR interrupt received'' []) st)"

definition spurious_interrupt :: "'d int_state \<Rightarrow> 'd int_state" where
  "spurious_interrupt st = klog (debug ''Spurious interrupt received'' []) st"

definition breakpoint_interrupt ::
  "font \<Rightarrow> (string \<Rightarrow> fmt_arg list \<Rightarrow> rstr list) \<Rightarrow> fmt_arg \<Rightarrow> 'd int_state \<Rightarrow> 'd int_state outcome" where
  "breakpoint_interrupt get_raster render stack_frame st =
     and_then (console_print get_raster (render (''EXCEPTION: BREAKPOINT'' @ NL @ ''{:#?}'' @ NL) [stack_frame]) (I_console st)) (\<lambda>con.
       Inr (serial_println (''EXCEPTION: BREAKPOINT'' @ NL @ ''{:#?}'') [stack_frame] (st\<lparr>I_console := con\<rparr>)))"

text \<open>
  \<open>frame\<close> is the interrupt stack frame and \<open>cr2\<close> the fault address as they are printed, \<open>code\<close> the
  error code; \<open>addr\<close> and \<open>ret\<close> are those of the scheduler's tick.
\<close>

definition run_handler ::
  "'d ports \<Rightarrow> font \<Rightarrow> (string \<Rightarrow> fmt_arg list \<Rightarrow> rstr list) \<Rightarrow> (nat \<Rightarrow> u64) \<Rightarrow> u64 \<Rightarrow> fmt_arg \<Rightarrow> u64 \<Rightarrow> u64
     \<Rightarrow> handler \<Rightarrow> 'd int_state \<Rightarrow> 'd int_state handler_end outcome" where
  "run_handler io get_raster render addr ret frame code cr2 h st =
     (case h of
        simple_handler name \<Rightarrow>
          Inr (Returned (serial_println (''EXCEPTION: {}'' @ NL @ ''{:#?}'') [ArgStr name, frame] st))
      | error_code_handler name \<Rightarrow>
          Inr (Returned (serial_println (''EXCEPTION: {} - ERROR CODE: {}'' @ NL @ ''{:#?}'') [ArgStr name, ArgU64 code, frame] st))
      | double_fault_handler \<Rightarrow>
          Inr (Halted (serial_println (''EXCEPTION: DOUBLE FAULT - ERROR CODE: {}'' @ NL @ ''{:#?}'') [ArgU64 code, frame] st))
      | machine_check_handler \<Rightarrow>
          Inr (Halted (serial_println (''EXCEPTION: MACHINE CHECK'' @ NL @ ''{:#?}'') [frame] st))
      | page_fault_handler \<Rightarrow>
          Inr (Returned (serial_println
            (''EXCEPTION: PAGE FAULT - ERROR CODE: {:?}'' @ NL @ ''Accessed Address: {:?}'' @ NL @ ''{:#?}'') [ArgU64 code, ArgU64 cr2, frame] st))
      | breakpoint_handler \<Rightarrow>
          and_then (breakpoint_interrupt get_raster render frame st) (\<lambda>st. Inr (Returned st))
      | timer_interrupt_handler \<Rightarrow> and_then (timer_interrupt addr ret st) (\<lambda>st. Inr (Returned st))
      | keyboard_interrupt_handler \<Rightarrow> and_then (keyboard_interrupt io st) (\<lambda>st. Inr (Returned st))
      | lapic_error_handler \<Rightarrow> and_then (lapic_error_interrupt st) (\<lambda>st. Inr (Returned st))
      | spurious_interrupt_handler \<Rightarrow> Inr (Returned (spurious_interrupt st)))"

section \<open>The module's entry points\<close>

datatype idt_event = LoadIdt idt | EnableInterrupts

definition interrupts_init :: "idt_event list" where
  "interrupts_init = [LoadIdt IDT]"

definition enable_interrupts :: "'d int_state \<Rightarrow> 'd int_state" where
  "enable_interrupts st =
     (let st = klog (debug ''Enabling interrupts'' []) st;
          st = st\<lparr>cpu := (cpu st)\<lparr>interrupt_flag := True\<rparr>\<rparr>
      in klog (debug ''Interrupts enabled'' []) st)"

section \<open>Properties\<close>

lemma IDT_defs:
  "IDT slot = (case map_of [
     (F_divide_error, (simple_handler ''DIVIDE BY ZERO'', None)), (F_debug, (simple_handler ''DEBUG'', None)),
     (F_non_maskable_interrupt, (simple_handler ''NON MASKABLE INTERRUPT'', None)),
     (F_overflow, (simple_handler ''OVERFLOW'', None)),
     (F_bound_range_exceeded, (simple_handler ''BOUND RANGE EXCEEDED'', None)),
     (F_invalid_opcode, (simple_handler ''INVALID OPCODE'', None)),
     (F_device_not_available, (simple_handler ''DEVICE NOT AVAILABLE'', None)),
     (F_x87_floating_point, (simple_handler ''X87 FLOATING POINT'', None)),
     (F_simd_floating_point, (simple_handler ''SIMD FLOATING POINT'', None)),
     (F_virtualization, (simple_handler ''VIRTUALIZATION'', None)), (F_breakpoint, (breakpoint_handler, None)),
     (F_invalid_tss, (error_code_handler ''INVALID TSS'', None)),
     (F_segment_not_present, (error_code_handler ''SEGMENT NOT PRESENT'', None)),
     (F_stack_segment_fault, (error_code_handler ''STACK SEGMENT FAULT'', None)),
     (F_general_protection_fault, (error_code_handler ''GENERAL PROTECTION FAULT'', None)),
     (F_alignment_check, (error_code_handler ''ALIGNMENT CHECK'', None)),
     (F_security_exception, (error_code_handler ''SECURITY EXCEPTION'', None)),
     (F_double_fault, (double_fault_handler, Some 0)), (F_machine_check, (machine_check_handler, None)),
     (F_page_fault, (page_fault_handler, None))] slot of
       Some g \<Rightarrow> Some g
     | None \<Rightarrow> (case slot of
         Idx v \<Rightarrow> (if v = 32 then Some (timer_interrupt_handler, None)
                   else if v = 33 then Some (keyboard_interrupt_handler, None)
                   else if v = 51 then Some (lapic_error_handler, None)
                   else if v = 0xff then Some (spurious_interrupt_handler, None) else None)
       | _ \<Rightarrow> None))"
  by (cases slot) (simp_all add: IDT_def SIMPLE_HANDLERS_def ERROR_CODE_HANDLERS_def set_handler_fn_def
      set_stack_index_def DOUBLE_FAULT_IST_INDEX_def)

text \<open>
  C32. The vectors programmed into the interrupt controllers are the vectors with handlers: the local
  APIC's timer, error and spurious vectors and the keyboard line's redirection entry select
  exactly their handlers in the descriptor table, every processor exception the table names has
  a handler, and only the double fault handler switches stacks.
\<close>

theorem vectors_have_handlers:
  "(let cfg = the (lapic (LApic_init (\<lambda>_. True) \<lparr>l_addr = a, lapic = None\<rparr>)) in
      IDT (Idx (timer_vector cfg)) = Some (timer_interrupt_handler, None) \<and>
      IDT (Idx (error_vector cfg)) = Some (lapic_error_handler, None) \<and>
      IDT (Idx (spurious_vector cfg)) = Some (spurious_interrupt_handler, None)) \<and>
   (\<forall>e. IoApic_set_table_entry b 1 e \<in> set (IOApic_enable \<lparr>io_addr = b, ioapic = Some b\<rparr>) \<longrightarrow>
      IDT (Idx (re_vector e)) = Some (keyboard_interrupt_handler, None)) \<and>
   (\<forall>slot. (\<forall>v. slot \<noteq> Idx v) \<longrightarrow> IDT slot \<noteq> None) \<and>
   (\<forall>slot h i. IDT slot = Some (h, Some i) \<longleftrightarrow> slot = F_double_fault \<and> h = double_fault_handler \<and> i = DOUBLE_FAULT_IST_INDEX)"
proof -
  have "(\<forall>v. slot \<noteq> Idx v) \<longrightarrow> IDT slot \<noteq> None" for slot by (cases slot) (simp_all add: IDT_defs)
  moreover have "IDT slot = Some (h, Some i) \<longleftrightarrow> slot = F_double_fault \<and> h = double_fault_handler \<and> i = DOUBLE_FAULT_IST_INDEX"
    for slot h i by (cases slot) (auto simp: IDT_defs DOUBLE_FAULT_IST_INDEX_def)
  ultimately show ?thesis by (auto simp: LApic_init_def IOApic_enable_def IDT_defs)
qed

theorem vectors_have_handlers_witness:
  "IDT (Idx 33) = Some (keyboard_interrupt_handler, None)"
  using vectors_have_handlers [of 0 0] by (auto simp: IOApic_enable_def)

lemma klog_int_frame [simp]:
  "I_LAPIC (klog r st) = I_LAPIC st" "I_calls (klog r st) = I_calls st" "I_eoi (klog r st) = I_eoi st" "I_ports (klog r st) = I_ports st"
  "I_shutdown (klog r st) = I_shutdown st" "SCHEDULER (klog r st) = SCHEDULER st"
  by (simp_all add: klog_def)

lemma fold_klog_int_frame [simp]:
  "I_LAPIC (fold klog rs st) = I_LAPIC st" "I_calls (fold klog rs st) = I_calls st" "I_eoi (fold klog rs st) = I_eoi st"
  "SCHEDULER (fold klog rs st) = SCHEDULER st"
  "I_ports (fold klog rs st) = I_ports st"
  by (induction rs arbitrary: st) simp_all

lemma KLOG_klog: "KLOG (klog r st) = KLOG st @ [r]" for st :: "'d int_state"
  by (simp add: klog_def)

lemma KLOG_fold_klog: "KLOG (fold klog rs st) = KLOG st @ rs" for st :: "'d int_state"
  by (induction rs arbitrary: st) (simp_all add: KLOG_klog)

lemma send_eoi_run:
  "I_LAPIC st = Some l \<Longrightarrow> lapic l = Some cfg \<Longrightarrow>
     send_eoi st = Inr (st\<lparr>I_calls := I_calls st @ [LocalApic_end_of_interrupt (xapic_base cfg)],
                            I_eoi := I_eoi st @ [current (SCHEDULER st)]\<rparr>)"
  by (simp add: send_eoi_def end_interrupts_def)

lemma more_I_calls:
  fixes st st' :: "'d int_state"
  shows "sched_state.more st' = sched_state.more st \<Longrightarrow> I_calls st' = I_calls st \<and> I_eoi st' = I_eoi st"
  by (cases st, cases st') simp

text \<open>
  C11. End of interrupt is signalled as the local APIC requires: with a working local APIC and a
  well-formed scheduler, the timer, keyboard and APIC error handlers return having signalled it
  exactly once, while the interrupted thread was still on the processor; so the timer handler does it
  before it switches threads, which is its last action. Every other handler, the spurious one included, never signals it.
\<close>

theorem eoi_exactly_once:
  fixes st :: "'d int_state"
  assumes "I_LAPIC st = Some l" "lapic l = Some cfg" "sched_wf (SCHEDULER st)"
  shows "(h \<in> {timer_interrupt_handler, keyboard_interrupt_handler, lapic_error_handler} \<longrightarrow>
      (\<exists>st'. run_handler io get_raster render addr ret frame code cr2 h st = Inr (Returned st') \<and>
             I_calls st' = I_calls st @ [LocalApic_end_of_interrupt (xapic_base cfg)] \<and>
             I_eoi st' = I_eoi st @ [current (SCHEDULER st)])) \<and>
     (h = timer_interrupt_handler \<longrightarrow>
        run_handler io get_raster render addr ret frame code cr2 h st =
          and_then (tick addr ret (st\<lparr>I_calls := I_calls st @ [LocalApic_end_of_interrupt (xapic_base cfg)],
                                     I_eoi := I_eoi st @ [current (SCHEDULER st)]\<rparr>)) (\<lambda>st. Inr (Returned st))) \<and>
     (\<forall>st'. h \<notin> {timer_interrupt_handler, keyboard_interrupt_handler, lapic_error_handler} \<longrightarrow>
        run_handler io get_raster render addr ret frame code cr2 h st \<in> {Inr (Returned st'), Inr (Halted st')} \<longrightarrow>
        I_calls st' = I_calls st \<and> I_eoi st' = I_eoi st)"
proof -
  define eoi where "eoi = LocalApic_end_of_interrupt (xapic_base cfg)"
  let ?st = "st\<lparr>I_calls := I_calls st @ [eoi], I_eoi := I_eoi st @ [current (SCHEDULER st)]\<rparr>"
  let ?signalled = "\<lambda>h. \<exists>st'. run_handler io get_raster render addr ret frame code cr2 h st = Inr (Returned st') \<and>
      I_calls st' = I_calls st @ [eoi] \<and> I_eoi st' = I_eoi st @ [current (SCHEDULER st)]"
  have run: "run_handler io get_raster render addr ret frame code cr2 timer_interrupt_handler st =
      and_then (tick addr ret ?st) (\<lambda>st. Inr (Returned st))"
    by (simp add: run_handler_def timer_interrupt_def send_eoi_run [OF assms(1,2)] eoi_def)
  have "sched_wf (SCHEDULER ?st)" using assms(3) by simp
  then obtain st' where "tick addr ret ?st = Inr st'" "sched_state.more st' = sched_state.more ?st"
    by (rule tick_refines)
  then have timer: "?signalled timer_interrupt_handler"
    using more_I_calls [of st' ?st] by (simp add: run)
  have keyboard: "?signalled keyboard_interrupt_handler"
    using assms(1,2) by (simp add: run_handler_def keyboard_interrupt_def case_prod_beta Let_def send_eoi_run eoi_def)
  have err: "?signalled lapic_error_handler"
    using assms(1,2) by (simp add: run_handler_def lapic_error_interrupt_def send_eoi_run eoi_def)
  have other: "I_calls st' = I_calls st \<and> I_eoi st' = I_eoi st"
    if "h \<notin> {timer_interrupt_handler, keyboard_interrupt_handler, lapic_error_handler}"
      "run_handler io get_raster render addr ret frame code cr2 h st \<in> {Inr (Returned st'), Inr (Halted st')}" for st'
    using that by (cases h) (auto simp: run_handler_def serial_println_def spurious_interrupt_def
        breakpoint_interrupt_def outcome_simps)
  show ?thesis
    unfolding eoi_def [symmetric] using timer run keyboard err other by (intro conjI impI allI) blast+
qed

text \<open>An interrupt state for the witnesses.\<close>

definition example_lapic :: lapic_config where
  "example_lapic = \<lparr>timer_vector = 32, error_vector = 51, spurious_vector = 0xff, xapic_base = 0x5000\<rparr>"

definition example_int_state :: "io_access list int_state" where
  "example_int_state = \<lparr>SCHEDULER = SCHEDULER example_state, NEXT_TID = 3, cpu = cpu example_state,
     PROCESS_TABLE = ProcessTable_new, CR3 = 0, KLOG = [],
     I_LAPIC = Some \<lparr>l_addr = 0x5000, lapic = Some example_lapic\<rparr>,
     I_calls = [], I_eoi = [], I_ports = [], I_shutdown = ACPI_SHUTDOWN_initial, I_serial = [], I_console = None\<rparr>"

theorem eoi_exactly_once_witness:
  "\<exists>st'. run_handler (recording (\<lambda>_ _. 0)) (\<lambda>_. None) (\<lambda>_ _. []) example_addr 0x4444 (ArgU64 0) 0 0 timer_interrupt_handler
           example_int_state = Inr (Returned st') \<and> I_calls st' = [LocalApic_end_of_interrupt 0x5000] \<and> I_eoi st' = [0]"
proof -
  have "sched_wf (SCHEDULER example_int_state)"
    using example_state_wf by (simp add: example_int_state_def)
  moreover have st: "I_LAPIC example_int_state = Some \<lparr>l_addr = 0x5000, lapic = Some example_lapic\<rparr>"
      "I_calls example_int_state = []" "I_eoi example_int_state = []" "current (SCHEDULER example_int_state) = 0"
    by (simp_all add: example_int_state_def example_state_def)
  moreover have "lapic \<lparr>l_addr = 0x5000, lapic = Some example_lapic\<rparr> = Some example_lapic"
      "xapic_base example_lapic = 0x5000"
    by (simp_all add: example_lapic_def)
  ultimately show ?thesis
    using eoi_exactly_once [THEN conjunct1, of example_int_state _ example_lapic timer_interrupt_handler] by fastforce
qed

text \<open>
  C29. The Enter key writes the power-off word: the keyboard handler reads one scan code; exactly when it is
  28 one write follows, to QEMU's exit port while the fallback is in force and to the PM1a control port with
  the sleep type and the sleep-enable bit otherwise; with any other code no port is written. The scan
  code is logged in every case and the path taken after it, and the handler returns.
\<close>

theorem enter_key_powers_off:
  fixes st :: "io_access list int_state"
  assumes "I_LAPIC st = Some l" "lapic l = Some cfg"
  shows "\<exists>st'. keyboard_interrupt (recording answer) st = Inr st' \<and>
     (let enter = ((ucast (answer (I_ports st) 0x60) :: u8) = 28); how = I_shutdown st in
      I_ports st' = I_ports st @ In8 0x60 #
        (if \<not> enter then []
         else if use_qemu_fallback how then [Out32 0xf4 0x10]
         else [Out16 (ucast (pm1a_control_block how)) (slp_typ_a how OR slp_len how)]) \<and>
      KLOG st' = KLOG st @ warn ''Keyboard scancode: {}'' [ArgU8 (ucast (answer (I_ports st) 0x60))] #
        (if \<not> enter then []
         else if use_qemu_fallback how then [debug ''Using QEMU debug exit for shutdown'' []]
         else [debug ''Using ACPI S5 sleep for shutdown'' []]))"
proof -
  have upd: "klog r s\<lparr>I_ports := d\<rparr> = klog r (s\<lparr>I_ports := d\<rparr>)" for r d and s :: "io_access list int_state"
    by (simp add: klog_def)
  show ?thesis
    using assms(1,2)
    by (simp add: keyboard_interrupt_def acpi_shutdown_def Let_def send_eoi_run upd KLOG_klog)
qed

theorem enter_key_powers_off_witness:
  "\<exists>st'. keyboard_interrupt (recording (\<lambda>_ _. 28)) example_int_state = Inr st' \<and>
        I_ports st' = [In8 0x60, Out32 0xf4 0x10]"
proof -
  have "I_LAPIC example_int_state = Some \<lparr>l_addr = 0x5000, lapic = Some example_lapic\<rparr>"
      "lapic \<lparr>l_addr = 0x5000, lapic = Some example_lapic\<rparr> = Some example_lapic"
    by (simp_all add: example_int_state_def)
  from enter_key_powers_off [OF this, of "\<lambda>_ _. 28"] show ?thesis
    by (auto simp: example_int_state_def ACPI_SHUTDOWN_initial_def)
qed

end
