(* ===== verification/Display.thy ===== *)
theory Display
  imports Port_Io
begin

text \<open>
  The Bochs graphics adapter, \<^verbatim>\<open>kernel/src/bga.rs\<close>, QEMU's exit port, \<^verbatim>\<open>kernel/src/qemu.rs\<close>, and the
  drawing of the logo in \<open>kernel_main\<close>. The frame buffer behind the raw pointer is a function
  from pixel offsets to pixels; \<open>len\<close> is the number of pixels it holds, and a write past them is
  \<open>RawOutOfBounds\<close>.
\<close>

section \<open>The adapter's registers\<close>

definition VBE_DISPI_IOPORT_INDEX :: u16 where "VBE_DISPI_IOPORT_INDEX = 0x01CE"
definition VBE_DISPI_IOPORT_DATA :: u16 where "VBE_DISPI_IOPORT_DATA = 0x01CF"
definition VBE_DISPI_INDEX_ID :: u16 where "VBE_DISPI_INDEX_ID = 0x00"
definition VBE_DISPI_INDEX_XRES :: u16 where "VBE_DISPI_INDEX_XRES = 0x01"
definition VBE_DISPI_INDEX_YRES :: u16 where "VBE_DISPI_INDEX_YRES = 0x02"
definition VBE_DISPI_INDEX_BPP :: u16 where "VBE_DISPI_INDEX_BPP = 0x03"
definition VBE_DISPI_INDEX_ENABLE :: u16 where "VBE_DISPI_INDEX_ENABLE = 0x04"
definition VBE_DISPI_INDEX_BANK :: u16 where "VBE_DISPI_INDEX_BANK = 0x05"
definition VBE_DISPI_ID5 :: u16 where "VBE_DISPI_ID5 = 0xB0C5"
definition VBE_DISPI_DISABLED :: u16 where "VBE_DISPI_DISABLED = 0x00"
definition VBE_DISPI_ENABLED :: u16 where "VBE_DISPI_ENABLED = 0x01"
definition VBE_DISPI_LFB_ENABLED :: u16 where "VBE_DISPI_LFB_ENABLED = 0x02"
definition VBE_DISPI_NOCLEARMEM :: u16 where "VBE_DISPI_NOCLEARMEM = 0x04"
definition VBE_DISPI_BPP_32 :: u16 where "VBE_DISPI_BPP_32 = 0x20"

lemmas bga_constants =
  VBE_DISPI_IOPORT_INDEX_def VBE_DISPI_IOPORT_DATA_def VBE_DISPI_INDEX_ID_def VBE_DISPI_INDEX_XRES_def
  VBE_DISPI_INDEX_YRES_def VBE_DISPI_INDEX_BPP_def VBE_DISPI_INDEX_ENABLE_def VBE_DISPI_INDEX_BANK_def
  VBE_DISPI_ID5_def VBE_DISPI_DISABLED_def VBE_DISPI_ENABLED_def VBE_DISPI_LFB_ENABLED_def
  VBE_DISPI_NOCLEARMEM_def VBE_DISPI_BPP_32_def

definition bga_write_register :: "'d ports \<Rightarrow> u16 \<Rightarrow> u16 \<Rightarrow> 'd \<Rightarrow> 'd" where
  "bga_write_register io index_value data_value d =
     (let d = out16 io VBE_DISPI_IOPORT_INDEX index_value d
      in out16 io VBE_DISPI_IOPORT_DATA data_value d)"

definition bga_read_register :: "'d ports \<Rightarrow> u16 \<Rightarrow> 'd \<Rightarrow> u16 \<times> 'd" where
  "bga_read_register io index_value d =
     (let d = out16 io VBE_DISPI_IOPORT_INDEX index_value d in in16 io VBE_DISPI_IOPORT_DATA d)"

definition bga_is_available :: "'d ports \<Rightarrow> 'd \<Rightarrow> bool \<times> 'd" where
  "bga_is_available io d = (let (v, d) = bga_read_register io VBE_DISPI_INDEX_ID d in (v = VBE_DISPI_ID5, d))"

definition bga_set_video_mode :: "'d ports \<Rightarrow> u32 \<Rightarrow> u32 \<Rightarrow> u32 \<Rightarrow> bool \<Rightarrow> bool \<Rightarrow> 'd \<Rightarrow> 'd" where
  "bga_set_video_mode io width height bit_depth use_linear_frame_buffer clear_video_memory d =
     (let d = bga_write_register io VBE_DISPI_INDEX_ENABLE VBE_DISPI_DISABLED d;
          d = bga_write_register io VBE_DISPI_INDEX_XRES (ucast width) d;
          d = bga_write_register io VBE_DISPI_INDEX_YRES (ucast height) d;
          d = bga_write_register io VBE_DISPI_INDEX_BPP (ucast bit_depth) d;
          enable_value = VBE_DISPI_ENABLED;
          enable_value = (if use_linear_frame_buffer then enable_value OR VBE_DISPI_LFB_ENABLED else enable_value);
          enable_value = (if \<not> clear_video_memory then enable_value OR VBE_DISPI_NOCLEARMEM else enable_value)
      in bga_write_register io VBE_DISPI_INDEX_ENABLE enable_value d)"

definition bga_set_bank :: "'d ports \<Rightarrow> u16 \<Rightarrow> 'd \<Rightarrow> 'd" where
  "bga_set_bank io bank_number d = bga_write_register io VBE_DISPI_INDEX_BANK bank_number d"

definition qemu_shutdown :: "'d ports \<Rightarrow> u32 \<Rightarrow> 'd \<Rightarrow> 'd" where
  "qemu_shutdown io exit_code d = out32 io 0xf4 exit_code d"

text \<open>
  The adapter's documentation: the index port selects a register, the data port accesses it. The
  resolution and depth registers take a value only while the adapter is disabled.
\<close>

definition bga_docs :: "'d ports \<Rightarrow> ('d \<Rightarrow> u16) \<Rightarrow> ('d \<Rightarrow> u16 \<Rightarrow> u16) \<Rightarrow> bool" where
  "bga_docs io index reg \<longleftrightarrow>
     (\<forall>i d. index (out16 io 0x01CE i d) = i \<and> reg (out16 io 0x01CE i d) = reg d) \<and>
     (\<forall>v d. index (out16 io 0x01CF v d) = index d \<and>
        reg (out16 io 0x01CF v d) =
          (if index d \<in> {1, 2, 3} \<and> bit (reg d 4) 0 then reg d else (reg d)(index d := v))) \<and>
     (\<forall>d. fst (in16 io 0x01CF d) = reg d (index d) \<and> reg (snd (in16 io 0x01CF d)) = reg d)"

lemma bga_write_docs:
  assumes "bga_docs io index reg"
  shows "reg (bga_write_register io i v d) = (if i \<in> {1, 2, 3} \<and> bit (reg d 4) 0 then reg d else (reg d)(i := v))"
  using assms by (simp add: bga_write_register_def bga_docs_def bga_constants Let_def)

text \<open>
  Setting a video mode takes effect whatever mode the adapter was in: afterwards its resolution
  and depth registers hold the low sixteen bits of the arguments, which is where a width or
  height of 65536 or more is lost, and the adapter is enabled with the linear frame
  buffer and the memory clearing that were asked for.
\<close>

theorem bga_mode_set:
  assumes "bga_docs io index reg"
  shows "reg (bga_set_video_mode io w h depth lfb clr d) =
     (reg d)(1 := ucast w, 2 := ucast h, 3 := ucast depth,
             4 := 1 OR (if lfb then 2 else 0) OR (if clr then 0 else 4)) \<and>
   fst (bga_read_register io VBE_DISPI_INDEX_XRES (bga_set_video_mode io w h depth lfb clr d)) = ucast w"
proof -
  note w = bga_write_docs [OF assms]
  have regs: "reg (bga_set_video_mode io w h depth lfb clr d) =
     (reg d)(1 := ucast w, 2 := ucast h, 3 := ucast depth,
             4 := 1 OR (if lfb then 2 else 0) OR (if clr then 0 else 4))"
    by (auto simp: bga_set_video_mode_def Let_def w bga_constants fun_eq_iff)
  moreover have "fst (bga_read_register io i d') = reg d' i" for i d'
    using assms by (simp add: bga_read_register_def bga_docs_def bga_constants Let_def)
  ultimately show ?thesis by (simp add: bga_constants)
qed

definition bga_device :: "(u16 \<times> (u16 \<Rightarrow> u16)) ports" where
  "bga_device = \<lparr>
     in8 = (\<lambda>p d. (0xFF, d)), in16 = (\<lambda>p d. (snd d (fst d), d)), in32 = (\<lambda>p d. (0xFFFFFFFF, d)),
     out8 = (\<lambda>p v d. d),
     out16 = (\<lambda>p v d. if p = 0x01CE then (v, snd d)
                      else if fst d \<in> {1, 2, 3} \<and> bit (snd d 4) 0 then d else (fst d, (snd d)(fst d := v))),
     out32 = (\<lambda>p v d. d)\<rparr>"

theorem bga_mode_set_witness:
  "snd (bga_set_video_mode bga_device 800 600 32 True True (0, \<lambda>_. 1)) 1 = 800 \<and>
   snd (bga_set_video_mode bga_device 800 600 32 True True (0, \<lambda>_. 1)) 4 = 3"
proof -
  have "bga_docs bga_device fst snd" by (simp add: bga_docs_def bga_device_def)
  from bga_mode_set [OF this, of 800 600 32 True True "(0, \<lambda>_. 1)"] show ?thesis by simp
qed

section \<open>The logo\<close>

definition logo_color :: "u8 list \<Rightarrow> u32 outcome" where
  "logo_color pixel =
     and_then (vec_get pixel 0) (\<lambda>r. and_then (vec_get pixel 1) (\<lambda>g.
     and_then (vec_get pixel 2) (\<lambda>b. and_then (vec_get pixel 3) (\<lambda>a.
       let color = push_bit 16 (ucast r) OR push_bit 8 (ucast g) OR ucast b
       in Inr (if 0 < a then color else 0)))))"

definition draw_logo_pixel ::
  "nat \<Rightarrow> u32 \<Rightarrow> u8 list list \<Rightarrow> u32 \<Rightarrow> u32 \<Rightarrow> (nat \<Rightarrow> u32) \<Rightarrow> (nat \<Rightarrow> u32) outcome" where
  "draw_logo_pixel len img_width pixels y x fb =
     and_then (mul_checked y img_width) (\<lambda>t.
     and_then (add_checked t x) (\<lambda>src_index.
     let dst_offset = unat y * unat img_width + unat x in
     and_then (vec_get pixels (unat src_index)) (\<lambda>pixel.
     and_then (logo_color pixel) (\<lambda>color.
     and_then (ensure RawOutOfBounds (dst_offset < len)) (\<lambda>_.
       Inr (fb(dst_offset := color)))))))"

fun draw_logo_row :: "nat \<Rightarrow> u32 \<Rightarrow> u8 list list \<Rightarrow> u32 \<Rightarrow> nat list \<Rightarrow> (nat \<Rightarrow> u32) \<Rightarrow> (nat \<Rightarrow> u32) outcome" where
  "draw_logo_row len img_width pixels y [] fb = Inr fb"
| "draw_logo_row len img_width pixels y (x # xs) fb =
     and_then (draw_logo_pixel len img_width pixels y (of_nat x) fb) (draw_logo_row len img_width pixels y xs)"

fun draw_logo_rows :: "nat \<Rightarrow> u32 \<Rightarrow> u8 list list \<Rightarrow> nat list \<Rightarrow> (nat \<Rightarrow> u32) \<Rightarrow> (nat \<Rightarrow> u32) outcome" where
  "draw_logo_rows len img_width pixels [] fb = Inr fb"
| "draw_logo_rows len img_width pixels (y # ys) fb =
     and_then (draw_logo_row len img_width pixels (of_nat y) [0..<unat img_width] fb) (draw_logo_rows len img_width pixels ys)"

definition draw_logo :: "nat \<Rightarrow> u32 \<Rightarrow> u32 \<Rightarrow> u8 list list \<Rightarrow> (nat \<Rightarrow> u32) \<Rightarrow> (nat \<Rightarrow> u32) outcome" where
  "draw_logo len img_width img_height pixels fb = draw_logo_rows len img_width pixels [0..<unat img_height] fb"

definition pixel_color :: "u8 list \<Rightarrow> u32" where
  "pixel_color p = (if p ! 3 = 0 then 0
     else push_bit 16 (ucast (p ! 0)) OR push_bit 8 (ucast (p ! 1)) OR ucast (p ! 2))"

lemma logo_color_run: "length p = 4 \<Longrightarrow> logo_color p = Inr (pixel_color p)"
  by (auto simp: logo_color_def pixel_color_def word_gt_0)

lemma draw_logo_pixel_run:
  fixes w h :: u32
  assumes "x < unat w" "y < unat h" "length pixels = unat w * unat h" "unat w * unat h < 2 ^ 32"
    "\<forall>p \<in> set pixels. length p = 4"
  shows "draw_logo_pixel len w pixels (of_nat y) (of_nat x) fb =
    (if y * unat w + x < len then Inr (fb(y * unat w + x := pixel_color (pixels ! (y * unat w + x)))) else Inl RawOutOfBounds)"
proof -
  have "Suc y * unat w \<le> unat h * unat w" using assms(2) by (intro mult_le_mono1) simp
  then have i: "y * unat w + x < unat w * unat h" using assms(1) by (simp add: ac_simps)
  have xy: "unat (of_nat x :: u32) = x" "unat (of_nat y :: u32) = y"
    using assms(1,2) unsigned_less [of w, where ?'a = nat] unsigned_less [of h, where ?'a = nat]
    by (simp_all add: unat_of_nat)
  have "mul_checked (of_nat y) w = Inr (of_nat y * w)" "unat (of_nat y * w) = y * unat w"
    using i assms(4) by (simp_all add: mul_checked_def xy unat_word_ariths)
  moreover from this(2) have "add_checked (of_nat y * w) (of_nat x) = Inr (of_nat y * w + of_nat x)"
      "unat (of_nat y * w + of_nat x) = y * unat w + x"
    using i assms(4) by (simp_all add: add_checked_def xy unat_word_ariths)
  ultimately show ?thesis
    using i assms(3,5) by (simp add: draw_logo_pixel_def xy logo_color_run Let_def ensure_def)
qed

lemma draw_logo_row_run:
  fixes w h :: u32
  assumes "y < unat h" "length pixels = unat w * unat h" "unat w * unat h < 2 ^ 32"
    "\<forall>p \<in> set pixels. length p = 4" "set xs \<subseteq> {..<unat w}"
  shows "draw_logo_row len w pixels (of_nat y) xs fb =
    (if \<forall>x \<in> set xs. y * unat w + x < len
     then Inr (\<lambda>i. if i \<in> (\<lambda>x. y * unat w + x) ` set xs then pixel_color (pixels ! i) else fb i)
     else Inl RawOutOfBounds)"
  using assms(5)
proof (induction xs arbitrary: fb)
  case (Cons x xs)
  then show ?case
    using draw_logo_pixel_run [OF _ assms(1-4), of x len fb] by (auto simp: fun_eq_iff)
qed simp

lemma draw_logo_rows_run:
  fixes w h :: u32
  assumes "length pixels = unat w * unat h" "unat w * unat h < 2 ^ 32"
    "\<forall>p \<in> set pixels. length p = 4" "set ys \<subseteq> {..<unat h}"
  shows "draw_logo_rows len w pixels ys fb =
    (if \<forall>y \<in> set ys. \<forall>x < unat w. y * unat w + x < len
     then Inr (\<lambda>i. if \<exists>y \<in> set ys. \<exists>x < unat w. i = y * unat w + x then pixel_color (pixels ! i) else fb i)
     else Inl RawOutOfBounds)"
  using assms(4)
proof (induction ys arbitrary: fb)
  case (Cons y ys)
  have "(\<lambda>x. y * unat w + x) ` set [0..<unat w] = {i. \<exists>x < unat w. i = y * unat w + x}" by fastforce
  then have row: "draw_logo_row len w pixels (of_nat y) [0..<unat w] fb =
      (if \<forall>x < unat w. y * unat w + x < len
       then Inr (\<lambda>i. if \<exists>x < unat w. i = y * unat w + x then pixel_color (pixels ! i) else fb i)
       else Inl RawOutOfBounds)"
    using draw_logo_row_run [OF _ assms(1-3), of y "[0..<unat w]" len fb] Cons.prems
    by (auto simp: atLeast0LessThan)
  show ?case
  proof (cases "\<forall>x < unat w. y * unat w + x < len")
    case True
    then show ?thesis using Cons row by (auto simp: fun_eq_iff)
  qed (use row in auto)
qed simp

lemma picture_indices: "(\<exists>y < h. \<exists>x < w. i = y * w + x) \<longleftrightarrow> i < w * (h :: nat)"
proof
  assume "\<exists>y < h. \<exists>x < w. i = y * w + x"
  then obtain y x where "y < h" "x < w" "i = y * w + x" by auto
  then show "i < w * h" using mult_le_mono1 [of "Suc y" h w] by (simp add: ac_simps)
next
  assume i: "i < w * h"
  then have "0 < w" by (cases w) auto
  with i show "\<exists>y < h. \<exists>x < w. i = y * w + x"
    by (intro exI [of _ "i div w"] conjI exI [of _ "i mod w"]) (auto simp: less_mult_imp_div_less mult.commute)
qed

lemma draw_logo_run:
  assumes "length pixels = unat w * unat h" "unat w * unat h < 2 ^ 32" "\<forall>p \<in> set pixels. length p = 4"
  shows "draw_logo len w h pixels fb =
     (if unat w * unat h \<le> len then Inr (\<lambda>i. if i < unat w * unat h then pixel_color (pixels ! i) else fb i)
      else Inl RawOutOfBounds)"
proof -
  have "(\<forall>y \<in> set [0..<unat h]. \<forall>x < unat w. y * unat w + x < len) \<longleftrightarrow> (\<forall>i < unat w * unat h. i < len)"
    unfolding picture_indices [symmetric] by fastforce
  also have "\<dots> \<longleftrightarrow> unat w * unat h \<le> len" by (metis le_less_trans not_le order_refl less_le_trans)
  finally have fits: "(\<forall>y \<in> set [0..<unat h]. \<forall>x < unat w. y * unat w + x < len) \<longleftrightarrow> unat w * unat h \<le> len" .
  have "(\<exists>y \<in> set [0..<unat h]. \<exists>x < unat w. i = y * unat w + x) \<longleftrightarrow> i < unat w * unat h" for i
    using picture_indices [of "unat h" "unat w" i] by (auto simp: Bex_def)
  then show ?thesis
    using draw_logo_rows_run [OF assms, of "[0..<unat h]" len fb] unfolding fits by (simp add: draw_logo_def atLeast0LessThan)
qed

text \<open>
  C33. The logo is drawn completely and nothing else: for a decoded image of matching size whose pixels
  number less than 2 to the 32 and fit in the frame buffer, the loops end without a panic, pixel \<open>i\<close> of the
  frame buffer becomes pixel \<open>i\<close> of the image, black where it is fully transparent, and no other pixel
  changes. An image of more pixels than the frame buffer holds is written past its end.
\<close>

theorem draw_logo_complete:
  assumes "length pixels = unat w * unat h" "unat w * unat h < 2 ^ 32" "\<forall>p \<in> set pixels. length p = 4"
  shows "draw_logo len w h pixels fb =
     (if unat w * unat h \<le> len then Inr (\<lambda>i. if i < unat w * unat h then pixel_color (pixels ! i) else fb i)
      else Inl RawOutOfBounds)"
  using assms by (rule draw_logo_run)

theorem draw_logo_complete_witness:
  "draw_logo 6 2 1 [[1, 2, 3, 0xFF], [9, 9, 9, 0]] (\<lambda>_. 7) =
     Inr (\<lambda>i. if i < 2 then pixel_color ([[1, 2, 3, 0xFF], [9, 9, 9, 0]] ! i) else 7)"
  using draw_logo_complete [of "[[1, 2, 3, 0xFF], [9, 9, 9, 0]]" 2 1 6 "\<lambda>_. 7"] by simp

end
