(* ===== verification/Boot.thy ===== *)
theory Boot
  imports Kernel_Theorems Memory_Init Pcie Console_Drawing Interrupts Display
begin

text \<open>
  The boot sequence, \<open>kernel_main\<close> of \<^verbatim>\<open>kernel/src/main.rs\<close>: the components' initialisations in the
  order of the source, as the boot thread runs them when no interrupt comes in between. What the
  machine, the boot loader and the crates outside the repository supply is the record \<open>environment\<close>;
  the state is that of the interrupt handlers with what only boot touches around it. The frame buffer is
  given by its width, height and stride in pixels and its length in bytes; the frame buffer
  of the logo and the console's draw buffer are the same memory: \<open>vram\<close> is its content after a change
  of the video mode.
\<close>

section \<open>The environment and the state\<close>

record ('k, 'pt, 'e, 'g, 'desc, 'tables, 'fadt, 'ns, 'name, 'd) environment =
  LOG_LEVEL :: "string option"
  framebuffer :: "(nat \<times> nat \<times> nat \<times> nat) option"
  font_of :: font
  paging :: paging_crate
  gdt_ops :: "('g, 'desc) gdt_crate"
  ist_stack :: u64
  fresh_ist :: "u64 list"
  boot_info :: "'k BootInfo"
  usable_kind :: 'k
  show_kind :: "'k \<Rightarrow> fmt_arg"
  show_boot_info :: "'k BootInfo \<Rightarrow> fmt_arg"
  new_table :: "u64 \<times> u64 \<Rightarrow> 'pt"
  map_to_fn :: "('pt, 'k AbyssFrameAllocator, 'e) mapper"
  frame_allocation_failed :: 'e
  rsdp_addr :: "u64 option"
  acpi_ops :: "('tables, 'fadt, 'ns, 'name) acpi_crate"
  interrupt_model_of :: "u64 \<Rightarrow> fmt_arg + interrupt_model"
  lapic_build_ok :: "lapic_config \<Rightarrow> bool"
  port_ops :: "'d ports"
  trampoline_fn :: u64
  stack_a :: "u64 option"
  stack_b :: "u64 option"
  demo_task_a :: u64
  demo_task_b :: u64
  png :: "fmt_arg + u32 \<times> u32 \<times> u8 list list"
  vram :: "'d \<Rightarrow> u32 list \<Rightarrow> nat \<Rightarrow> u32"
  heap_grants :: "nat \<Rightarrow> bool"

record ('k, 'pt, 'g, 'd) boot =
  b_int :: "'d int_state"
  b_logger :: logger_state
  b_segments :: "'g segment_load list"
  b_idt :: "idt_event list"
  b_offset :: "u64 option"
  b_heap :: "('pt, 'k AbyssFrameAllocator) heap_state option"
  b_ioapic :: "IOApic list option"
  b_screen :: "nat \<Rightarrow> u32"

text \<open>The statics as they are linked.\<close>

definition power_on :: "machine \<Rightarrow> u64 \<Rightarrow> 'd \<Rightarrow> ('k, 'pt, 'g, 'd) boot" where
  "power_on m cr3 d =
     \<lparr>b_int = \<lparr>SCHEDULER = Scheduler_new, NEXT_TID = 1, cpu = m, PROCESS_TABLE = ProcessTable_new, CR3 = cr3, KLOG = [],
        I_LAPIC = None, I_calls = [], I_eoi = [], I_ports = d, I_shutdown = ACPI_SHUTDOWN_initial, I_serial = [], I_console = None\<rparr>,
      b_logger = \<lparr>logger_set = False, max_level = Off\<rparr>, b_segments = [], b_idt = [], b_offset = None, b_heap = None,
      b_ioapic = None, b_screen = (\<lambda>_. 0)\<rparr>"

section \<open>kernel_main\<close>

definition boot_screen ::
  "('k, 'pt, 'e, 'g, 'desc, 'tables, 'fadt, 'ns, 'name, 'd) environment \<Rightarrow> ('k, 'pt, 'g, 'd) boot \<Rightarrow> ('k, 'pt, 'g, 'd) boot outcome" where
  "boot_screen env b =
     and_then (logging_init (LOG_LEVEL env) (b_logger b)) (\<lambda>logger.
     and_then (unwrap (framebuffer env)) (\<lambda>(w, h, s, len).
     and_then (console_init (font_of env) len w h s) (\<lambda>con.
     and_then (TSS_build (paging env) (ist_stack env) (fresh_ist env)) (\<lambda>tss.
     and_then (GDT_build (gdt_ops env) tss) (\<lambda>G.
       Inr (b\<lparr>b_logger := logger, b_segments := b_segments b @ gdt_init G, b_idt := b_idt b @ interrupts_init,
              b_int := klog (info ''GDT and IDT initialized'' []) ((b_int b)\<lparr>I_console := con\<rparr>)\<rparr>))))))"

definition boot_memory ::
  "('k, 'pt, 'e, 'g, 'desc, 'tables, 'fadt, 'ns, 'name, 'd) environment \<Rightarrow> ('k, 'pt, 'g, 'd) boot \<Rightarrow> ('k, 'pt, 'g, 'd) boot outcome" where
  "boot_memory env b =
     and_then (memory_init (paging env) (usable_kind env) (show_kind env) (show_boot_info env) (new_table env)
                 (map_to_fn env) (frame_allocation_failed env) (ram (cpu (b_int b))) (CR3 (b_int b)) (boot_info env) (b_offset b)) (\<lambda>m.
       Inr (b\<lparr>b_offset := PHYSICAL_MEMORY_OFFSET m, b_heap := Some (heap m),
              b_int := klog (info ''Memory initialized'' []) (fold klog (mem_log m) (b_int b))\<rparr>))"

definition boot_acpi ::
  "('k, 'pt, 'e, 'g, 'desc, 'tables, 'fadt, 'ns, 'name, 'd) environment \<Rightarrow> ('k, 'pt, 'g, 'd) boot \<Rightarrow> ('k, 'pt, 'g, 'd) boot outcome" where
  "boot_acpi env b =
     and_then (unwrap (rsdp_addr env)) (\<lambda>rsdp.
     and_then (acpi_init (acpi_ops env) (paging env) (b_offset b) (ram (cpu (b_int b))) rsdp
                 \<lparr>ACPI_SHUTDOWN = I_shutdown (b_int b), acpi_log = []\<rparr>) (\<lambda>a.
       Inr (b\<lparr>b_int := klog (info ''ACPI Initialized'' [])
                         (fold klog (acpi_log a) ((b_int b)\<lparr>I_shutdown := ACPI_SHUTDOWN a\<rparr>))\<rparr>)))"

definition boot_apic ::
  "('k, 'pt, 'e, 'g, 'desc, 'tables, 'fadt, 'ns, 'name, 'd) environment \<Rightarrow> ('k, 'pt, 'g, 'd) boot \<Rightarrow> ('k, 'pt, 'g, 'd) boot outcome" where
  "boot_apic env b =
     and_then (unwrap (rsdp_addr env)) (\<lambda>rsdp.
     and_then (apic_init (interrupt_model_of env) (lapic_build_ok env) (paging env) (b_offset b) (port_ops env) rsdp
                 \<lparr>IOAPIC = b_ioapic b, LAPIC = I_LAPIC (b_int b), apic_calls = I_calls (b_int b),
                  apic_ports = I_ports (b_int b), apic_log = []\<rparr>) (\<lambda>a.
       Inr (b\<lparr>b_ioapic := IOAPIC a,
              b_int := klog (info ''APIC Initialized'' []) (fold klog (apic_log a)
                ((b_int b)\<lparr>I_LAPIC := LAPIC a, I_calls := apic_calls a, I_ports := apic_ports a\<rparr>))\<rparr>)))"

definition boot_threads ::
  "('k, 'pt, 'e, 'g, 'desc, 'tables, 'fadt, 'ns, 'name, 'd) environment \<Rightarrow> ('k, 'pt, 'g, 'd) boot \<Rightarrow> ('k, 'pt, 'g, 'd) boot outcome" where
  "boot_threads env b =
     and_then (scheduler_init (trampoline_fn env) (stack_a env) (stack_b env) (demo_task_a env) (demo_task_b env)
                 (process_init (b_int b))) (\<lambda>st.
       let (logs, d) = pcie_init (port_ops env) (I_ports st);
           st = klog (info ''PCIe Initialized'' []) (fold klog logs (st\<lparr>I_ports := d\<rparr>))
       in Inr (b\<lparr>b_int := klog (info ''Interrupts enabled'' []) (enable_interrupts st)\<rparr>))"

definition boot_hello ::
  "('k, 'pt, 'e, 'g, 'desc, 'tables, 'fadt, 'ns, 'name, 'd) environment \<Rightarrow> ('k, 'pt, 'g, 'd) boot \<Rightarrow> ('k, 'pt, 'g, 'd) boot outcome" where
  "boot_hello env b =
     and_then (console_print (font_of env) [str_of (''Hello from the x86_64 kernel!'' @ NL)] (I_console (b_int b))) (\<lambda>con.
     and_then (console_print (font_of env) [str_of (''More debug info will be display in the serial console.'' @ NL)] con) (\<lambda>con.
     and_then (console_print (font_of env) [str_of (''Press Enter to poweroff.'' @ NL)] con) (\<lambda>con.
       let st = serial_println (''If you can'' @ CHR 0x27 # ''t see more content here, you need to specify LOG_LEVEL env at compile time to enable higher level log filtering.'')
                  [] ((b_int b)\<lparr>I_console := con\<rparr>);
           st = klog (info ''Hello from the x86_64 kernel!'' []) st;
           st = klog (info ''This is the last message from the kernel.'' []) st
       in Inr (b\<lparr>b_int := st\<rparr>))))"

definition boot_logo ::
  "('k, 'pt, 'e, 'g, 'desc, 'tables, 'fadt, 'ns, 'name, 'd) environment \<Rightarrow> ('k, 'pt, 'g, 'd) boot \<Rightarrow> ('k, 'pt, 'g, 'd) boot outcome" where
  "boot_logo env b =
     (case png env of
        Inl _ \<Rightarrow> Inl (ExpectFailed ''called Result::unwrap() on an Err value'')
      | Inr (img_width, img_height, pixels) \<Rightarrow>
          (let io = port_ops env;
               d = bga_set_video_mode io img_width img_height (ucast VBE_DISPI_BPP_32) True True (I_ports (b_int b));
               d = bga_set_bank io 0 d in
           and_then (unwrap (framebuffer env)) (\<lambda>(_, _, _, len).
           and_then (draw_logo (len div 4) img_width img_height pixels
                       (vram env d (case I_console (b_int b) of None \<Rightarrow> [] | Some con \<Rightarrow> draw_buffer con))) (\<lambda>fb.
             Inr (b\<lparr>b_screen := fb, b_int := (b_int b)\<lparr>I_ports := d, I_console :=
                      map_option (\<lambda>con. con\<lparr>draw_buffer := map fb [0..<length (draw_buffer con)]\<rparr>) (I_console (b_int b))\<rparr>\<rparr>)))))"

definition boot_heap_test ::
  "('k, 'pt, 'e, 'g, 'desc, 'tables, 'fadt, 'ns, 'name, 'd) environment \<Rightarrow> ('k, 'pt, 'g, 'd) boot \<Rightarrow> ('k, 'pt, 'g, 'd) boot outcome option" where
  "boot_heap_test env b =
     (if \<not> heap_grants env 24 \<or> \<not> heap_grants env 5 then Some (Inl AllocationError)
      else (let st = klog (debug ''{:?}'' [ArgFmt ''[{}, {}, {}, {}, {}, {}]'' (map ArgI32 [1, 1, 4, 5, 1, 4])]) (b_int b);
                st = klog (debug ''{:?} from the x86_64 kernel alloctor!'' [ArgStr ''Hello'']) st in
        case alloc_test (heap_grants env) of
          None \<Rightarrow> None
        | Some (Inl e) \<Rightarrow> Some (Inl e)
        | Some (Inr (_, logs)) \<Rightarrow> Some (Inr (b\<lparr>b_int := fold klog logs st\<rparr>))))"

text \<open>The state in which \<open>kernel_main\<close> enters its final loop of \<open>hlt\<close>.\<close>

definition kernel_main ::
  "('k, 'pt, 'e, 'g, 'desc, 'tables, 'fadt, 'ns, 'name, 'd) environment \<Rightarrow> ('k, 'pt, 'g, 'd) boot \<Rightarrow> ('k, 'pt, 'g, 'd) boot outcome option" where
  "kernel_main env b =
     (case and_then (boot_screen env b) (\<lambda>b.
           and_then (boot_memory env b) (\<lambda>b.
           and_then (boot_acpi env b) (\<lambda>b.
           and_then (boot_apic env b) (\<lambda>b.
           and_then (boot_threads env b) (\<lambda>b.
           and_then (boot_hello env b) (boot_logo env)))))) of
        Inl e \<Rightarrow> Some (Inl e)
      | Inr b \<Rightarrow> boot_heap_test env b)"

section \<open>Each phase returns\<close>

text \<open>What the rest of boot leaves alone once the scheduler runs.\<close>

definition core_of :: "'d int_state \<Rightarrow> Scheduler \<times> u64 \<times> ProcessTable \<times> machine \<times> LApic option" where
  "core_of st = (SCHEDULER st, NEXT_TID st, PROCESS_TABLE st, cpu st, I_LAPIC st)"

text \<open>What boot knows of the interrupt controllers.\<close>

definition apic_of :: "('k, 'pt, 'g, 'd) boot \<Rightarrow> IOApic list option \<times> apic_call list" where
  "apic_of b = (b_ioapic b, I_calls (b_int b))"

definition frame_bytes :: "('k, 'pt, 'e, 'g, 'desc, 'tables, 'fadt, 'ns, 'name, 'd) environment \<Rightarrow> nat" where
  "frame_bytes env = (case framebuffer env of None \<Rightarrow> 0 | Some (_, _, _, len) \<Rightarrow> len)"

lemma core_of_klog [simp]: "core_of (klog r st) = core_of st"
  by (simp add: core_of_def klog_def)

lemma core_of_fold_klog [simp]: "core_of (fold klog rs st) = core_of st"
  by (induction rs arbitrary: st) simp_all

lemma core_of_update [simp]:
  "core_of (st\<lparr>I_console := con\<rparr>) = core_of st" "core_of (st\<lparr>I_ports := d\<rparr>) = core_of st"
  "core_of (st\<lparr>I_shutdown := s\<rparr>) = core_of st" "core_of (serial_println f args st) = core_of st"
  "I_calls (serial_println f args st) = I_calls st"
  by (simp_all add: core_of_def serial_println_def)

lemma core_of_apic [simp]:
  "core_of (st\<lparr>I_LAPIC := l, I_calls := cs\<rparr>) = (case core_of st of (s, n, p, m, _) \<Rightarrow> (s, n, p, m, l))"
  by (simp add: core_of_def)

lemma klog_frame [simp]:
  "I_console (klog r st) = I_console st" "CR3 (klog r st) = CR3 st" "cpu (klog r st) = cpu st"
  for st :: "'d int_state"
  by (simp_all add: klog_def)

lemma fold_klog_frame [simp]:
  "I_console (fold klog rs st) = I_console st" "CR3 (fold klog rs st) = CR3 st" "cpu (fold klog rs st) = cpu st"
  for st :: "'d int_state"
  by (induction rs arbitrary: st) simp_all

lemma kernel_inv_cong:
  fixes st st' :: "'a kernel_state_scheme"
  assumes "SCHEDULER st' = SCHEDULER st" "NEXT_TID st' = NEXT_TID st" "PROCESS_TABLE st' = PROCESS_TABLE st"
  shows "kernel_inv st' = kernel_inv st"
  using assms by (simp add: kernel_inv_def ownership_def lifecycle_def pcb_ok_def idents_def
      thread_state_def tids_wf_def)

text \<open>The console after \<open>n\<close> bytes of text.\<close>

definition console_at :: "nat \<Rightarrow> nat \<Rightarrow> nat \<Rightarrow> nat \<Rightarrow> NotoFontDisplay \<Rightarrow> bool" where
  "console_at w h s n d \<longleftrightarrow> width d = w \<and> height d = h \<and> stride d = s \<and> cursor_x d = 0 \<and> cursor_y d = n \<and>
     length (draw_buffer d) = s * h"

lemma draw_string_at:
  assumes "monospaced f rw rh" "console_at w h s n d" "0 < w" "length msg * rw \<le> s" "n + rh \<le> h"
  obtains d' where "draw_string f msg d = Inr d'" "console_at w h s (n + str_len msg) d'"
proof -
  have d: "length (draw_buffer d) = stride d * height d" "cursor_x d = 0" "0 < width d"
      "length msg * rw \<le> stride d" "cursor_y d + rh \<le> height d"
    using assms by (simp_all add: console_at_def)
  obtain b where "draw_string f msg d = Inr (d\<lparr>draw_buffer := b, cursor_y := cursor_y d + str_len msg\<rparr>)"
    using draw_string_fits [OF assms(1) d] .
  moreover from this have "length b = length (draw_buffer d)"
    using draw_string_cases [OF assms(1) d(3,2), of msg] by (auto dest: arg_cong [where f = draw_buffer])
  ultimately show thesis using that assms(2) by (simp add: console_at_def)
qed

lemma console_print_at:
  assumes "monospaced f rw rh" "console_at w h s n d" "0 < w" "length msg * rw \<le> s" "n + rh \<le> h"
  obtains d' where "console_print f [msg] (Some d) = Inr (Some d')" "console_at w h s (n + str_len msg) d'"
  by (rule draw_string_at [OF assms]) (rule that, simp_all add: console_print_def write_str_def)

lemma message_lengths:
  "length (str_of ''Kernel Message'') = 14" "str_len (str_of ''Kernel Message'') = 14"
  "length (str_of (''Hello from the x86_64 kernel!'' @ NL)) = 30" "str_len (str_of (''Hello from the x86_64 kernel!'' @ NL)) = 30"
  "length (str_of (''More debug info will be display in the serial console.'' @ NL)) = 55"
  "str_len (str_of (''More debug info will be display in the serial console.'' @ NL)) = 55"
  "length (str_of (''Press Enter to poweroff.'' @ NL)) = 25"
  by (simp_all add: str_of_def str_len_def utf8_len_def)

lemma boot_screen_returns:
  assumes "framebuffer env = Some (w, h, s, len)" "monospaced (font_of env) rw rh" "0 < w" "14 * rw \<le> s" "rh \<le> h"
    and "\<not> logger_set (b_logger b)" "gdt_docs (gdt_ops env) used" "4 * (s * h) \<le> len"
    and "TSS_build (paging env) (ist_stack env) (fresh_ist env) = Inr tss"
  obtains b' con where "boot_screen env b = Inr b'" "I_console (b_int b') = Some con" "console_at w h s 14 con"
    "core_of (b_int b') = core_of (b_int b)" "CR3 (b_int b') = CR3 (b_int b)" "b_offset b' = b_offset b"
    "apic_of b' = apic_of b" "b_idt b' = b_idt b @ [LoadIdt IDT]"
proof -
  let ?fresh = "NotoFontDisplay_new w h s (replicate (s * h) 0xff408deb) 24"
  have "console_at w h s 0 ?fresh" by (simp add: console_at_def NotoFontDisplay_new_def)
  then obtain con where con: "draw_string (font_of env) (str_of ''Kernel Message'') ?fresh = Inr con" "console_at w h s 14 con"
    using draw_string_at [OF assms(2) _ assms(3), of h s 0 ?fresh "str_of ''Kernel Message''"] assms(4,5)
    by (auto simp only: message_lengths add_0)
  obtain G where "GDT_build (gdt_ops env) tss = Inr G" using GDT_build_run [OF assms(7)] by blast
  then show thesis
    using con assms(1,6,8,9)
    by (intro that [of "projr (boot_screen env b)" con])
      (simp_all add: boot_screen_def logging_init_def console_init_def Let_def interrupts_init_def apic_of_def)
qed

lemma boot_memory_returns:
  assumes "memory_init (paging env) (usable_kind env) (show_kind env) (show_boot_info env) (new_table env)
      (map_to_fn env) (frame_allocation_failed env) (ram (cpu (b_int b))) (CR3 (b_int b)) (boot_info env) (b_offset b) = Inr m"
  obtains b' where "boot_memory env b = Inr b'" "I_console (b_int b') = I_console (b_int b)"
    "core_of (b_int b') = core_of (b_int b)" "b_offset b' = PHYSICAL_MEMORY_OFFSET m" "b_heap b' = Some (heap m)"
    "apic_of b' = apic_of b" "b_idt b' = b_idt b"
  using assms by (intro that [of "projr (boot_memory env b)"]) (simp_all add: boot_memory_def apic_of_def)

lemma boot_acpi_returns:
  assumes "rsdp_addr env = Some r"
    and "\<And>tables d. from_rsdp (acpi_ops env) r = Inr tables \<Longrightarrow> dsdt (acpi_ops env) tables = Inr d \<Longrightarrow>
           \<exists>t. aml_bytes (paging env) (b_offset b) (ram (cpu (b_int b))) d = Inr t"
  obtains b' where "boot_acpi env b = Inr b'" "I_console (b_int b') = I_console (b_int b)"
    "core_of (b_int b') = core_of (b_int b)" "b_offset b' = b_offset b" "b_heap b' = b_heap b"
    "apic_of b' = apic_of b" "b_idt b' = b_idt b"
proof -
  let ?a = "\<lparr>ACPI_SHUTDOWN = I_shutdown (b_int b), acpi_log = []\<rparr>"
  obtain a where "acpi_init (acpi_ops env) (paging env) (b_offset b) (ram (cpu (b_int b))) r ?a = Inr a"
    using acpi_init_cases [of "acpi_ops env" "paging env" "b_offset b" "ram (cpu (b_int b))" r ?a] assms(2) by fastforce
  with assms(1) show thesis
    by (intro that [of "projr (boot_acpi env b)"]) (simp_all add: boot_acpi_def apic_of_def)
qed

lemma boot_apic_returns:
  assumes "rsdp_addr env = Some r" "interrupt_model_of env r = Inr (Apic la (i # is))"
    and "apic_of b = (None, [])" "I_LAPIC (b_int b) = None"
    and "cfg = \<lparr>timer_vector = 32, error_vector = 51, spurious_vector = 0xff, xapic_base = off + la\<rparr>" "lapic_build_ok env cfg"
    and "\<And>a. a \<in> insert la (ucast ` set (i # is)) \<Longrightarrow> phys_u64 (paging env) (b_offset b) a = Inr (off + a)"
  obtains b' l where "boot_apic env b = Inr b'" "I_console (b_int b') = I_console (b_int b)"
    "core_of (b_int b') = (case core_of (b_int b) of (s, n, p, m, _) \<Rightarrow> (s, n, p, m, Some l))" "lapic l = Some cfg"
    "b_heap b' = b_heap b" "b_idt b' = b_idt b" "map_option (map io_addr) (b_ioapic b') = Some (map (\<lambda>j. off + ucast j) (i # i # is))"
    "I_calls (b_int b') = concat (map (\<lambda>j. programmed (off + ucast j)) (i # i # is)) @ [LocalApic_enable (off + la)]"
proof -
  let ?st = "\<lparr>IOAPIC = b_ioapic b, LAPIC = I_LAPIC (b_int b), apic_calls = I_calls (b_int b),
    apic_ports = I_ports (b_int b), apic_log = []\<rparr>"
  have "\<forall>j \<in> set (i # is). phys_u64 (paging env) (b_offset b) (ucast j) = Inr (off + ucast j)"
      "phys_u64 (paging env) (b_offset b) la = Inr (off + la)"
    using assms(7) by simp_all
  then obtain a where "apic_init (interrupt_model_of env) (lapic_build_ok env) (paging env) (b_offset b) (port_ops env) r ?st = Inr a"
      "map_option lapic (LAPIC a) = Some (Some cfg)" "map_option (map io_addr) (IOAPIC a) = Some (map (\<lambda>j. off + ucast j) (i # i # is))"
      "apic_calls a = concat (map (\<lambda>j. programmed (off + ucast j)) (i # i # is)) @ [LocalApic_enable (off + la)]"
    using apic_init_run [of "interrupt_model_of env" r la i "is" ?st "lapic_build_ok env" off "paging env" "b_offset b" "port_ops env"]
      assms(2-6) by (auto simp: apic_of_def)
  then show thesis
    using assms(1)
    by (intro that [of "projr (boot_apic env b)" "the (LAPIC a)"]) (auto simp: boot_apic_def)
qed

lemma create_process_run:
  fixes st :: "'a kernel_state_scheme"
  assumes "unat p + 16384 < 2 ^ 64" "next_pid (PROCESS_TABLE st) \<noteq> - 1"
  obtains st' where
    "create_process trampoline (Some p) name entry_fn st = Inr (next_pid (PROCESS_TABLE st), st')"
    "SCHEDULER st' = add_thread (new_thread (NEXT_TID st) (next_pid (PROCESS_TABLE st)) p) (SCHEDULER st)"
    "NEXT_TID st' = NEXT_TID st + 1" "next_pid (PROCESS_TABLE st') = next_pid (PROCESS_TABLE st) + 1"
    "kernel_state.more st' = kernel_state.more st"
proof -
  let ?pid = "next_pid (PROCESS_TABLE st)"
  have "alloc_pid (PROCESS_TABLE st) = Inr (?pid, (PROCESS_TABLE st)\<lparr>next_pid := ?pid + 1\<rparr>)"
    using assms(2) succ_u64_iff [of ?pid] by (simp add: alloc_pid_def add_checked_def Let_def)
  then show thesis
    by (intro that [of "snd (projr (create_process trampoline (Some p) name entry_fn st))"])
      (simp_all add: create_process_def register_process_def spawn_thread_run [OF assms(1)] klog_def record_thread_def)
qed

lemma scheduler_init_returns:
  fixes st :: "'a kernel_state_scheme"
  assumes "unat pa + 16384 < 2 ^ 64" "unat pb + 16384 < 2 ^ 64"
    and fresh: "SCHEDULER st = Scheduler_new" "NEXT_TID st = 1" "PROCESS_TABLE st = ProcessTable_new"
  obtains st' where "scheduler_init trampoline (Some pa) (Some pb) demo_a demo_b st = Inr st'" "kernel_inv st'"
    "map tview (threads (SCHEDULER st')) = [(0, 0, Running), (1, 1, Ready), (2, 2, Ready)]"
    "current (SCHEDULER st') = 0" "kernel_state.more st' = kernel_state.more st"
proof -
  define idle where "idle = st\<lparr>PROCESS_TABLE := \<lparr>processes = [(0, \<lparr>p_pid = 0, p_name = ''kernel'', p_state = P_Running,
         p_parent = None, p_threads = [0], p_exit_code = None, p_page_table = CR3 st\<rparr>)], next_pid = 1\<rparr>,
     SCHEDULER := \<lparr>threads = [idle_thread], current = 0\<rparr>\<rparr>"
  have idle: "next_pid (PROCESS_TABLE idle) = 1" "NEXT_TID idle = 1" "SCHEDULER idle = \<lparr>threads = [idle_thread], current = 0\<rparr>"
      "kernel_state.more idle = kernel_state.more st"
    using fresh by (simp_all add: idle_def)
  obtain sta where a: "create_process trampoline (Some pa) ''demo_a'' demo_a idle = Inr (1, sta)"
      "SCHEDULER sta = add_thread (new_thread 1 1 pa) (SCHEDULER idle)" "NEXT_TID sta = 2" "next_pid (PROCESS_TABLE sta) = 2"
      "kernel_state.more sta = kernel_state.more st"
    by (rule create_process_run [OF assms(1), of idle trampoline "''demo_a''" demo_a]) (use idle in auto)
  obtain stb where b: "create_process trampoline (Some pb) ''demo_b'' demo_b sta = Inr (2, stb)"
      "SCHEDULER stb = add_thread (new_thread 2 2 pb) (SCHEDULER sta)" "kernel_state.more stb = kernel_state.more st"
    by (rule create_process_run [OF assms(2), of sta trampoline "''demo_b''" demo_b]) (use a in auto)
  define st' where "st' = klog (info ''Scheduler initialized with {} threads'' [ArgUsize (thread_count (SCHEDULER stb))]) stb"
  have run: "scheduler_init trampoline (Some pa) (Some pb) demo_a demo_b st = Inr st'"
    using a(1) b(1) fresh
    by (simp add: scheduler_init_def alloc_pid_def ProcessTable_new_def Scheduler_new_def btree_new_def
        add_checked_def insert_process_def add_thread_def idle_def [symmetric] st'_def)
  then show thesis
    using that [OF run scheduler_init_inv [OF fresh run]] a b idle(3)
    by (simp add: st'_def klog_def add_thread_def new_thread_def tview_def idle_thread_def)
qed

lemma more_int_frame:
  fixes st st' :: "'d int_state"
  shows "kernel_state.more st' = kernel_state.more st \<Longrightarrow> I_LAPIC st' = I_LAPIC st \<and> I_console st' = I_console st \<and> I_calls st' = I_calls st"
  by (cases st, cases st') simp

lemma boot_threads_returns:
  assumes "stack_a env = Some pa" "unat pa + 16384 < 2 ^ 64" "stack_b env = Some pb" "unat pb + 16384 < 2 ^ 64"
    and "core_of (b_int b) = (Scheduler_new, 1, ProcessTable_new, m, l)"
  obtains b' where "boot_threads env b = Inr b'" "I_console (b_int b') = I_console (b_int b)" "kernel_inv (b_int b')"
    "I_LAPIC (b_int b') = l" "interrupt_flag (cpu (b_int b'))"
    "map tview (threads (SCHEDULER (b_int b'))) = [(0, 0, Running), (1, 1, Ready), (2, 2, Ready)]"
    "current (SCHEDULER (b_int b')) = 0" "b_heap b' = b_heap b" "b_idt b' = b_idt b" "apic_of b' = apic_of b"
proof -
  let ?st = "process_init (b_int b)"
  have fresh: "SCHEDULER ?st = Scheduler_new" "NEXT_TID ?st = 1" "PROCESS_TABLE ?st = ProcessTable_new"
      "I_LAPIC ?st = l" "I_console ?st = I_console (b_int b)"
    using assms(5) by (simp_all add: core_of_def process_init_def klog_def)
  obtain st' where run: "scheduler_init (trampoline_fn env) (stack_a env) (stack_b env) (demo_task_a env) (demo_task_b env) ?st = Inr st'"
      "map tview (threads (SCHEDULER st')) = [(0, 0, Running), (1, 1, Ready), (2, 2, Ready)]"
      "current (SCHEDULER st') = 0" and inv: "kernel_inv st'" and more: "kernel_state.more st' = kernel_state.more ?st"
    unfolding assms(1,3) by (rule scheduler_init_returns [OF assms(2,4) fresh(1-3)])
  have frame: "I_LAPIC st' = l" "I_console st' = I_console (b_int b)" "I_calls st' = I_calls (b_int b)"
    using more_int_frame [OF more] fresh(4,5) by (simp_all add: process_init_def)
  obtain logs d where pci: "pcie_init (port_ops env) (I_ports st') = (logs, d)" by (metis surj_pair)
  let ?st2 = "klog (info ''PCIe Initialized'' []) (fold klog logs (st'\<lparr>I_ports := d\<rparr>))"
  let ?st3 = "klog (info ''Interrupts enabled'' []) (enable_interrupts ?st2)"
  have b': "boot_threads env b = Inr (b\<lparr>b_int := ?st3\<rparr>)"
    by (simp add: boot_threads_def run(1) pci)
  have core: "SCHEDULER ?st3 = SCHEDULER st'" "NEXT_TID ?st3 = NEXT_TID st'" "PROCESS_TABLE ?st3 = PROCESS_TABLE st'"
      "I_LAPIC ?st3 = I_LAPIC st'" "I_console ?st3 = I_console st'" "interrupt_flag (cpu ?st3)"
  proof -
    have "core_of ?st2 = core_of st'" by simp
    then show "SCHEDULER ?st3 = SCHEDULER st'" "NEXT_TID ?st3 = NEXT_TID st'" "PROCESS_TABLE ?st3 = PROCESS_TABLE st'"
      "I_LAPIC ?st3 = I_LAPIC st'" by (simp_all add: core_of_def enable_interrupts_def Let_def klog_def)
  qed (simp_all add: enable_interrupts_def Let_def klog_def)
  have "I_calls ?st3 = I_calls st'" by (simp add: enable_interrupts_def Let_def)
  then have "apic_of (b\<lparr>b_int := ?st3\<rparr>) = apic_of b" using frame(3) by (simp add: apic_of_def)
  moreover have "kernel_inv ?st3"
    using inv kernel_inv_cong [OF core(1-3)] by simp
  ultimately show thesis using b' run frame core by (intro that [of "b\<lparr>b_int := ?st3\<rparr>"]) simp_all
qed

lemma boot_hello_returns:
  assumes "monospaced (font_of env) rw rh" "0 < w" "55 * rw \<le> s" "99 + rh \<le> h"
    and "I_console (b_int b) = Some con" "console_at w h s 14 con"
  obtains b' where "boot_hello env b = Inr b'" "core_of (b_int b') = core_of (b_int b)" "b_heap b' = b_heap b" "b_idt b' = b_idt b"
    "apic_of b' = apic_of b"
proof -
  note print = console_print_at [OF assms(1) _ assms(2), of h s]
  obtain c1 where c1: "console_print (font_of env) [str_of (''Hello from the x86_64 kernel!'' @ NL)] (Some con) = Inr (Some c1)"
      "console_at w h s 44 c1"
    using print [OF assms(6), of "str_of (''Hello from the x86_64 kernel!'' @ NL)"] assms(3,4) unfolding message_lengths by auto
  obtain c2 where c2: "console_print (font_of env) [str_of (''More debug info will be display in the serial console.'' @ NL)] (Some c1) = Inr (Some c2)"
      "console_at w h s 99 c2"
    using print [OF c1(2), of "str_of (''More debug info will be display in the serial console.'' @ NL)"] assms(3,4)
    unfolding message_lengths by auto
  obtain c3 where "console_print (font_of env) [str_of (''Press Enter to poweroff.'' @ NL)] (Some c2) = Inr (Some c3)"
    using print [OF c2(2), of "str_of (''Press Enter to poweroff.'' @ NL)"] assms(3,4) unfolding message_lengths by auto
  then show thesis
    using c1(1) c2(1) assms(5) by (intro that [of "projr (boot_hello env b)"]) (simp_all only: boot_hello_def, simp_all add: Let_def apic_of_def)
qed

lemma boot_logo_returns:
  assumes "png env = Inr (iw, ih, pixels)" "length pixels = unat iw * unat ih" "unat iw * unat ih < 2 ^ 32"
    "\<forall>p \<in> set pixels. length p = 4" "framebuffer env = Some (w, h, s, len)" "4 * (unat iw * unat ih) \<le> len"
  obtains b' where "boot_logo env b = Inr b'" "core_of (b_int b') = core_of (b_int b)" "b_heap b' = b_heap b" "b_idt b' = b_idt b"
    "apic_of b' = apic_of b"
    "\<forall>k < unat iw * unat ih. b_screen b' k = pixel_color (pixels ! k)"
proof -
  have "unat iw * unat ih \<le> len div 4" using assms(6) by linarith
  then show thesis
    using assms(1,5) draw_logo_run [OF assms(2-4), of "len div 4"]
    by (intro that [of "projr (boot_logo env b)"]) (auto simp: boot_logo_def core_of_def apic_of_def Let_def)
qed

lemma boot_heap_test_returns:
  assumes "\<forall>n \<le> 524295. heap_grants env n"
  obtains b' where "boot_heap_test env b = Some (Inr b')" "core_of (b_int b') = core_of (b_int b)" "b_heap b' = b_heap b"
    "b_idt b' = b_idt b" "apic_of b' = apic_of b" "b_screen b' = b_screen b" "last (KLOG (b_int b')) = info ''Bumb tests run OK!'' []"
proof -
  obtain pool logs where "alloc_test (heap_grants env) = Some (Inr (pool, logs @ [info ''Bumb tests run OK!'' []]))"
    using alloc_test_run [OF assms] by (metis append_Cons)
  with assms show thesis
    by (intro that [of "projr (the (boot_heap_test env b))"]) (simp_all add: boot_heap_test_def Let_def KLOG_klog apic_of_def)
qed

section \<open>The booted kernel\<close>

text \<open>
  What the machine has to offer. \<open>screen_ok\<close>: a font, and a frame buffer of four bytes per pixel that holds the
  four messages, 55 characters wide, the last one starting at row 99. \<open>memory_ok\<close>: a window onto physical memory, a sane
  memory map with room for the heap and its tables, unmapped heap pages. \<open>controllers_ok\<close>: an APIC
  machine with at least one I/O APIC whose registers, and whose DSDT, are visible through the window.
\<close>

definition screen_ok :: "('k, 'pt, 'e, 'g, 'desc, 'tables, 'fadt, 'ns, 'name, 'd) environment \<Rightarrow> nat \<Rightarrow> nat \<Rightarrow> bool" where
  "screen_ok env rw rh \<longleftrightarrow> monospaced (font_of env) rw rh \<and>
     (case framebuffer env of None \<Rightarrow> False | Some (w, h, s, len) \<Rightarrow> 0 < w \<and> 55 * rw \<le> s \<and> 99 + rh \<le> h \<and> 4 * (s * h) \<le> len)"

definition memory_ok ::
  "('k, 'pt, 'e, 'g, 'desc, 'tables, 'fadt, 'ns, 'name, 'd) environment \<Rightarrow> ('pt \<Rightarrow> u64 \<Rightarrow> u64 option) \<Rightarrow> u64 \<Rightarrow> u64 \<Rightarrow> bool" where
  "memory_ok env translate off cr3 \<longleftrightarrow>
     paging_docs (paging env) \<and> regions_ok (usable_kind env) (memory_regions (boot_info env)) \<and>
     mapper_docs (allocate_frame (paging env) (usable_kind env)) translate (map_to_fn env) \<and>
     mapper_live (frames_remaining (usable_kind env)) translate (map_to_fn env) \<and>
     physical_memory_offset_opt (boot_info env) = Some off \<and> canonical off \<and> unat off + unat cr3 < 2 ^ 64 \<and> canonical (off + cr3) \<and>
     (\<exists>logs. log_regions (paging env) (show_kind env) (memory_regions (boot_info env)) = Inr logs) \<and>
     4 * 8192 \<le> length (frame_addresses (usable_kind env) (memory_regions (boot_info env))) \<and>
     (\<forall>k < 8192. translate (new_table env (off + cr3, off)) (heap_page k) = None)"

definition visible :: "u64 \<Rightarrow> u64 \<Rightarrow> bool" where
  "visible off a \<longleftrightarrow> unat a < 2 ^ 52 \<and> unat off + unat a < 2 ^ 64 \<and> canonical (off + a)"

definition controllers_ok ::
  "('k, 'pt, 'e, 'g, 'desc, 'tables, 'fadt, 'ns, 'name, 'd) environment \<Rightarrow> u64 \<Rightarrow> u64 \<Rightarrow> u32 list \<Rightarrow> bool" where
  "controllers_ok env off la ios \<longleftrightarrow> ios \<noteq> [] \<and> visible off la \<and> (\<forall>j \<in> set ios. visible off (ucast j)) \<and>
     (\<exists>r. rsdp_addr env = Some r \<and> interrupt_model_of env r = Inr (Apic la ios) \<and>
        (\<forall>tables d. from_rsdp (acpi_ops env) r = Inr tables \<and> dsdt (acpi_ops env) tables = Inr d \<longrightarrow>
           visible off (phys_address d) \<and> 36 \<le> unat (dsdt_length d))) \<and>
     lapic_build_ok env \<lparr>timer_vector = 32, error_vector = 51, spurious_vector = 0xff, xapic_base = off + la\<rparr>"

lemma aml_bytes_returns:
  assumes "paging_docs c" "visible off (phys_address d)" "36 \<le> unat (dsdt_length d)"
  shows "\<exists>t. aml_bytes c (Some off) m d = Inr t"
proof -
  have "unat (ucast (dsdt_length d) :: u64) = unat (dsdt_length d)"
    using unsigned_less [of "dsdt_length d", where ?'a = nat] by (simp add: unsigned_ucast_eq take_bit_nat_eq_self)
  then show ?thesis
    using assms
    by (simp add: aml_bytes_def visible_def physical_to_virtual_def add_checked_def paging_docsD sub_checked_def
        ACPI_TABLE_HEADER_SIZE_def word_le_nat_alt)
qed

lemma timer_interrupt_inv:
  fixes st :: "'d int_state"
  assumes "I_LAPIC st = Some l" "lapic l = Some cfg" "kernel_inv st"
  shows "\<exists>st'. timer_interrupt addr ret st = Inr st' \<and> kernel_inv st'"
proof -
  let ?st = "st\<lparr>I_calls := I_calls st @ [LocalApic_end_of_interrupt (xapic_base cfg)], I_eoi := I_eoi st @ [current (SCHEDULER st)]\<rparr>"
  have inv: "kernel_inv ?st" using assms(3) kernel_inv_cong [of ?st st] by simp
  then obtain st' where "tick addr ret ?st = Inr st'"
    using tick_refines [of ?st addr ret] by (auto simp: kernel_inv_def)
  moreover from this have "kernel_inv st'" using kernel_inv_tick inv by blast
  ultimately show ?thesis by (simp add: timer_interrupt_def send_eoi_run [OF assms(1,2)])
qed

lemma boot_hardware_returns:
  assumes "screen_ok env rw rh" "memory_ok env translate off cr3" "controllers_ok env off la ios"
    and gdt: "gdt_docs (gdt_ops env) used" "length (fresh_ist env) = 7" "canonical (ist_stack env)"
      "unat (ist_stack env) + 20480 < 2 ^ 64" "canonical (ist_stack env + 20480)"
  obtains b1 b2 b3 b4 con l w h s len where
    "boot_screen env (power_on m cr3 d) = Inr b1" "boot_memory env b1 = Inr b2" "boot_acpi env b2 = Inr b3" "boot_apic env b3 = Inr b4"
    "framebuffer env = Some (w, h, s, len)" "monospaced (font_of env) rw rh" "0 < w" "55 * rw \<le> s" "99 + rh \<le> h"
    "I_console (b_int b4) = Some con" "console_at w h s 14 con"
    "core_of (b_int b4) = (Scheduler_new, 1, ProcessTable_new, m, Some l)"
    "lapic l = Some \<lparr>timer_vector = 32, error_vector = 51, spurious_vector = 0xff, xapic_base = off + la\<rparr>"
    "map_option ALLOCATOR (b_heap b4) = Some (Some (HEAP_START, HEAP_SIZE))" "b_idt b4 = [LoadIdt IDT]"
    "map_option (map io_addr) (b_ioapic b4) = Some (map (\<lambda>j. off + ucast j) (hd ios # ios))"
    "I_calls (b_int b4) = concat (map (\<lambda>j. programmed (off + ucast j)) (hd ios # ios)) @ [LocalApic_enable (off + la)]"
proof -
  obtain w h s len where screen: "framebuffer env = Some (w, h, s, len)" "monospaced (font_of env) rw rh" "0 < w" "55 * rw \<le> s" "99 + rh \<le> h"
    and bytes: "4 * (s * h) \<le> len"
    using assms(1) by (auto simp: screen_ok_def split: option.splits)
  note mem = assms(2) [unfolded memory_ok_def]
  have docs: "paging_docs (paging env)" using mem by blast
  obtain r where apic: "rsdp_addr env = Some r" "interrupt_model_of env r = Inr (Apic la ios)"
      "\<And>tables d. from_rsdp (acpi_ops env) r = Inr tables \<Longrightarrow> dsdt (acpi_ops env) tables = Inr d \<Longrightarrow>
         visible off (phys_address d) \<and> 36 \<le> unat (dsdt_length d)"
    using assms(3) unfolding controllers_ok_def by metis
  obtain i "is" where ios: "ios = i # is" using assms(3) by (cases ios) (auto simp: controllers_ok_def)
  define cfg where "cfg = \<lparr>timer_vector = 32, error_vector = 51, spurious_vector = 0xff, xapic_base = off + la\<rparr>"
  have lapic: "lapic_build_ok env cfg" using assms(3) by (simp add: controllers_ok_def cfg_def)
  have regs: "phys_u64 (paging env) (Some off) a = Inr (off + a)" if "a \<in> insert la (ucast ` set (i # is))" for a
    using that assms(3) by (intro phys_u64_run [OF docs]) (auto simp: controllers_ok_def visible_def ios)
  define on where "on = (power_on m cr3 d :: ('a, 'b, 'd, 'j) boot)"
  have on: "\<not> logger_set (b_logger on)" "core_of (b_int on) = (Scheduler_new, 1, ProcessTable_new, m, None)" "CR3 (b_int on) = cr3"
      "b_offset on = None" "apic_of on = (None, [])" "b_idt on = []"
    by (simp_all add: on_def power_on_def core_of_def apic_of_def)
  have "14 * rw \<le> s" "rh \<le> h" using screen(4,5) by simp_all
  then obtain tss where "TSS_build (paging env) (ist_stack env) (fresh_ist env) = Inr tss"
    using TSS_build_run [OF docs gdt(3-5,2)] by blast
  obtain b1 con where b1: "boot_screen env on = Inr b1" "I_console (b_int b1) = Some con" "console_at w h s 14 con"
    "core_of (b_int b1) = core_of (b_int on)" "CR3 (b_int b1) = cr3" "b_offset b1 = None"
    "apic_of b1 = (None, [])" "b_idt b1 = [LoadIdt IDT]"
    using boot_screen_returns [OF screen(1-3) \<open>14 * rw \<le> s\<close> \<open>rh \<le> h\<close> on(1) gdt(1) bytes \<open>TSS_build _ _ _ = _\<close>] on by auto
  obtain mem where "memory_init (paging env) (usable_kind env) (show_kind env) (show_boot_info env) (new_table env)
      (map_to_fn env) (frame_allocation_failed env) (ram (cpu (b_int b1))) (CR3 (b_int b1)) (boot_info env) (b_offset b1) = Inr mem"
      "PHYSICAL_MEMORY_OFFSET mem = Some off" "ALLOCATOR (heap mem) = Some (HEAP_START, HEAP_SIZE)"
    using mem memory_init_returns [of "paging env" "usable_kind env" "boot_info env" translate "map_to_fn env" off cr3 "show_kind env"]
    unfolding b1(5,6) by metis
  then obtain b2 where b2: "boot_memory env b1 = Inr b2" "I_console (b_int b2) = Some con"
    "core_of (b_int b2) = core_of (b_int on)" "b_offset b2 = Some off"
    "map_option ALLOCATOR (b_heap b2) = Some (Some (HEAP_START, HEAP_SIZE))" "apic_of b2 = (None, [])" "b_idt b2 = [LoadIdt IDT]"
    using boot_memory_returns [of env b1] b1 by (metis option.map(2))
  have aml: "\<exists>t. aml_bytes (paging env) (b_offset b2) (ram (cpu (b_int b2))) dt = Inr t"
    if "from_rsdp (acpi_ops env) r = Inr tables" "dsdt (acpi_ops env) tables = Inr dt" for tables dt
    using aml_bytes_returns [OF docs] apic(3) [OF that] b2(4) by simp
  obtain b3 where b3: "boot_acpi env b2 = Inr b3" "I_console (b_int b3) = Some con" "core_of (b_int b3) = core_of (b_int on)"
    "b_offset b3 = Some off" "b_heap b3 = b_heap b2" "apic_of b3 = (None, [])" "b_idt b3 = [LoadIdt IDT]"
    by (rule boot_acpi_returns [OF apic(1) aml]) (use b2 in auto)
  have "I_LAPIC (b_int b3) = None" using b3(3) on(2) by (simp add: core_of_def)
  then obtain b4 l where b4: "boot_apic env b3 = Inr b4" "I_console (b_int b4) = Some con"
    "core_of (b_int b4) = (Scheduler_new, 1, ProcessTable_new, m, Some l)" "lapic l = Some cfg"
    "b_heap b4 = b_heap b2" "b_idt b4 = [LoadIdt IDT]"
    "map_option (map io_addr) (b_ioapic b4) = Some (map (\<lambda>j. off + ucast j) (i # i # is))"
    "I_calls (b_int b4) = concat (map (\<lambda>j. programmed (off + ucast j)) (i # i # is)) @ [LocalApic_enable (off + la)]"
    using boot_apic_returns [OF apic(1) apic(2) [unfolded ios] b3(6) _ cfg_def lapic] regs b3 on(2) by auto
  show thesis
    by (rule that [OF b1(1) [unfolded on_def] b2(1) b3(1) b4(1) screen b4(2) b1(3) b4(3) b4(4) [unfolded cfg_def]])
      (use b2(5) b4(5-8) ios in simp_all)
qed

text \<open>
  C1. The kernel boots: on a machine that offers what the initialisation needs, and when no interrupt is taken
  between the enabling of interrupts and the idle loop, \<open>kernel_main\<close> returns from every call and reaches
  its idle loop. There the descriptor table is loaded and interrupts are enabled, the heap range belongs
  to the allocator, every I/O APIC and the local APIC are programmed and the local APIC is enabled, the
  scheduler and the process table satisfy the kernel's invariant with the boot thread running and the two
  demo threads ready, the logo is on the screen, and the next timer interrupt is handled without a panic and
  keeps the invariant.
\<close>

theorem kernel_main_boots:
  assumes "screen_ok env rw rh" "memory_ok env translate off cr3" "controllers_ok env off la ios"
    and gdt: "gdt_docs (gdt_ops env) used" "length (fresh_ist env) = 7" "canonical (ist_stack env)"
      "unat (ist_stack env) + 20480 < 2 ^ 64" "canonical (ist_stack env + 20480)"
    and stacks: "stack_a env = Some pa" "unat pa + 16384 < 2 ^ 64" "stack_b env = Some pb" "unat pb + 16384 < 2 ^ 64"
    and logo: "png env = Inr (iw, ih, pixels)" "length pixels = unat iw * unat ih" "unat iw * unat ih < 2 ^ 32"
      "\<forall>p \<in> set pixels. length p = 4" "4 * (unat iw * unat ih) \<le> frame_bytes env"
    and "\<forall>n \<le> 524295. heap_grants env n"
  shows "\<exists>b. kernel_main env (power_on m cr3 d) = Some (Inr b) \<and> b_idt b = [LoadIdt IDT] \<and> interrupt_flag (cpu (b_int b)) \<and>
     map_option ALLOCATOR (b_heap b) = Some (Some (HEAP_START, HEAP_SIZE)) \<and>
     map_option (map io_addr) (b_ioapic b) = Some (map (\<lambda>j. off + ucast j) (hd ios # ios)) \<and>
     map_option lapic (I_LAPIC (b_int b)) = Some (Some \<lparr>timer_vector = 32, error_vector = 51, spurious_vector = 0xff, xapic_base = off + la\<rparr>) \<and>
     I_calls (b_int b) = concat (map (\<lambda>j. programmed (off + ucast j)) (hd ios # ios)) @ [LocalApic_enable (off + la)] \<and>
     kernel_inv (b_int b) \<and> map tview (threads (SCHEDULER (b_int b))) = [(0, 0, Running), (1, 1, Ready), (2, 2, Ready)] \<and>
     (\<forall>k < unat iw * unat ih. b_screen b k = pixel_color (pixels ! k)) \<and>
     (\<forall>addr ret. \<exists>st. timer_interrupt addr ret (b_int b) = Inr st \<and> kernel_inv st)"
proof -
  obtain b1 b2 b3 b4 con l w h s len where hw: "boot_screen env (power_on m cr3 d) = Inr b1" "boot_memory env b1 = Inr b2"
    "boot_acpi env b2 = Inr b3" "boot_apic env b3 = Inr b4"
    and screen: "framebuffer env = Some (w, h, s, len)" "monospaced (font_of env) rw rh" "0 < w" "55 * rw \<le> s" "99 + rh \<le> h"
    and con: "I_console (b_int b4) = Some con" "console_at w h s 14 con"
    and b4: "core_of (b_int b4) = (Scheduler_new, 1, ProcessTable_new, m, Some l)"
      "lapic l = Some \<lparr>timer_vector = 32, error_vector = 51, spurious_vector = 0xff, xapic_base = off + la\<rparr>"
      "map_option ALLOCATOR (b_heap b4) = Some (Some (HEAP_START, HEAP_SIZE))" "b_idt b4 = [LoadIdt IDT]"
    and apic: "map_option (map io_addr) (b_ioapic b4) = Some (map (\<lambda>j. off + ucast j) (hd ios # ios))"
      "I_calls (b_int b4) = concat (map (\<lambda>j. programmed (off + ucast j)) (hd ios # ios)) @ [LocalApic_enable (off + la)]"
    using boot_hardware_returns [OF assms(1-3) gdt] .
  obtain b5 where b5: "boot_threads env b4 = Inr b5" "I_console (b_int b5) = Some con" "kernel_inv (b_int b5)"
    "I_LAPIC (b_int b5) = Some l" "interrupt_flag (cpu (b_int b5))"
    "map tview (threads (SCHEDULER (b_int b5))) = [(0, 0, Running), (1, 1, Ready), (2, 2, Ready)]"
    "b_heap b5 = b_heap b4" "b_idt b5 = [LoadIdt IDT]" "apic_of b5 = apic_of b4"
    using boot_threads_returns [OF stacks b4(1)] con(1) b4 by metis
  obtain b6 where b6: "boot_hello env b5 = Inr b6" "core_of (b_int b6) = core_of (b_int b5)" "b_heap b6 = b_heap b4" "b_idt b6 = [LoadIdt IDT]"
    "apic_of b6 = apic_of b4"
    using boot_hello_returns [OF screen(2-5) b5(2) con(2)] b5 by metis
  have "4 * (unat iw * unat ih) \<le> len" using logo(5) screen(1) by (simp add: frame_bytes_def)
  then obtain b7 where b7: "boot_logo env b6 = Inr b7" "core_of (b_int b7) = core_of (b_int b5)" "b_heap b7 = b_heap b4" "b_idt b7 = [LoadIdt IDT]"
    "apic_of b7 = apic_of b4" "\<forall>k < unat iw * unat ih. b_screen b7 k = pixel_color (pixels ! k)"
    using boot_logo_returns [OF logo(1-4) screen(1), of b6] b6 by metis
  obtain b8 where b8: "boot_heap_test env b7 = Some (Inr b8)" "core_of (b_int b8) = core_of (b_int b5)" "b_heap b8 = b_heap b4"
    "b_idt b8 = [LoadIdt IDT]" "b_screen b8 = b_screen b7" "apic_of b8 = apic_of b4"
    using boot_heap_test_returns [OF assms(18), of b7] b7 by metis
  have run: "kernel_main env (power_on m cr3 d) = Some (Inr b8)"
    by (simp add: kernel_main_def hw b5(1) b6(1) b7(1) b8(1))
  have inv: "kernel_inv (b_int b8)"
    using b5(3) b8(2) kernel_inv_cong [of "b_int b8" "b_int b5"] by (simp add: core_of_def)
  have "\<exists>st. timer_interrupt addr ret (b_int b8) = Inr st \<and> kernel_inv st" for addr ret
    using b5(4) b8(2) b4(2) inv by (intro timer_interrupt_inv) (auto simp: core_of_def)
  moreover have "b_ioapic b8 = b_ioapic b4" "I_calls (b_int b8) = I_calls (b_int b4)" using b8(6) by (simp_all add: apic_of_def)
  moreover have "I_LAPIC (b_int b8) = Some l" "interrupt_flag (cpu (b_int b8))"
      "threads (SCHEDULER (b_int b8)) = threads (SCHEDULER (b_int b5))"
    using b5(4,5) b8(2) by (simp_all add: core_of_def)
  ultimately show ?thesis using run inv b5(6) b7(6) b8(3-5) b4(2,3) apic by simp
qed

text \<open>A machine on which the kernel boots.\<close>

definition example_environment ::
  "(bool, u64 \<Rightarrow> u64 option, unit, nat, nat \<times> u16, unit, unit, unit, unit, io_access list) environment" where
  "example_environment = \<lparr>LOG_LEVEL = Some ''INFO'', framebuffer = Some (60, 100, 60, 24000), font_of = dot_font, paging = std_paging,
     gdt_ops = counting_gdt, ist_stack = 0x10000, fresh_ist = replicate 7 0,
     boot_info = \<lparr>physical_memory_offset_opt = Some 0x1000000000, memory_regions = big_map\<rparr>, usable_kind = True,
     show_kind = (\<lambda>_. ArgStr ''Usable''), show_boot_info = (\<lambda>_. ArgStr ''BootInfo''), new_table = (\<lambda>_ _. None),
     map_to_fn = direct_mapper, frame_allocation_failed = (), rsdp_addr = Some 0xE0000,
     acpi_ops = \<lparr>from_rsdp = (\<lambda>_. Inl (ArgU8 0)), dsdt = (\<lambda>_. Inl (ArgU8 0)), find_fadt = (\<lambda>_. None),
       pm1a_control_block_of = (\<lambda>_. Inl (ArgU8 0)), parse_table = (\<lambda>_. Inl (ArgU8 0)), AmlName_from_str = (\<lambda>_. Inl (ArgU8 0)),
       get_by_path = (\<lambda>_ _. Inl (ArgU8 0))\<rparr>,
     interrupt_model_of = (\<lambda>_. Inr (Apic 0xFEE00000 [0xFEC00000])), lapic_build_ok = (\<lambda>_. True), port_ops = recording (\<lambda>_ _. 0),
     trampoline_fn = 0xAAAA, stack_a = Some 0x100000, stack_b = Some 0x200000, demo_task_a = 0x111, demo_task_b = 0x222,
     png = Inr (1, 1, [[1, 2, 3, 0xFF]]), vram = (\<lambda>_ _ _. 0), heap_grants = (\<lambda>_. True)\<rparr>"

lemma example_environment_ok:
  "screen_ok example_environment 1 1" "memory_ok example_environment (\<lambda>pt. pt) 0x1000000000 0x1000"
  "controllers_ok example_environment 0x1000000000 0xFEE00000 [0xFEC00000]"
proof -
  show "screen_ok example_environment 1 1" by (simp add: screen_ok_def example_environment_def dot_font_mono [simplified])
  have "\<exists>logs. log_regions std_paging (\<lambda>_. ArgStr ''Usable'') big_map = Inr logs"
    by (simp add: big_map_def std_paging_def canonical_def sub_checked_def)
  then show "memory_ok example_environment (\<lambda>pt. pt) 0x1000000000 0x1000"
    by (simp add: memory_ok_def example_environment_def std_paging_docs big_map_ok direct_mapper_docs canonical_def)
  show "controllers_ok example_environment 0x1000000000 0xFEE00000 [0xFEC00000]"
    by (simp add: controllers_ok_def example_environment_def visible_def canonical_def)
qed

theorem kernel_main_boots_witness:
  "\<exists>b. kernel_main example_environment (power_on example_machine 0x1000 []) = Some (Inr b) \<and> kernel_inv (b_int b) \<and>
     interrupt_flag (cpu (b_int b)) \<and> b_screen b 0 = 0x010203"
proof -
  have "gdt_docs counting_gdt (\<lambda>g. g)" by (auto simp: gdt_docs_def counting_gdt_def)
  then have "gdt_docs (gdt_ops example_environment) (\<lambda>g. g)" by (simp add: example_environment_def)
  from kernel_main_boots [OF example_environment_ok this, of "0x100000" "0x200000" 1 1 "[[1, 2, 3, 0xFF]]" example_machine "[]"]
  show ?thesis
    by (auto simp: example_environment_def frame_bytes_def canonical_def pixel_color_def)
qed

end
