(* ===== verification/Acpi_Handler.thy ===== *)
theory Acpi_Handler
  imports Memory Port_Io
begin

text \<open>
  The services the ACPI and AML interpreters call back, \<^verbatim>\<open>kernel/src/acpi/handler.rs\<close>: physical
  memory, ports and PCI configuration space, for \<open>AcpiHandler\<close> and \<open>AmlHandler\<close>. \<open>PciAddress\<close>
  of the \<^verbatim>\<open>acpi\<close> crate is a parameter type with its constructor and accessors. Dereferencing a
  pointer that is not aligned for its type panics in the development profile.
\<close>

section \<open>Helpers\<close>

record 'a pci_address_crate =
  PciAddress_new :: "u16 \<Rightarrow> u8 \<Rightarrow> u8 \<Rightarrow> u8 \<Rightarrow> 'a"
  pa_bus :: "'a \<Rightarrow> u8"
  pa_device :: "'a \<Rightarrow> u8"
  pa_function :: "'a \<Rightarrow> u8"

definition addr_to_ptr :: "paging_crate \<Rightarrow> nat \<Rightarrow> u64 option \<Rightarrow> u64 \<Rightarrow> u64 outcome" where
  "addr_to_ptr c n cell addr =
     and_then (PhysAddr_new c addr) (\<lambda>phys.
     and_then (physical_to_virtual c cell phys) (\<lambda>virt.
     and_then (ensure (ExplicitPanic ''misaligned pointer dereference'') (unat virt mod n = 0)) (\<lambda>_.
       Inr virt)))"

definition read_addr :: "paging_crate \<Rightarrow> nat \<Rightarrow> u64 option \<Rightarrow> u64 \<Rightarrow> mem \<Rightarrow> 'a::len word outcome" where
  "read_addr c n cell addr m = and_then (addr_to_ptr c n cell addr) (\<lambda>virt. Inr (load n m virt))"

definition write_addr :: "paging_crate \<Rightarrow> nat \<Rightarrow> u64 option \<Rightarrow> u64 \<Rightarrow> 'a::len word \<Rightarrow> mem \<Rightarrow> mem outcome" where
  "write_addr c n cell addr value m = and_then (addr_to_ptr c n cell addr) (\<lambda>virt. Inr (store n m virt value))"

definition pci_config_address :: "u8 \<Rightarrow> u8 \<Rightarrow> u8 \<Rightarrow> u16 \<Rightarrow> u32" where
  "pci_config_address bus dev func offset =
     push_bit 31 1 OR push_bit 16 (ucast bus) OR push_bit 11 (ucast dev) OR
     push_bit 8 (ucast func) OR (ucast offset AND 0xFC)"

definition config_addr :: "'a pci_address_crate \<Rightarrow> 'a \<Rightarrow> u16 \<Rightarrow> u32" where
  "config_addr pc addr offset = pci_config_address (pa_bus pc addr) (pa_device pc addr) (pa_function pc addr) offset"

definition pci_config_read_u32 :: "'a pci_address_crate \<Rightarrow> 'd ports \<Rightarrow> 'a \<Rightarrow> u16 \<Rightarrow> 'd \<Rightarrow> u32 \<times> 'd" where
  "pci_config_read_u32 pc io addr offset d = (let d = out32 io 0xCF8 (config_addr pc addr offset) d in in32 io 0xCFC d)"

definition pci_config_write_u32 :: "'a pci_address_crate \<Rightarrow> 'd ports \<Rightarrow> 'a \<Rightarrow> u16 \<Rightarrow> u32 \<Rightarrow> 'd \<Rightarrow> 'd" where
  "pci_config_write_u32 pc io addr offset value d =
     (let d = out32 io 0xCF8 (config_addr pc addr offset) d in out32 io 0xCFC value d)"

section \<open>AcpiHandler\<close>

record PhysicalMapping =
  physical_start :: u64
  virtual_start :: u64
  region_length :: u64
  mapped_length :: u64

definition map_physical_region :: "paging_crate \<Rightarrow> u64 option \<Rightarrow> u64 \<Rightarrow> u64 \<Rightarrow> PhysicalMapping outcome" where
  "map_physical_region c cell physical_address sz =
     and_then (PhysAddr_new c physical_address) (\<lambda>phys_addr.
     and_then (physical_to_virtual c cell phys_addr) (\<lambda>virt_addr.
     and_then (unwrap (if virt_addr = 0 then None else Some virt_addr)) (\<lambda>ptr.
       Inr \<lparr>physical_start = physical_address, virtual_start = ptr,
            region_length = sz, mapped_length = sz\<rparr>)))"

definition unmap_physical_region :: "PhysicalMapping \<Rightarrow> unit" where
  "unmap_physical_region region = ()"

definition AcpiHandler_read_u8 ::
  "paging_crate \<Rightarrow> u64 option \<Rightarrow> u64 \<Rightarrow> mem \<Rightarrow> u8 outcome" where
  "AcpiHandler_read_u8 c cell address m = read_addr c 1 cell address m"

definition AcpiHandler_read_u16 ::
  "paging_crate \<Rightarrow> u64 option \<Rightarrow> u64 \<Rightarrow> mem \<Rightarrow> u16 outcome" where
  "AcpiHandler_read_u16 c cell address m = read_addr c 2 cell address m"

definition AcpiHandler_read_u32 ::
  "paging_crate \<Rightarrow> u64 option \<Rightarrow> u64 \<Rightarrow> mem \<Rightarrow> u32 outcome" where
  "AcpiHandler_read_u32 c cell address m = read_addr c 4 cell address m"

definition AcpiHandler_read_u64 ::
  "paging_crate \<Rightarrow> u64 option \<Rightarrow> u64 \<Rightarrow> mem \<Rightarrow> u64 outcome" where
  "AcpiHandler_read_u64 c cell address m = read_addr c 8 cell address m"

definition AcpiHandler_write_u8 ::
  "paging_crate \<Rightarrow> u64 option \<Rightarrow> u64 \<Rightarrow> u8 \<Rightarrow> mem \<Rightarrow> mem outcome" where
  "AcpiHandler_write_u8 c cell address value m = write_addr c 1 cell address value m"

definition AcpiHandler_write_u16 ::
  "paging_crate \<Rightarrow> u64 option \<Rightarrow> u64 \<Rightarrow> u16 \<Rightarrow> mem \<Rightarrow> mem outcome" where
  "AcpiHandler_write_u16 c cell address value m = write_addr c 2 cell address value m"

definition AcpiHandler_write_u32 ::
  "paging_crate \<Rightarrow> u64 option \<Rightarrow> u64 \<Rightarrow> u32 \<Rightarrow> mem \<Rightarrow> mem outcome" where
  "AcpiHandler_write_u32 c cell address value m = write_addr c 4 cell address value m"

definition AcpiHandler_write_u64 ::
  "paging_crate \<Rightarrow> u64 option \<Rightarrow> u64 \<Rightarrow> u64 \<Rightarrow> mem \<Rightarrow> mem outcome" where
  "AcpiHandler_write_u64 c cell address value m = write_addr c 8 cell address value m"

definition AcpiHandler_read_io_u8 ::
  "'d ports \<Rightarrow> u16 \<Rightarrow> 'd \<Rightarrow> u8 \<times> 'd" where
  "AcpiHandler_read_io_u8 io port d = in8 io port d"

definition AcpiHandler_read_io_u16 ::
  "'d ports \<Rightarrow> u16 \<Rightarrow> 'd \<Rightarrow> u16 \<times> 'd" where
  "AcpiHandler_read_io_u16 io port d = in16 io port d"

definition AcpiHandler_read_io_u32 ::
  "'d ports \<Rightarrow> u16 \<Rightarrow> 'd \<Rightarrow> u32 \<times> 'd" where
  "AcpiHandler_read_io_u32 io port d = in32 io port d"

definition AcpiHandler_write_io_u8 ::
  "'d ports \<Rightarrow> u16 \<Rightarrow> u8 \<Rightarrow> 'd \<Rightarrow> 'd" where
  "AcpiHandler_write_io_u8 io port value d = out8 io port value d"

definition AcpiHandler_write_io_u16 ::
  "'d ports \<Rightarrow> u16 \<Rightarrow> u16 \<Rightarrow> 'd \<Rightarrow> 'd" where
  "AcpiHandler_write_io_u16 io port value d = out16 io port value d"

definition AcpiHandler_write_io_u32 ::
  "'d ports \<Rightarrow> u16 \<Rightarrow> u32 \<Rightarrow> 'd \<Rightarrow> 'd" where
  "AcpiHandler_write_io_u32 io port value d = out32 io port value d"

definition AcpiHandler_read_pci_u8 ::
  "'a pci_address_crate \<Rightarrow> 'd ports \<Rightarrow> 'a \<Rightarrow> u16 \<Rightarrow> 'd \<Rightarrow> u8 \<times> 'd" where
  "AcpiHandler_read_pci_u8 pc io address offset d =
     (let (v, d) = pci_config_read_u32 pc io address offset d in (ucast v, d))"

definition AcpiHandler_read_pci_u16 ::
  "'a pci_address_crate \<Rightarrow> 'd ports \<Rightarrow> 'a \<Rightarrow> u16 \<Rightarrow> 'd \<Rightarrow> u16 \<times> 'd" where
  "AcpiHandler_read_pci_u16 pc io address offset d =
     (let (v, d) = pci_config_read_u32 pc io address offset d in (ucast v, d))"

definition AcpiHandler_read_pci_u32 ::
  "'a pci_address_crate \<Rightarrow> 'd ports \<Rightarrow> 'a \<Rightarrow> u16 \<Rightarrow> 'd \<Rightarrow> u32 \<times> 'd" where
  "AcpiHandler_read_pci_u32 pc io address offset d =
     pci_config_read_u32 pc io address offset d"

definition AcpiHandler_write_pci_u8 ::
  "'a pci_address_crate \<Rightarrow> 'd ports \<Rightarrow> 'a \<Rightarrow> u16 \<Rightarrow> u8 \<Rightarrow> 'd \<Rightarrow> 'd" where
  "AcpiHandler_write_pci_u8 pc io address offset value d =
     (let (old, d) = pci_config_read_u32 pc io address offset d;
          shift = unat ((offset AND 3) * 8);
          mask = NOT (push_bit shift 0xFF);
          new = (old AND mask) OR push_bit shift (ucast value)
      in pci_config_write_u32 pc io address offset new d)"

definition AcpiHandler_write_pci_u16 ::
  "'a pci_address_crate \<Rightarrow> 'd ports \<Rightarrow> 'a \<Rightarrow> u16 \<Rightarrow> u16 \<Rightarrow> 'd \<Rightarrow> 'd" where
  "AcpiHandler_write_pci_u16 pc io address offset value d =
     (let (old, d) = pci_config_read_u32 pc io address offset d;
          shift = unat ((offset AND 2) * 8);
          mask = NOT (push_bit shift 0xFFFF);
          new = (old AND mask) OR push_bit shift (ucast value)
      in pci_config_write_u32 pc io address offset new d)"

definition AcpiHandler_write_pci_u32 ::
  "'a pci_address_crate \<Rightarrow> 'd ports \<Rightarrow> 'a \<Rightarrow> u16 \<Rightarrow> u32 \<Rightarrow> 'd \<Rightarrow> 'd" where
  "AcpiHandler_write_pci_u32 pc io address offset value d =
     pci_config_write_u32 pc io address offset value d"

text \<open>Timing and mutexes; \<open>stall\<close> writes to port \<open>0x80\<close> once per microsecond.\<close>

definition nanos_since_boot :: u64 where
  "nanos_since_boot = 0"

definition stall :: "'d ports \<Rightarrow> u64 \<Rightarrow> 'd \<Rightarrow> 'd" where
  "stall io microseconds d = (out8 io 0x80 0 ^^ unat microseconds) d"

definition acpi_sleep :: "'d ports \<Rightarrow> u64 \<Rightarrow> 'd \<Rightarrow> 'd outcome" where
  "acpi_sleep io milliseconds d =
     and_then (mul_checked milliseconds 1000) (\<lambda>us. Inr (stall io us d))"

definition create_mutex :: u32 where
  "create_mutex = 0"

definition acquire :: "u32 \<Rightarrow> u16 \<Rightarrow> 'e + unit" where
  "acquire handle timeout = Inr ()"

definition release :: "u32 \<Rightarrow> unit" where
  "release handle = ()"

section \<open>AmlHandler\<close>

definition AmlHandler_read_u8 ::
  "paging_crate \<Rightarrow> u64 option \<Rightarrow> u64 \<Rightarrow> mem \<Rightarrow> u8 outcome" where
  "AmlHandler_read_u8 c cell address m = read_addr c 1 cell address m"

definition AmlHandler_read_u16 ::
  "paging_crate \<Rightarrow> u64 option \<Rightarrow> u64 \<Rightarrow> mem \<Rightarrow> u16 outcome" where
  "AmlHandler_read_u16 c cell address m = read_addr c 2 cell address m"

definition AmlHandler_read_u32 ::
  "paging_crate \<Rightarrow> u64 option \<Rightarrow> u64 \<Rightarrow> mem \<Rightarrow> u32 outcome" where
  "AmlHandler_read_u32 c cell address m = read_addr c 4 cell address m"

definition AmlHandler_read_u64 ::
  "paging_crate \<Rightarrow> u64 option \<Rightarrow> u64 \<Rightarrow> mem \<Rightarrow> u64 outcome" where
  "AmlHandler_read_u64 c cell address m = read_addr c 8 cell address m"

definition AmlHandler_write_u8 ::
  "paging_crate \<Rightarrow> u64 option \<Rightarrow> u64 \<Rightarrow> u8 \<Rightarrow> mem \<Rightarrow> mem outcome" where
  "AmlHandler_write_u8 c cell address value m = write_addr c 1 cell address value m"

definition AmlHandler_write_u16 ::
  "paging_crate \<Rightarrow> u64 option \<Rightarrow> u64 \<Rightarrow> u16 \<Rightarrow> mem \<Rightarrow> mem outcome" where
  "AmlHandler_write_u16 c cell address value m = write_addr c 2 cell address value m"

definition AmlHandler_write_u32 ::
  "paging_crate \<Rightarrow> u64 option \<Rightarrow> u64 \<Rightarrow> u32 \<Rightarrow> mem \<Rightarrow> mem outcome" where
  "AmlHandler_write_u32 c cell address value m = write_addr c 4 cell address value m"

definition AmlHandler_write_u64 ::
  "paging_crate \<Rightarrow> u64 option \<Rightarrow> u64 \<Rightarrow> u64 \<Rightarrow> mem \<Rightarrow> mem outcome" where
  "AmlHandler_write_u64 c cell address value m = write_addr c 8 cell address value m"

definition AmlHandler_read_io_u8 ::
  "'d ports \<Rightarrow> u16 \<Rightarrow> 'd \<Rightarrow> u8 \<times> 'd" where
  "AmlHandler_read_io_u8 io port d = in8 io port d"

definition AmlHandler_read_io_u16 ::
  "'d ports \<Rightarrow> u16 \<Rightarrow> 'd \<Rightarrow> u16 \<times> 'd" where
  "AmlHandler_read_io_u16 io port d = in16 io port d"

definition AmlHandler_read_io_u32 ::
  "'d ports \<Rightarrow> u16 \<Rightarrow> 'd \<Rightarrow> u32 \<times> 'd" where
  "AmlHandler_read_io_u32 io port d = in32 io port d"

definition AmlHandler_write_io_u8 ::
  "'d ports \<Rightarrow> u16 \<Rightarrow> u8 \<Rightarrow> 'd \<Rightarrow> 'd" where
  "AmlHandler_write_io_u8 io port value d = out8 io port value d"

definition AmlHandler_write_io_u16 ::
  "'d ports \<Rightarrow> u16 \<Rightarrow> u16 \<Rightarrow> 'd \<Rightarrow> 'd" where
  "AmlHandler_write_io_u16 io port value d = out16 io port value d"

definition AmlHandler_write_io_u32 ::
  "'d ports \<Rightarrow> u16 \<Rightarrow> u32 \<Rightarrow> 'd \<Rightarrow> 'd" where
  "AmlHandler_write_io_u32 io port value d = out32 io port value d"

definition AmlHandler_read_pci_u8 ::
  "'a pci_address_crate \<Rightarrow> 'd ports \<Rightarrow> u16 \<Rightarrow> u8 \<Rightarrow> u8 \<Rightarrow> u8 \<Rightarrow> u16 \<Rightarrow> 'd \<Rightarrow> u8 \<times> 'd" where
  "AmlHandler_read_pci_u8 pc io seg bus dev func offset d =
     (let addr = PciAddress_new pc seg bus dev func in
      (let (v, d) = pci_config_read_u32 pc io addr offset d in (ucast v, d)))"

definition AmlHandler_read_pci_u16 ::
  "'a pci_address_crate \<Rightarrow> 'd ports \<Rightarrow> u16 \<Rightarrow> u8 \<Rightarrow> u8 \<Rightarrow> u8 \<Rightarrow> u16 \<Rightarrow> 'd \<Rightarrow> u16 \<times> 'd" where
  "AmlHandler_read_pci_u16 pc io seg bus dev func offset d =
     (let addr = PciAddress_new pc seg bus dev func in
      (let (v, d) = pci_config_read_u32 pc io addr offset d in (ucast v, d)))"

definition AmlHandler_read_pci_u32 ::
  "'a pci_address_crate \<Rightarrow> 'd ports \<Rightarrow> u16 \<Rightarrow> u8 \<Rightarrow> u8 \<Rightarrow> u8 \<Rightarrow> u16 \<Rightarrow> 'd \<Rightarrow> u32 \<times> 'd" where
  "AmlHandler_read_pci_u32 pc io seg bus dev func offset d =
     (let addr = PciAddress_new pc seg bus dev func in
      pci_config_read_u32 pc io addr offset d)"

definition AmlHandler_write_pci_u8 ::
  "'a pci_address_crate \<Rightarrow> 'd ports \<Rightarrow> u16 \<Rightarrow> u8 \<Rightarrow> u8 \<Rightarrow> u8 \<Rightarrow> u16 \<Rightarrow> u8 \<Rightarrow> 'd \<Rightarrow> 'd" where
  "AmlHandler_write_pci_u8 pc io seg bus dev func offset value d =
     (let addr = PciAddress_new pc seg bus dev func in
      (let (old, d) = pci_config_read_u32 pc io addr offset d;
          shift = unat ((offset AND 3) * 8);
          mask = NOT (push_bit shift 0xFF);
          new = (old AND mask) OR push_bit shift (ucast value)
      in pci_config_write_u32 pc io addr offset new d))"

definition AmlHandler_write_pci_u16 ::
  "'a pci_address_crate \<Rightarrow> 'd ports \<Rightarrow> u16 \<Rightarrow> u8 \<Rightarrow> u8 \<Rightarrow> u8 \<Rightarrow> u16 \<Rightarrow> u16 \<Rightarrow> 'd \<Rightarrow> 'd" where
  "AmlHandler_write_pci_u16 pc io seg bus dev func offset value d =
     (let addr = PciAddress_new pc seg bus dev func in
      (let (old, d) = pci_config_read_u32 pc io addr offset d;
          shift = unat ((offset AND 2) * 8);
          mask = NOT (push_bit shift 0xFFFF);
          new = (old AND mask) OR push_bit shift (ucast value)
      in pci_config_write_u32 pc io addr offset new d))"

definition AmlHandler_write_pci_u32 ::
  "'a pci_address_crate \<Rightarrow> 'd ports \<Rightarrow> u16 \<Rightarrow> u8 \<Rightarrow> u8 \<Rightarrow> u8 \<Rightarrow> u16 \<Rightarrow> u32 \<Rightarrow> 'd \<Rightarrow> 'd" where
  "AmlHandler_write_pci_u32 pc io seg bus dev func offset value d =
     (let addr = PciAddress_new pc seg bus dev func in
      pci_config_write_u32 pc io addr offset value d)"

end
