(* ===== verification/Acpi_Access.thy ===== *)
theory Acpi_Access
  imports Acpi_Handler
begin

text \<open>
  Properties of the ACPI and AML handlers. The locale \<open>dword_config\<close> is what the byte and word
  accessors rely on, a configuration space of 32-bit registers; it is interpreted on
  \<open>pci_config_read_u32\<close> and \<open>pci_config_write_u32\<close>.
\<close>

section \<open>Lanes of a 32-bit register\<close>

definition byte_lane :: "nat \<Rightarrow> u32 \<Rightarrow> u8" where
  "byte_lane k w = ucast (drop_bit (8 * k) w)"

definition half_lane :: "nat \<Rightarrow> u32 \<Rightarrow> u16" where
  "half_lane k w = ucast (drop_bit (16 * k) w)"

definition insert_field :: "nat \<Rightarrow> nat \<Rightarrow> u32 \<Rightarrow> u32 \<Rightarrow> u32" where
  "insert_field width pos v w = (w AND NOT (push_bit pos (mask width))) OR push_bit pos v"

lemma bit_insert_field:
  "bit (insert_field width pos (take_bit width v) w) n \<longleftrightarrow>
     n < 32 \<and> (if pos \<le> n \<and> n < pos + width then bit v (n - pos) else bit w n)"
  unfolding insert_field_def by (auto simp: bit_simps)

lemma ucast_take_bit_8: "(ucast (v :: u8) :: u32) = take_bit 8 (ucast v)"
  by (rule bit_eqI) (auto simp: bit_simps dest: bit_imp_le_length)

lemma ucast_take_bit_16: "(ucast (v :: u16) :: u32) = take_bit 16 (ucast v)"
  by (rule bit_eqI) (auto simp: bit_simps dest: bit_imp_le_length)

lemma byte_lane_insert:
  assumes "j < 4" "k < 4"
  shows "byte_lane k (insert_field 8 (8 * j) (ucast v) w) = (if k = j then v else byte_lane k w)"
proof (rule bit_eqI)
  fix n assume "possible_bit TYPE(8 word) n"
  then have n: "n < 8" by simp
  have "8 * k + n < 32" using assms n by simp
  moreover have "(8 * j \<le> 8 * k + n \<and> 8 * k + n < 8 * j + 8) \<longleftrightarrow> k = j" using n by auto
  ultimately show "bit (byte_lane k (insert_field 8 (8 * j) (ucast v) w)) n =
      bit (if k = j then v else byte_lane k w) n"
    using n by (subst ucast_take_bit_8) (auto simp: byte_lane_def bit_simps bit_insert_field)
qed

lemma half_lane_insert:
  assumes "j < 2" "k < 2"
  shows "half_lane k (insert_field 16 (16 * j) (ucast v) w) = (if k = j then v else half_lane k w)"
proof (rule bit_eqI)
  fix n assume "possible_bit TYPE(16 word) n"
  then have n: "n < 16" by simp
  have "16 * k + n < 32" using assms n by simp
  moreover have "(16 * j \<le> 16 * k + n \<and> 16 * k + n < 16 * j + 16) \<longleftrightarrow> k = j" using n by auto
  ultimately show "bit (half_lane k (insert_field 16 (16 * j) (ucast v) w)) n =
      bit (if k = j then v else half_lane k w) n"
    using n by (subst ucast_take_bit_16) (auto simp: half_lane_def bit_simps bit_insert_field)
qed

text \<open>The lane an offset selects, and the shift the code computes from it.\<close>

definition byte_index :: "u16 \<Rightarrow> nat" where
  "byte_index offset = unat (offset AND 3)"

definition half_index :: "u16 \<Rightarrow> nat" where
  "half_index offset = unat (offset AND 2) div 2"

lemma byte_shift: "unat ((offset AND 3) * 8) = 8 * byte_index offset" "byte_index offset < 4"
proof -
  have "offset AND 3 = take_bit 2 offset" by (simp add: take_bit_eq_mask mask_eq_exp_minus_1)
  then have "unat (offset AND 3) < 4" by (simp add: unat_take_bit)
  then show "unat ((offset AND 3) * 8) = 8 * byte_index offset" "byte_index offset < 4"
    by (simp_all add: byte_index_def unat_word_ariths)
qed

lemma and_single_bit: "x AND push_bit n 1 = (if bit x n then push_bit n 1 else 0)" for x :: "'a::len word"
  by (rule bit_eqI) (auto simp: bit_simps)

lemma half_shift: "unat ((offset AND 2) * 8) = 16 * half_index offset" "half_index offset < 2"
proof -
  have "offset AND 2 = 0 \<or> offset AND 2 = 2" using and_single_bit [of offset 1] by (simp split: if_splits)
  then show "unat ((offset AND 2) * 8) = 16 * half_index offset" "half_index offset < 2"
    by (auto simp: half_index_def)
qed

section \<open>Accessors over a configuration space\<close>

locale dword_config =
  fixes rd :: "'a \<Rightarrow> u16 \<Rightarrow> 'd \<Rightarrow> u32 \<times> 'd"
    and wr :: "'a \<Rightarrow> u16 \<Rightarrow> u32 \<Rightarrow> 'd \<Rightarrow> 'd"
    and reg :: "'a \<Rightarrow> u16 \<Rightarrow> u32"
    and config :: "'d \<Rightarrow> u32 \<Rightarrow> u32"
    and stores :: "u32 \<Rightarrow> bool"
    and ok :: bool
  assumes rd_value: "ok \<Longrightarrow> fst (rd a off d) = config d (reg a off)"
    and rd_keeps: "ok \<Longrightarrow> config (snd (rd a off d)) = config d"
    and wr_config: "ok \<Longrightarrow> stores (reg a off) \<Longrightarrow> config (wr a off v d) = (config d)(reg a off := v)"
begin

definition rmw :: "'a \<Rightarrow> u16 \<Rightarrow> (u32 \<Rightarrow> u32) \<Rightarrow> 'd \<Rightarrow> 'd" where
  "rmw a off f d = (let (old, d) = rd a off d in wr a off (f old) d)"

lemma rmw_config:
  "ok \<Longrightarrow> stores (reg a off) \<Longrightarrow>
     config (rmw a off f d) = (config d)(reg a off := f (config d (reg a off)))"
  using rd_value [of a off d] rd_keeps [of a off d] wr_config
  by (simp add: rmw_def case_prod_beta)

lemma rmw_then_read:
  "ok \<Longrightarrow> stores (reg a off) \<Longrightarrow> fst (rd a off (rmw a off f d)) = f (config d (reg a off))"
  by (simp add: rd_value rmw_config)

end

interpretation pci_regs: dword_config "pci_config_read_u32 pc io" "pci_config_write_u32 pc io"
  "config_addr pc" config plain "pci_docs io latch config plain"
  for pc io latch config plain
  by unfold_locales
    (simp_all add: pci_config_read_u32_def pci_config_write_u32_def pci_docs_def Let_def)

lemma write_pci_u8_rmw:
  "AcpiHandler_write_pci_u8 pc io a off v d =
     pci_regs.rmw pc io a off (insert_field 8 (8 * byte_index off) (ucast v)) d"
  by (simp add: AcpiHandler_write_pci_u8_def pci_regs.rmw_def byte_shift insert_field_def Let_def
      mask_eq_exp_minus_1 case_prod_beta)

lemma write_pci_u16_rmw:
  "AcpiHandler_write_pci_u16 pc io a off v d =
     pci_regs.rmw pc io a off (insert_field 16 (16 * half_index off) (ucast v)) d"
  by (simp add: AcpiHandler_write_pci_u16_def pci_regs.rmw_def half_shift insert_field_def Let_def
      mask_eq_exp_minus_1 case_prod_beta)

lemma aml_pci_writes:
  "AmlHandler_write_pci_u8 pc io seg bus dev func = AcpiHandler_write_pci_u8 pc io (PciAddress_new pc seg bus dev func)"
  "AmlHandler_write_pci_u16 pc io seg bus dev func = AcpiHandler_write_pci_u16 pc io (PciAddress_new pc seg bus dev func)"
  by (simp_all add: fun_eq_iff AmlHandler_write_pci_u8_def AmlHandler_write_pci_u16_def
      AcpiHandler_write_pci_u8_def AcpiHandler_write_pci_u16_def Let_def)

lemma write_pci_config:
  assumes "pci_docs io latch config plain" "plain (config_addr pc a off)"
  shows "config (AcpiHandler_write_pci_u8 pc io a off vb d) = (config d)(config_addr pc a off :=
           insert_field 8 (8 * byte_index off) (ucast vb) (config d (config_addr pc a off)))"
    and "config (AcpiHandler_write_pci_u16 pc io a off vh d) = (config d)(config_addr pc a off :=
           insert_field 16 (16 * half_index off) (ucast vh) (config d (config_addr pc a off)))"
    and "config (AcpiHandler_write_pci_u32 pc io a off vw d) = (config d)(config_addr pc a off := vw)"
  using pci_regs.rmw_config [OF assms] pci_regs.wr_config [OF assms]
  by (simp_all add: write_pci_u8_rmw write_pci_u16_rmw AcpiHandler_write_pci_u32_def)

text \<open>
  C27. A byte or word written to PCI configuration space through the handlers lands in exactly its
  lane: the other bytes of the 32-bit register and every other register keep their values, and a
  dword written is the whole register. Both handlers behave the same.
\<close>

theorem write_pci_lanes:
  assumes "pci_docs io latch config plain" "plain (config_addr pc a off)" "k < 4" "h < 2"
    "a = PciAddress_new pc seg bus dev func"
  shows "byte_lane k (config (AcpiHandler_write_pci_u8 pc io a off vb d) (config_addr pc a off)) =
           (if k = byte_index off then vb else byte_lane k (config d (config_addr pc a off))) \<and>
         half_lane h (config (AcpiHandler_write_pci_u16 pc io a off vh d) (config_addr pc a off)) =
           (if h = half_index off then vh else half_lane h (config d (config_addr pc a off))) \<and>
         config (AcpiHandler_write_pci_u32 pc io a off vw d) = (config d)(config_addr pc a off := vw) \<and>
         (\<forall>r. r \<noteq> config_addr pc a off \<longrightarrow>
            config (AcpiHandler_write_pci_u8 pc io a off vb d) r = config d r \<and>
            config (AcpiHandler_write_pci_u16 pc io a off vh d) r = config d r) \<and>
         AmlHandler_write_pci_u8 pc io seg bus dev func off vb d = AcpiHandler_write_pci_u8 pc io a off vb d \<and>
         AmlHandler_write_pci_u16 pc io seg bus dev func off vh d = AcpiHandler_write_pci_u16 pc io a off vh d"
  using assms(3,4) byte_shift(2) [of off] half_shift(2) [of off] write_pci_config [OF assms(1,2)]
  by (simp add: byte_lane_insert half_lane_insert aml_pci_writes assms(5))

text \<open>The trivial \<open>PciAddress\<close>: its four components.\<close>

definition tuple_address :: "(u16 \<times> u8 \<times> u8 \<times> u8) pci_address_crate" where
  "tuple_address = \<lparr>PciAddress_new = (\<lambda>s b d f. (s, b, d, f)), pa_bus = (\<lambda>(s, b, d, f). b),
     pa_device = (\<lambda>(s, b, d, f). d), pa_function = (\<lambda>(s, b, d, f). f)\<rparr>"

theorem write_pci_lanes_witness:
  "byte_lane 1 (snd (AcpiHandler_write_pci_u8 tuple_address pci_device (0, 0, 2, 0) 0x3D 0xAB (0, \<lambda>_. 0x11223344))
                  (config_addr tuple_address (0, 0, 2, 0) 0x3D)) = 0xAB \<and>
   byte_lane 0 (snd (AcpiHandler_write_pci_u8 tuple_address pci_device (0, 0, 2, 0) 0x3D 0xAB (0, \<lambda>_. 0x11223344))
                  (config_addr tuple_address (0, 0, 2, 0) 0x3D)) = 0x44"
  using write_pci_lanes [OF pci_device_docs, where pc = tuple_address and a = "(0, 0, 2, 0)" and off = "0x3D" and k = 1
      and h = 0 and seg = 0 and bus = 0 and dev = 2 and func = 0 and vb = "0xAB" and d = "(0, \<lambda>_. 0x11223344)"]
    write_pci_lanes [OF pci_device_docs, where pc = tuple_address and a = "(0, 0, 2, 0)" and off = "0x3D" and k = 0
      and h = 0 and seg = 0 and bus = 0 and dev = 2 and func = 0 and vb = "0xAB" and d = "(0, \<lambda>_. 0x11223344)"]
  by (simp add: tuple_address_def byte_index_def byte_lane_def)

text \<open>
  C38. Reading back: a dword read returns the register, but a byte or word read always returns the
  lowest lane of the register, whatever the offset. So a byte read after a byte write returns
  the byte only at an offset that is a multiple of four; at the other offsets it returns the
  register's old lowest byte.
\<close>

theorem read_pci_after_write:
  assumes "pci_docs io latch config plain" "plain (config_addr pc a off)"
  shows "fst (AcpiHandler_read_pci_u32 pc io a off (AcpiHandler_write_pci_u32 pc io a off vw d)) = vw \<and>
         fst (AcpiHandler_read_pci_u8 pc io a off (AcpiHandler_write_pci_u8 pc io a off vb d)) =
           (if byte_index off = 0 then vb else byte_lane 0 (config d (config_addr pc a off))) \<and>
         fst (AcpiHandler_read_pci_u16 pc io a off (AcpiHandler_write_pci_u16 pc io a off vh d)) =
           (if half_index off = 0 then vh else half_lane 0 (config d (config_addr pc a off)))"
  using byte_shift(2) [of off] half_shift(2) [of off] pci_regs.rd_value [OF assms(1), of pc a off]
    byte_lane_insert [of "byte_index off" 0 vb] half_lane_insert [of "half_index off" 0 vh]
  by (simp add: AcpiHandler_read_pci_u32_def AcpiHandler_read_pci_u8_def AcpiHandler_read_pci_u16_def
      case_prod_beta write_pci_config [OF assms] byte_lane_def half_lane_def)

theorem read_pci_after_write_witness:
  "fst (AcpiHandler_read_pci_u8 tuple_address pci_device (0, 0, 2, 0) 0x3D
      (AcpiHandler_write_pci_u8 tuple_address pci_device (0, 0, 2, 0) 0x3D 0xAB (0, \<lambda>_. 0x11223344))) = 0x44"
  using read_pci_after_write [OF pci_device_docs, where pc = tuple_address and a = "(0, 0, 2, 0)"
      and off = "0x3D" and d = "(0, \<lambda>_. 0x11223344)" and vb = "0xAB"]
  by (simp add: byte_index_def byte_lane_def)

section \<open>Physical memory\<close>

lemma addr_to_ptr_run:
  assumes "paging_docs c" "unat addr < 2 ^ 52" "unat off + unat addr < 2 ^ 64" "canonical (off + addr)"
    "unat (off + addr) mod n = 0"
  shows "addr_to_ptr c n (Some off) addr = Inr (off + addr)"
  using assms by (simp add: addr_to_ptr_def physical_to_virtual_def add_checked_def paging_docsD)

lemmas handler_memory_defs =
  AcpiHandler_read_u8_def AcpiHandler_read_u16_def AcpiHandler_read_u32_def AcpiHandler_read_u64_def
  AcpiHandler_write_u8_def AcpiHandler_write_u16_def AcpiHandler_write_u32_def AcpiHandler_write_u64_def
  AmlHandler_read_u8_def AmlHandler_read_u16_def AmlHandler_read_u32_def AmlHandler_read_u64_def

text \<open>
  C35. Memory accesses of the handlers go through the physical memory window: at an aligned physical
  address inside it, a byte, word, dword or quadword written by one handler is read back by either
  handler, and a read of a disjoint address is not disturbed; before the window is set up reads and
  writes panic.
\<close>

theorem handler_memory_roundtrip:
  assumes docs: "paging_docs c"
    and a: "unat a < 2 ^ 52" "unat off + unat a < 2 ^ 64" "canonical (off + a)" "unat (off + a) mod 8 = 0"
    and b: "unat b < 2 ^ 52" "unat off + unat b < 2 ^ 64" "canonical (off + b)" "unat (off + b) mod 4 = 0"
      "apart (off + a) 8 (off + b) 4"
  shows "(\<exists>m'. AcpiHandler_write_u8 c (Some off) a v8 m = Inr m' \<and>
           AcpiHandler_read_u8 c (Some off) a m' = Inr v8 \<and> AmlHandler_read_u8 c (Some off) a m' = Inr v8) \<and>
         (\<exists>m'. AcpiHandler_write_u16 c (Some off) a v16 m = Inr m' \<and>
           AcpiHandler_read_u16 c (Some off) a m' = Inr v16 \<and> AmlHandler_read_u16 c (Some off) a m' = Inr v16) \<and>
         (\<exists>m'. AcpiHandler_write_u32 c (Some off) a v32 m = Inr m' \<and>
           AcpiHandler_read_u32 c (Some off) a m' = Inr v32 \<and> AmlHandler_read_u32 c (Some off) a m' = Inr v32) \<and>
         (\<exists>m'. AcpiHandler_write_u64 c (Some off) a v m = Inr m' \<and>
           AcpiHandler_read_u64 c (Some off) a m' = Inr v \<and> AmlHandler_read_u64 c (Some off) a m' = Inr v \<and>
           AmlHandler_read_u32 c (Some off) b m' = AmlHandler_read_u32 c (Some off) b m) \<and>
         AcpiHandler_read_u64 c None a m = Inl UnwrapNone \<and> AcpiHandler_write_u64 c None a v m = Inl UnwrapNone"
proof -
  have "unat (off + a) mod 4 = 0" "unat (off + a) mod 2 = 0" "unat (off + a) mod Suc 0 = 0"
    using a(4) by presburger+
  then have ptr: "addr_to_ptr c 1 (Some off) a = Inr (off + a)" "addr_to_ptr c 2 (Some off) a = Inr (off + a)"
      "addr_to_ptr c 4 (Some off) a = Inr (off + a)" "addr_to_ptr c 8 (Some off) a = Inr (off + a)"
      "addr_to_ptr c 4 (Some off) b = Inr (off + b)"
    using addr_to_ptr_run [OF docs a(1-3)] addr_to_ptr_run [OF docs b(1-4)] a(4) by simp_all
  have "addr_to_ptr c n None a = Inl UnwrapNone" for n
    using a(1) by (simp add: addr_to_ptr_def physical_to_virtual_def paging_docsD [OF docs])
  then show ?thesis
    using ptr b(5) by (simp add: handler_memory_defs read_addr_def write_addr_def load_store_same load_store_apart)
qed

theorem handler_memory_roundtrip_witness:
  "\<exists>m'. AcpiHandler_write_u64 std_paging (Some 0x10000000) 0x2000 0xCAFE (\<lambda>_. 0) = Inr m' \<and>
        AmlHandler_read_u64 std_paging (Some 0x10000000) 0x2000 m' = Inr 0xCAFE"
proof -
  have "canonical 0x10002000" "canonical 0x10003000" by (simp_all add: canonical_def)
  then show ?thesis
    using handler_memory_roundtrip [OF std_paging_docs, of "0x2000" "0x10000000" "0x3000" 1 "\<lambda>_. 0" 1 1 "0xCAFE"]
    by (auto simp: apart_def)
qed

section \<open>Delays\<close>

lemma stall_recording: "stall (recording answer) us d = d @ replicate (unat us) (Out8 0x80 0)"
proof -
  have "(out8 (recording answer) 0x80 0 ^^ n) d = d @ replicate n (Out8 0x80 0)" for n
    by (induction n) (simp_all add: replicate_append_same)
  then show ?thesis by (simp add: stall_def)
qed

text \<open>
  \<open>sleep\<close> makes exactly one thousand port writes per millisecond, and panics instead of
  sleeping shorter when the number of microseconds does not fit 64 bits.
\<close>

lemma sleep_delay:
  "acpi_sleep (recording answer) ms d =
     (if unat ms * 1000 < 2 ^ 64 then Inr (d @ replicate (unat ms * 1000) (Out8 0x80 0))
      else Inl ArithmeticOverflow)"
proof (cases "unat ms * 1000 < 2 ^ 64")
  case True
  then have "mul_checked ms 1000 = Inr (ms * 1000)" "unat (ms * 1000) = unat ms * 1000"
    by (simp_all add: mul_checked_def unat_word_ariths)
  then show ?thesis using True by (simp add: acpi_sleep_def stall_recording)
next
  case False
  then show ?thesis by (simp add: acpi_sleep_def mul_checked_def)
qed

end
