(* ===== verification/Locking.thy ===== *)
theory Locking
  imports Logging
begin

text \<open>
  Spin locks, interrupts and preemption on one processor. Code is a sequence of lock and interrupt-flag
  operations, taken from the source's functions with everything between them as \<open>Work\<close>, which is assumed to succeed. There
  is any number of threads. An interrupt may come between any two operations of the thread on the processor while the flag is
  set and no handler runs; its handler runs with the flag clear on top of the code it interrupted. The timer's
  handler ends in a context switch: the thread stays inside the handler, with the locks it holds, and another one continues
  where it was preempted, any one, so that what is shown does not depend on the scheduler's choice. A lock
  that is held is waited for by spinning, which is no step at all.

  The kernel's locks are the mutexes of \<^verbatim>\<open>spin\<close>; \<open>without_interrupts\<close> of the console and the serial
  port saves and clears the flag around a critical section. \<open>lg\<close> says which levels the log's filter lets through.
\<close>

datatype lock = SCHEDULER_lock | PROCESS_TABLE_lock | SERIAL_lock | CONSOLE_lock | LAPIC_lock | SHUTDOWN_lock | HEAP_lock

datatype op = Acquire lock | Release lock | Cli_save | If_restore | Switch | Work

section \<open>The source's functions as operations\<close>

text \<open>\<open>without_interrupts\<close> around a locked section.\<close>

definition guarded_print :: "lock \<Rightarrow> op list" where
  "guarded_print l = [Cli_save, Acquire l, Work, Release l, If_restore]"

definition serial_print_ops :: "op list" where
  "serial_print_ops = guarded_print SERIAL_lock"


text \<open>A log message: a line on the serial port when its level passes the filter.\<close>

definition log_ops :: "(Level \<Rightarrow> bool) \<Rightarrow> Level \<Rightarrow> op list" where
  "log_ops lg l = (if lg l then serial_print_ops else [])"

definition current_pid_ops :: "op list" where
  "current_pid_ops = [Acquire SCHEDULER_lock, Work, Release SCHEDULER_lock]"

definition current_tid_ops :: "op list" where
  "current_tid_ops = [Acquire SCHEDULER_lock, Work, Release SCHEDULER_lock]"

definition mark_thread_exited_ops :: "op list" where
  "mark_thread_exited_ops = [Acquire SCHEDULER_lock, Work, Release SCHEDULER_lock]"

text \<open>A request to the global allocator, whose heap is behind a lock of its own.\<close>

definition alloc_ops :: "op list" where
  "alloc_ops = [Acquire HEAP_lock, Work, Release HEAP_lock]"

definition spawn_thread_ops :: "op list" where
  "spawn_thread_ops = Work # alloc_ops @ [Work, Acquire SCHEDULER_lock, Work] @ alloc_ops @ [Release SCHEDULER_lock]"

definition create_process_ops :: "(Level \<Rightarrow> bool) \<Rightarrow> op list" where
  "create_process_ops lg =
     [Acquire PROCESS_TABLE_lock, Work] @ alloc_ops @ [Release PROCESS_TABLE_lock] @ spawn_thread_ops @
     [Acquire PROCESS_TABLE_lock, Work] @ alloc_ops @ [Release PROCESS_TABLE_lock] @ log_ops lg Info"

text \<open>\<open>exit_process\<close> of a process with \<open>n\<close> threads; the list of threads is cloned and freed.\<close>

definition exit_process_ops :: "(Level \<Rightarrow> bool) \<Rightarrow> nat \<Rightarrow> op list" where
  "exit_process_ops lg n =
     [Acquire PROCESS_TABLE_lock, Work] @ alloc_ops @ [Release PROCESS_TABLE_lock] @
     concat (replicate n mark_thread_exited_ops) @ alloc_ops @ log_ops lg Info"

text \<open>The demo tasks up to their first message.\<close>

definition demo_task_ops :: "(Level \<Rightarrow> bool) \<Rightarrow> op list" where
  "demo_task_ops lg = current_pid_ops @ current_tid_ops @ log_ops lg Info"


text \<open>The scheduler's lock is released before the switch.\<close>

definition tick_ops :: "op list" where
  "tick_ops = [Acquire SCHEDULER_lock, Work, Release SCHEDULER_lock, Switch]"

definition end_interrupts_ops :: "op list" where
  "end_interrupts_ops = [Acquire LAPIC_lock, Work, Release LAPIC_lock]"

definition timer_ops :: "op list" where
  "timer_ops = end_interrupts_ops @ tick_ops"

text \<open>\<open>acpi::shutdown\<close> logs and writes the port under its lock.\<close>

definition shutdown_ops :: "(Level \<Rightarrow> bool) \<Rightarrow> op list" where
  "shutdown_ops lg = [Acquire SHUTDOWN_lock] @ log_ops lg Debug @ [Work, Release SHUTDOWN_lock]"

definition keyboard_ops :: "(Level \<Rightarrow> bool) \<Rightarrow> bool \<Rightarrow> op list" where
  "keyboard_ops lg enter =
     Work # log_ops lg Warn @ (if enter then shutdown_ops lg else []) @ end_interrupts_ops"

definition lapic_error_ops :: "(Level \<Rightarrow> bool) \<Rightarrow> op list" where
  "lapic_error_ops lg = log_ops lg Warn @ end_interrupts_ops"

definition spurious_ops :: "(Level \<Rightarrow> bool) \<Rightarrow> op list" where
  "spurious_ops lg = log_ops lg Debug"

text \<open>What an interrupt may run.\<close>

definition device_handlers :: "(Level \<Rightarrow> bool) \<Rightarrow> op list set" where
  "device_handlers lg = {timer_ops, keyboard_ops lg True, keyboard_ops lg False, lapic_error_ops lg, spurious_ops lg}"

section \<open>Execution\<close>

text \<open>
  A thread: the rest of its code, the flag \<open>without_interrupts\<close> saved, the locks it holds, and, when it was
  interrupted, the handler's saved flag and the rest of the handler.
\<close>

record task =
  main :: "op list"
  saved :: bool
  own :: "lock set"
  irq :: "(bool \<times> op list) option"

record lock_state =
  tasks :: "task list"
  cur :: nat
  iflag :: bool

definition task_of :: "lock_state \<Rightarrow> task" where
  "task_of st = tasks st ! cur st"

definition set_task :: "task \<Rightarrow> lock_state \<Rightarrow> lock_state" where
  "set_task t st = st\<lparr>tasks := (tasks st)[cur st := t]\<rparr>"

definition held :: "lock_state \<Rightarrow> lock set" where
  "held st = \<Union> (own ` set (tasks st))"

text \<open>One operation on the thread's locks, the flag and the saved flag, when the locks \<open>h\<close> are held.\<close>

fun op_step :: "op \<Rightarrow> lock set \<Rightarrow> lock set \<times> bool \<times> bool \<Rightarrow> (lock set \<times> bool \<times> bool) option" where
  "op_step (Acquire l) h (ls, i, s) = (if l \<in> h then None else Some (insert l ls, i, s))"
| "op_step (Release l) h (ls, i, s) = Some (ls - {l}, i, s)"
| "op_step Cli_save h (ls, i, s) = Some (ls, False, i)"
| "op_step If_restore h (ls, i, s) = Some (ls, s, s)"
| "op_step Switch h (ls, i, s) = None"
| "op_step Work h (ls, i, s) = Some (ls, i, s)"

inductive run_step :: "lock_state \<Rightarrow> lock_state \<Rightarrow> bool" where
  main_step: "irq (task_of st) = None \<Longrightarrow> main (task_of st) = p # ps \<Longrightarrow>
     op_step p (held st) (own (task_of st), iflag st, saved (task_of st)) = Some (ls, i, s) \<Longrightarrow>
     run_step st (set_task ((task_of st)\<lparr>own := ls, saved := s, main := ps\<rparr>) (st\<lparr>iflag := i\<rparr>))"
| irq_step: "irq (task_of st) = Some (sv, p # ps) \<Longrightarrow>
     op_step p (held st) (own (task_of st), iflag st, sv) = Some (ls, i, s) \<Longrightarrow>
     run_step st (set_task ((task_of st)\<lparr>own := ls, irq := Some (s, ps)\<rparr>) (st\<lparr>iflag := i\<rparr>))"
| switch: "irq (task_of st) = Some (sv, Switch # ps) \<Longrightarrow> j < length (tasks st) \<Longrightarrow>
     run_step st ((set_task ((task_of st)\<lparr>irq := Some (sv, ps)\<rparr>) st)\<lparr>cur := j\<rparr>)"
| iret: "irq (task_of st) = Some (sv, []) \<Longrightarrow>
     run_step st (set_task ((task_of st)\<lparr>irq := None\<rparr>) (st\<lparr>iflag := True\<rparr>))"

inductive lock_step :: "op list set \<Rightarrow> lock_state \<Rightarrow> lock_state \<Rightarrow> bool" for handlers where
  runs: "run_step st st' \<Longrightarrow> lock_step handlers st st'"
| interrupt: "irq (task_of st) = None \<Longrightarrow> iflag st \<Longrightarrow> ps \<in> handlers \<Longrightarrow>
     lock_step handlers st (set_task ((task_of st)\<lparr>irq := Some (False, ps)\<rparr>) (st\<lparr>iflag := False\<rparr>))"

inductive_cases run_stepE: "run_step st st'"
inductive_cases lock_stepE: "lock_step handlers st st'"

text \<open>
  The first thread is on the processor with interrupts on. The others have not run: the frame their stack was
  given leads through the trampoline's \<open>sti\<close> into their code, as a return from an interrupt would.
\<close>

definition new_task :: "op list \<Rightarrow> task" where
  "new_task ps = \<lparr>main = ps, saved = False, own = {}, irq = Some (False, [])\<rparr>"

definition start :: "op list \<Rightarrow> op list list \<Rightarrow> lock_state" where
  "start ps others = \<lparr>tasks = (new_task ps)\<lparr>irq := None\<rparr> # map new_task others, cur = 0, iflag = True\<rparr>"

definition finished :: "lock_state \<Rightarrow> bool" where
  "finished st \<longleftrightarrow> main (task_of st) = [] \<and> irq (task_of st) = None"

text \<open>Deadlocked: not finished, no step of the running code, and no interrupt can come either.\<close>

definition deadlocked :: "op list set \<Rightarrow> lock_state \<Rightarrow> bool" where
  "deadlocked handlers st \<longleftrightarrow> \<not> finished st \<and> (\<nexists>st'. lock_step handlers st st')"

section \<open>A discipline that excludes deadlock\<close>























section \<open>The kernel's locks\<close>












section \<open>Every thread can be brought to its end\<close>




















section \<open>Running without interruption\<close>

fun run_ops :: "op list \<Rightarrow> lock set \<times> bool \<times> bool \<Rightarrow> (lock set \<times> bool \<times> bool) option" where
  "run_ops [] x = Some x"
| "run_ops (p # ps) x = (case op_step p (fst x) x of None \<Rightarrow> None | Some y \<Rightarrow> run_ops ps y)"

text \<open>The first thread's code while no other thread has run.\<close>

definition alone :: "op list list \<Rightarrow> lock set \<times> bool \<times> bool \<Rightarrow> op list \<Rightarrow> (bool \<times> op list) option \<Rightarrow> lock_state" where
  "alone others = (\<lambda>(ls, i, s) ps q. \<lparr>tasks = \<lparr>main = ps, saved = s, own = ls, irq = q\<rparr> # map new_task others, cur = 0, iflag = i\<rparr>)"

lemma alone_simps [simp]:
  "task_of (alone others (ls, i, s) ps q) = \<lparr>main = ps, saved = s, own = ls, irq = q\<rparr>"
  "held (alone others (ls, i, s) ps q) = ls" "iflag (alone others (ls, i, s) ps q) = i"
  "set_task \<lparr>main = ps', saved = s', own = ls', irq = q'\<rparr> (alone others (ls, i, s) ps q\<lparr>iflag := i'\<rparr>) = alone others (ls', i', s') ps' q'"
  by (auto simp: alone_def task_of_def held_def set_task_def new_task_def)

lemma run_ops_steps: "run_ops ps x = Some y \<Longrightarrow> (lock_step handlers)\<^sup>*\<^sup>* (alone others x (ps @ qs) None) (alone others y qs None)"
proof (induction ps arbitrary: x)
  case (Cons p ps)
  obtain h i s where x: "x = (h, i, s)" by (cases x)
  from Cons.prems obtain h' i' s' where p: "op_step p h (h, i, s) = Some (h', i', s')" "run_ops ps (h', i', s') = Some y"
    by (auto simp: x split: option.splits)
  have "lock_step handlers (alone others x (p # ps @ qs) None) (alone others (h', i', s') (ps @ qs) None)"
    using main_step [of "alone others x (p # ps @ qs) None" p "ps @ qs" h' i' s'] p(1) by (simp add: x runs)
  then show ?case using Cons.IH [OF p(2)] by simp
qed simp

text \<open>A timer interrupt while the interrupted code holds the scheduler's lock.\<close>

lemma scheduler_lock_held_deadlocks:
  fixes s :: bool
  assumes "SCHEDULER_lock \<in> h" "LAPIC_lock \<notin> h"
  shows "\<exists>st. (lock_step (device_handlers lg))\<^sup>*\<^sup>* (alone others (h, True, s) ps None) st \<and> deadlocked (device_handlers lg) st"
proof -
  let ?L = "lock_step (device_handlers lg)" and ?irq = "\<lambda>h qs. alone others (h, False, s) ps (Some (False, qs))"
  have rel: "?L (?irq h (q # qs)) (?irq h' qs)" if "op_step q h (h, False, False) = Some (h', False, False)" for h q qs h'
    using irq_step [of "?irq h (q # qs)" False q qs h' False False] that by (simp add: runs)
  have "?L (alone others (h, True, s) ps None) (?irq h timer_ops)"
    using interrupt [of "alone others (h, True, s) ps None" timer_ops "device_handlers lg"] by (simp add: device_handlers_def)
  moreover have "?L (?irq h timer_ops) (?irq (insert LAPIC_lock h) (Work # Release LAPIC_lock # tick_ops))"
    unfolding timer_ops_def end_interrupts_ops_def append.simps by (rule rel) (simp add: assms(2))
  moreover have "?L (?irq (insert LAPIC_lock h) (Work # Release LAPIC_lock # tick_ops))
      (?irq (insert LAPIC_lock h) (Release LAPIC_lock # tick_ops))"
    by (rule rel) simp
  moreover have "?L (?irq (insert LAPIC_lock h) (Release LAPIC_lock # tick_ops)) (?irq h tick_ops)"
    by (rule rel) (use assms(2) in auto)
  ultimately have "?L\<^sup>*\<^sup>* (alone others (h, True, s) ps None) (?irq h tick_ops)"
    by (meson converse_rtranclp_into_rtranclp rtranclp.rtrancl_refl)
  moreover have "deadlocked (device_handlers lg) (?irq h tick_ops)"
    using assms(1) by (auto simp: deadlocked_def finished_def tick_ops_def elim!: lock_stepE run_stepE)
  ultimately show ?thesis by blast
qed

lemma scheduler_lock_prefix_deadlocks:
  assumes "run_ops ps ({}, True, False) = Some (h, True, s)" "SCHEDULER_lock \<in> h" "LAPIC_lock \<notin> h"
  shows "\<exists>st. (lock_step (device_handlers lg))\<^sup>*\<^sup>* (start (ps @ qs) others) st \<and> deadlocked (device_handlers lg) st"
proof -
  have "(lock_step (device_handlers lg))\<^sup>*\<^sup>* (start (ps @ qs) others) (alone others (h, True, s) qs None)"
    using run_ops_steps [OF assms(1)] by (simp add: start_def alone_def new_task_def)
  then show ?thesis using scheduler_lock_held_deadlocks [OF assms(2,3)] by (meson rtranclp_trans)
qed

text \<open>
  C36. The scheduler's lock is not used that way: every function that takes it with interrupts enabled,
  \<open>current_pid\<close> and \<open>current_tid\<close>, which the demo tasks call, thread and process creation, and the exit
  of a process with threads, can be interrupted while it holds the lock, whatever other threads there are; the timer handler then waits
  for it with interrupts off, for ever.
\<close>

theorem scheduler_lock_deadlocks:
  "code \<in> {current_pid_ops, current_tid_ops, mark_thread_exited_ops, spawn_thread_ops, create_process_ops lg,
           exit_process_ops lg (Suc n), demo_task_ops lg} \<longrightarrow>
   (\<exists>st. (lock_step (device_handlers lg))\<^sup>*\<^sup>* (start code others) st \<and> deadlocked (device_handlers lg) st)"
proof -
  let ?lock = "\<lambda>k code. case run_ops (take k code) ({}, True, False) of
      Some (h, i, _) \<Rightarrow> i \<and> SCHEDULER_lock \<in> h \<and> LAPIC_lock \<notin> h | None \<Rightarrow> False"
  have "\<exists>st. (lock_step (device_handlers lg))\<^sup>*\<^sup>* (start code others) st \<and> deadlocked (device_handlers lg) st"
    if "?lock k code" for k code
    using that scheduler_lock_prefix_deadlocks [of "take k code" _ _ _ "drop k code"] by (auto split: option.splits)
  moreover have "?lock 1 current_pid_ops" "?lock 1 current_tid_ops" "?lock 1 mark_thread_exited_ops" "?lock 6 spawn_thread_ops"
      "?lock 12 (create_process_ops lg)" "?lock 7 (exit_process_ops lg (Suc n))" "?lock 1 (demo_task_ops lg)"
    by (simp_all add: current_pid_ops_def current_tid_ops_def mark_thread_exited_ops_def spawn_thread_ops_def alloc_ops_def
        create_process_ops_def exit_process_ops_def demo_task_ops_def insert_Diff_if)
  ultimately show ?thesis by blast
qed

theorem scheduler_lock_deadlocks_witness:
  "\<exists>st. (lock_step (device_handlers (\<lambda>l. True)))\<^sup>*\<^sup>* (start (demo_task_ops (\<lambda>l. True)) [demo_task_ops (\<lambda>l. True)]) st \<and>
        deadlocked (device_handlers (\<lambda>l. True)) st"
  using scheduler_lock_deadlocks [of "demo_task_ops (\<lambda>l. True)" "\<lambda>l. True"] by blast

end
