(* ===== verification/Serial.thy ===== *)
theory Serial
  imports Logging
begin

text \<open>
  The serial port of \<^verbatim>\<open>kernel/src/serial.rs\<close>, with its lazily built static, its lock and the masking of
  interrupts around it, and the panic handler of \<^verbatim>\<open>kernel/src/main.rs\<close> and the allocation error handler of
  \<^verbatim>\<open>kernel/src/memory/heap_allocator.rs\<close>, which report through it. The
  \<^verbatim>\<open>uart_16550\<close> driver is a parameter. The text of a message is a list of pieces, as the formatting
  machinery hands them to \<open>write_str\<close>; \<open>render\<close> gives the pieces of a format string and its arguments.
\<close>

record 'u uart_crate =
  SerialPort_new :: "u16 \<Rightarrow> 'u"
  SerialPort_init :: "'u \<Rightarrow> 'u"
  SerialPort_write_str :: "string \<Rightarrow> 'u \<Rightarrow> bool \<times> 'u"

record 'u serial_state =
  SERIAL :: "'u option"
  serial_locked :: bool
  int_flag :: bool

text \<open>
  How a call ends: it returns, it panics in the middle (nothing is unwound: the guard of the lock is not
  dropped and interrupts stay as they are), it waits for a lock whose holder cannot run, or it halts.
\<close>

datatype 's ending = Returns 's | Panics 's | Spins 's | Halts 's

definition SERIAL_build :: "'u uart_crate \<Rightarrow> 'u" where
  "SERIAL_build c = (let serial_port = SerialPort_new c 0x3F8 in SerialPort_init c serial_port)"

definition SERIAL_force :: "'u uart_crate \<Rightarrow> 'u serial_state \<Rightarrow> 'u \<times> 'u serial_state" where
  "SERIAL_force c s =
     (case SERIAL s of
        Some p \<Rightarrow> (p, s)
      | None \<Rightarrow> (let p = SERIAL_build c in (p, s\<lparr>SERIAL := Some p\<rparr>)))"

text \<open>\<open>write_fmt\<close> hands over piece after piece and stops at the first error (\<open>False\<close>).\<close>

fun write_fmt :: "'u uart_crate \<Rightarrow> string list \<Rightarrow> 'u \<Rightarrow> bool \<times> 'u" where
  "write_fmt c [] p = (True, p)"
| "write_fmt c (t # ts) p =
     (case SerialPort_write_str c t p of
        (True, p) \<Rightarrow> write_fmt c ts p
      | (False, p) \<Rightarrow> (False, p))"

definition serial_print :: "'u uart_crate \<Rightarrow> string list \<Rightarrow> 'u serial_state \<Rightarrow> 'u serial_state ending" where
  "serial_print c args s =
     (let saved = int_flag s;
          (p, s) = SERIAL_force c (s\<lparr>int_flag := False\<rparr>) in
      if serial_locked s then Spins s
      else (case write_fmt c args p of
              (False, p) \<Rightarrow> Panics (s\<lparr>SERIAL := Some p, serial_locked := True\<rparr>)
            | (True, p) \<Rightarrow> Returns (s\<lparr>SERIAL := Some p, int_flag := saved\<rparr>)))"

section \<open>The handlers of panics and of failed allocations\<close>

text \<open>The pieces that a record the logger accepts becomes.\<close>

definition record_pieces :: "(string \<times> fmt_arg list \<Rightarrow> string list) \<Rightarrow> log_record \<Rightarrow> string list" where
  "record_pieces render r = concat (map render (SimpleLogger_log r))"

text \<open>An \<open>error!\<close> that passes the filter, and the loop of \<open>hlt\<close> behind it.\<close>

definition report_and_halt ::
  "(string \<times> fmt_arg list \<Rightarrow> string list) \<Rightarrow> 'u uart_crate \<Rightarrow> log_record \<Rightarrow> 'u serial_state \<Rightarrow> 'u serial_state ending" where
  "report_and_halt render c r s =
     (case serial_print c (record_pieces render r) s of
        Returns s \<Rightarrow> Halts s
      | e \<Rightarrow> e)"

definition panic_record :: "fmt_arg \<Rightarrow> log_record" where
  "panic_record pinfo = error ''PANIC: {:#?}'' [pinfo]"

definition alloc_error_record :: "fmt_arg \<Rightarrow> log_record" where
  "alloc_error_record layout = error ''allocation error: {:?}'' [layout]"

text \<open>
  A panic of the printing code itself enters the panic handler again; \<open>failed\<close> is the information of that
  second panic. There is no third: the handler then waits for the lock that the failed call holds.
\<close>

definition panic_handler ::
  "(LevelFilter \<Rightarrow> Level \<Rightarrow> bool) \<Rightarrow> (string \<times> fmt_arg list \<Rightarrow> string list) \<Rightarrow> 'u uart_crate \<Rightarrow>
     logger_state \<Rightarrow> fmt_arg \<Rightarrow> fmt_arg \<Rightarrow> 'u serial_state \<Rightarrow> 'u serial_state ending" where
  "panic_handler passes render c lg pinfo failed s =
     (if passes (max_level lg) Error
      then (case report_and_halt render c (panic_record pinfo) s of
              Panics s \<Rightarrow> report_and_halt render c (panic_record failed) s
            | e \<Rightarrow> e)
      else Halts s)"

definition alloc_error_handler ::
  "(LevelFilter \<Rightarrow> Level \<Rightarrow> bool) \<Rightarrow> (string \<times> fmt_arg list \<Rightarrow> string list) \<Rightarrow> 'u uart_crate \<Rightarrow>
     logger_state \<Rightarrow> fmt_arg \<Rightarrow> fmt_arg \<Rightarrow> 'u serial_state \<Rightarrow> 'u serial_state ending" where
  "alloc_error_handler passes render c lg layout failed s =
     (if passes (max_level lg) Error
      then (case report_and_halt render c (alloc_error_record layout) s of
              Panics s \<Rightarrow> panic_handler passes render c lg failed failed s
            | e \<Rightarrow> e)
      else Halts s)"

section \<open>What reaches the port\<close>

definition uart_docs :: "'u uart_crate \<Rightarrow> ('u \<Rightarrow> string) \<Rightarrow> bool" where
  "uart_docs c sent \<longleftrightarrow>
     (\<forall>t p. fst (SerialPort_write_str c t p) \<and> sent (snd (SerialPort_write_str c t p)) = sent p @ t) \<and>
     (\<forall>b. sent (SerialPort_init c (SerialPort_new c b)) = [])"

lemma write_fmt_docs:
  assumes "uart_docs c sent"
  shows "fst (write_fmt c ts p) \<and> sent (snd (write_fmt c ts p)) = sent p @ concat ts"
proof (induction ts arbitrary: p)
  case (Cons t ts)
  obtain p' where w: "SerialPort_write_str c t p = (True, p')" and "sent p' = sent p @ t"
    using assms by (metis (full_types) uart_docs_def prod.collapse)
  then show ?case using Cons [of p'] by simp
qed simp

definition sent_text :: "('u \<Rightarrow> string) \<Rightarrow> 'u serial_state \<Rightarrow> string" where
  "sent_text sent s = (case SERIAL s of None \<Rightarrow> [] | Some p \<Rightarrow> sent p)"

lemma serial_print_docs:
  assumes "uart_docs c sent" "\<not> serial_locked s"
  shows "\<exists>s'. serial_print c ts s = Returns s' \<and> \<not> serial_locked s' \<and> int_flag s' = int_flag s \<and>
           SERIAL s' \<noteq> None \<and> sent_text sent s' = sent_text sent s @ concat ts"
proof -
  obtain p s1 where f: "SERIAL_force c (s\<lparr>int_flag := False\<rparr>) = (p, s1)" by fastforce
  have s1: "\<not> serial_locked s1" "sent p = sent_text sent s"
    using f assms by (auto simp: SERIAL_force_def SERIAL_build_def sent_text_def uart_docs_def Let_def split: option.splits)
  obtain p' where w: "write_fmt c ts p = (True, p')" "sent p' = sent p @ concat ts"
    using write_fmt_docs [OF assms(1), of ts p] by (metis (full_types) prod.collapse)
  show ?thesis using s1 w by (simp add: serial_print_def f sent_text_def)
qed

lemma serial_print_locked: "serial_locked s \<Longrightarrow> \<exists>s'. serial_print c ts s = Spins s' \<and> \<not> int_flag s'"
  by (auto simp: serial_print_def SERIAL_force_def Let_def split: option.splits)

lemma serial_print_not_halted: "serial_print c ts s \<noteq> Halts s'"
  by (simp add: serial_print_def Let_def split: prod.splits bool.splits)

lemma serial_print_panicked:
  "serial_print c ts s = Panics s' \<Longrightarrow> serial_locked s' \<and> \<not> int_flag s'"
  by (auto simp: serial_print_def SERIAL_force_def Let_def split: option.splits prod.splits if_splits bool.splits)

lemma report_docs:
  assumes "uart_docs c sent" "\<not> serial_locked s"
  shows "\<exists>s'. report_and_halt render c r s = Halts s' \<and> int_flag s' = int_flag s \<and> \<not> serial_locked s' \<and>
           sent_text sent s' = sent_text sent s @ concat (record_pieces render r)"
  using serial_print_docs [OF assms, of "record_pieces render r"] by (auto simp: report_and_halt_def)

lemma report_locked: "serial_locked s \<Longrightarrow> \<exists>s'. report_and_halt render c r s = Spins s' \<and> \<not> int_flag s'"
  using serial_print_locked [of s c "record_pieces render r"] by (auto simp: report_and_halt_def)

lemma report_panicked: "report_and_halt render c r s = Panics s' \<Longrightarrow> serial_locked s'"
  using serial_print_panicked [of c "record_pieces render r"] by (auto simp: report_and_halt_def split: ending.splits)

lemma report_not_returned: "report_and_halt render c r s \<noteq> Returns s'"
  by (simp add: report_and_halt_def split: ending.splits)

text \<open>Both handlers report, and a panic on the way leaves them waiting for the lock of the port.\<close>

lemma handler_cases:
  assumes "passes (max_level lg) Error"
    "h = panic_handler passes render c lg pinfo failed \<and> r = panic_record pinfo \<or>
     h = alloc_error_handler passes render c lg layout failed \<and> r = alloc_error_record layout"
  shows "(\<exists>s1 s'. report_and_halt render c r s = Panics s1 \<and> h s = Spins s' \<and> \<not> int_flag s') \<or>
     (\<forall>s1. report_and_halt render c r s \<noteq> Panics s1) \<and> h s = report_and_halt render c r s"
proof (cases "report_and_halt render c r s")
  case (Panics s1)
  obtain s' where "report_and_halt render c (panic_record failed) s1 = Spins s'" "\<not> int_flag s'"
    using report_locked [OF report_panicked [OF Panics], of render c "panic_record failed"] by blast
  then show ?thesis using assms Panics by (auto simp: panic_handler_def alloc_error_handler_def)
qed (use assms in \<open>auto simp: panic_handler_def alloc_error_handler_def\<close>)

text \<open>
  C19. The handlers of panics and of failed allocations, for every state of the logger and the serial port.
  With the filter off they halt without a word and change nothing. With errors enabled they never return and
  never panic: they halt or wait for ever for the lock of the port, with interrupts off. With the lock free a
  working port receives exactly the rendered message after what was sent before, and the handler halts
  with interrupts as they were: when they are enabled the timer goes on and other threads run. With the lock
  taken, as in a panic from inside \<open>_print\<close>, the message is never printed.
\<close>

theorem fatal_error_reported_or_stuck:
  assumes "log_docs passes"
    "h = panic_handler passes render c lg pinfo failed \<and> r = panic_record pinfo \<or>
     h = alloc_error_handler passes render c lg layout failed \<and> r = alloc_error_record layout"
  shows "(max_level lg = Off \<longrightarrow> h s = Halts s) \<and>
    (max_level lg \<noteq> Off \<longrightarrow>
       ((\<exists>s'. h s = Halts s') \<or> (\<exists>s'. h s = Spins s' \<and> \<not> int_flag s')) \<and>
       (uart_docs c sent \<and> \<not> serial_locked s \<longrightarrow>
          (\<exists>s'. h s = Halts s' \<and> int_flag s' = int_flag s \<and> \<not> serial_locked s' \<and>
             sent_text sent s' = sent_text sent s @ concat (record_pieces render r))) \<and>
       (serial_print c ts s0 = Panics s \<or> serial_locked s \<longrightarrow> (\<exists>s'. h s = Spins s' \<and> \<not> int_flag s')))"
proof (cases "max_level lg")
  case Off
  then show ?thesis using assms by (auto simp: panic_handler_def alloc_error_handler_def log_docs_def)
next
  case (UpTo l)
  have on: "passes (max_level lg) Error" using assms(1) UpTo by (cases l) (auto simp: log_docs_def)
  note cases = handler_cases [OF on assms(2), of s]
  have "(\<exists>s'. report_and_halt render c r s = Halts s') \<or> (\<exists>s'. report_and_halt render c r s = Spins s' \<and> \<not> int_flag s') \<or>
      (\<exists>s'. report_and_halt render c r s = Panics s')"
  proof (cases "serial_locked s")
    case False
    then have "serial_print c (record_pieces render r) s \<noteq> Spins s'" for s'
      by (auto simp: serial_print_def SERIAL_force_def Let_def split: option.splits prod.splits bool.splits)
    then show ?thesis
      using report_not_returned [of render c r s] by (cases "serial_print c (record_pieces render r) s") (auto simp: report_and_halt_def serial_print_not_halted)
  qed (use report_locked in blast)
  with cases have "(\<exists>s'. h s = Halts s') \<or> (\<exists>s'. h s = Spins s' \<and> \<not> int_flag s')" by auto
  moreover have "serial_print c ts s0 = Panics s \<Longrightarrow> serial_locked s" using serial_print_panicked by blast
  moreover have "max_level lg \<noteq> Off" using UpTo by simp
  ultimately show ?thesis
    using cases report_docs [of c sent s render r] report_locked [of s render c r] by auto
qed

definition buffer_uart :: "string uart_crate" where
  "buffer_uart = \<lparr>SerialPort_new = (\<lambda>_. []), SerialPort_init = (\<lambda>p. p), SerialPort_write_str = (\<lambda>t p. (True, p @ t))\<rparr>"

theorem fatal_error_reported_or_stuck_witness:
  "let passes = (\<lambda>f l. case f of Off \<Rightarrow> False | UpTo m \<Rightarrow> level_rank l \<le> level_rank m);
       panic = panic_handler passes (\<lambda>(f, as). [f]) buffer_uart \<lparr>logger_set = True, max_level = UpTo Warn\<rparr> (ArgStr ''x'') (ArgStr ''y'')
   in (\<exists>s'. panic \<lparr>SERIAL = None, serial_locked = False, int_flag = True\<rparr> = Halts s' \<and> int_flag s' \<and> sent_text id s' \<noteq> []) \<and>
      (\<exists>s'. panic \<lparr>SERIAL = Some ''a'', serial_locked = True, int_flag = False\<rparr> = Spins s')"
proof -
  let ?passes = "\<lambda>f l. case f of Off \<Rightarrow> False | UpTo m \<Rightarrow> level_rank l \<le> level_rank m"
  have p: "log_docs ?passes" by (simp add: log_docs_def)
  have u: "uart_docs buffer_uart id" by (simp add: uart_docs_def buffer_uart_def)
  note P = fatal_error_reported_or_stuck [OF p, where render = "\<lambda>(f, as). [f]" and c = buffer_uart and pinfo = "ArgStr ''x''"
      and lg = "\<lparr>logger_set = True, max_level = UpTo Warn\<rparr>" and failed = "ArgStr ''y''" and sent = id, OF disjI1, OF conjI, OF refl refl]
  have "concat (record_pieces (\<lambda>(f, as). [f]) (panic_record a)) \<noteq> []" for a
    by (simp add: record_pieces_def panic_record_def SimpleLogger_log_def SimpleLogger_enabled_def Let_def)
  then show ?thesis
    using P [of "\<lparr>SERIAL = None, serial_locked = False, int_flag = True\<rparr>"]
      P [of "\<lparr>SERIAL = Some ''a'', serial_locked = True, int_flag = False\<rparr>"] u
    unfolding Let_def by fastforce
qed

end
