(* ===== verification/Launcher.thy ===== *)
theory Launcher
  imports Prelude
begin

text \<open>
  The two host programs: the build script \<^verbatim>\<open>build.rs\<close>, which has the disk images made and tells Cargo where
  they are, and the launcher \<^verbatim>\<open>src/main.rs\<close>, which starts the emulator on one of them. The boot loader crate
  that writes the images, Cargo's treatment of the printed lines and the process functions of the host are
  parameters. Paths are strings; files are a map from paths to contents.
\<close>

type_synonym files = "string \<rightharpoonup> string"

record image_crate =
  UefiBoot_create :: "string \<Rightarrow> string \<Rightarrow> files \<Rightarrow> bool \<times> files"
  BiosBoot_create :: "string \<Rightarrow> string \<Rightarrow> files \<Rightarrow> bool \<times> files"

text \<open>\<open>Path::join\<close>: an absolute second path replaces the first, otherwise one separator stands between them.\<close>

definition path_join :: "string \<Rightarrow> string \<Rightarrow> string" where
  "path_join d f =
     (if f \<noteq> [] \<and> hd f = CHR ''/'' then f
      else if d = [] \<or> last d = CHR ''/'' then d @ f
      else d @ ''/'' @ f)"

definition unwrap_ok :: "bool \<times> 'a \<Rightarrow> 'a outcome" where
  "unwrap_ok r = (if fst r then Inr (snd r) else Inl (ExpectFailed ''called Result::unwrap() on an Err value''))"

section \<open>build.rs\<close>

definition build_main :: "image_crate \<Rightarrow> (string \<Rightarrow> string option) \<Rightarrow> files \<Rightarrow> (string list \<times> files) outcome" where
  "build_main c var_os fs =
     and_then (unwrap (var_os ''OUT_DIR'')) (\<lambda>out_dir.
     and_then (unwrap (var_os ''CARGO_BIN_FILE_TEST_KERNEL_kernel'')) (\<lambda>kernel.
       let uefi_path = path_join out_dir ''uefi.img'' in
       and_then (unwrap_ok (UefiBoot_create c kernel uefi_path fs)) (\<lambda>fs.
       let bios_path = path_join out_dir ''bios.img'' in
       and_then (unwrap_ok (BiosBoot_create c kernel bios_path fs)) (\<lambda>fs.
         Inr ([''cargo:rustc-env=UEFI_PATH='' @ uefi_path, ''cargo:rustc-env=BIOS_PATH='' @ bios_path], fs)))))"

section \<open>src/main.rs\<close>

text \<open>The command of the launcher; \<open>ovmf\<close> is the path of the firmware.\<close>

definition launch_command :: "string \<Rightarrow> string \<Rightarrow> string \<Rightarrow> bool \<Rightarrow> string \<times> string list" where
  "launch_command ovmf uefi_path bios_path uefi =
     (let cmd = ''qemu-system-x86_64'' in
      if uefi then (cmd, [''-bios'', ovmf] @ [''-drive'', ''format=raw,file='' @ uefi_path])
      else (cmd, [''-drive'', ''format=raw,file='' @ bios_path]))"

definition launcher_main ::
  "string \<Rightarrow> (string \<times> string list \<Rightarrow> bool \<times> 'c) \<Rightarrow> ('c \<Rightarrow> bool \<times> 's) \<Rightarrow> string \<Rightarrow> string \<Rightarrow> unit outcome" where
  "launcher_main ovmf spawn wait UEFI_PATH BIOS_PATH =
     (let uefi = True;
          cmd = launch_command ovmf UEFI_PATH BIOS_PATH uefi in
      and_then (unwrap_ok (spawn cmd)) (\<lambda>child.
      and_then (unwrap_ok (wait child)) (\<lambda>_. Inr ())))"

section \<open>The launcher starts what the build made\<close>

text \<open>
  \<open>image_docs\<close>: creating an image writes the given path and no other file. \<open>cargo_docs\<close>: a line
  \<open>cargo:rustc-env=K=V\<close> sets the variable that \<open>env!\<close> reads.
\<close>

definition image_docs :: "image_crate \<Rightarrow> (string \<Rightarrow> string) \<Rightarrow> (string \<Rightarrow> string) \<Rightarrow> bool" where
  "image_docs c uefi_image bios_image \<longleftrightarrow>
     (\<forall>k p fs. let (ok, fs') = UefiBoot_create c k p fs in ok \<longrightarrow> fs' = fs(p \<mapsto> uefi_image k)) \<and>
     (\<forall>k p fs. let (ok, fs') = BiosBoot_create c k p fs in ok \<longrightarrow> fs' = fs(p \<mapsto> bios_image k))"

definition cargo_docs :: "(string list \<Rightarrow> string \<rightharpoonup> string) \<Rightarrow> bool" where
  "cargo_docs env_of \<longleftrightarrow>
     (\<forall>ls k v. ''cargo:rustc-env='' @ k @ ''='' @ v \<in> set ls \<and> CHR ''='' \<notin> set k \<and>
        (\<forall>v'. ''cargo:rustc-env='' @ k @ ''='' @ v' \<in> set ls \<longrightarrow> v' = v) \<longrightarrow> env_of ls k = Some v)"

lemma path_join_images: "path_join d ''uefi.img'' \<noteq> path_join d ''bios.img''"
  by (auto simp: path_join_def)

lemma build_main_ok:
  assumes "image_docs c uefi_image bios_image" "build_main c var_os fs = Inr (ls, fs')"
  obtains out_dir kernel where "var_os ''OUT_DIR'' = Some out_dir" "var_os ''CARGO_BIN_FILE_TEST_KERNEL_kernel'' = Some kernel"
    "ls = [''cargo:rustc-env=UEFI_PATH='' @ path_join out_dir ''uefi.img'', ''cargo:rustc-env=BIOS_PATH='' @ path_join out_dir ''bios.img'']"
    "fs' = fs(path_join out_dir ''uefi.img'' \<mapsto> uefi_image kernel, path_join out_dir ''bios.img'' \<mapsto> bios_image kernel)"
  using assms that
  by (force simp: build_main_def unwrap_def unwrap_ok_def image_docs_def Let_def case_prod_beta split: option.splits sum.splits if_splits)

text \<open>
  C40. When the build script succeeds, both images of the kernel lie in the output directory, every other file is as
  before, and the launcher compiled with the variables it printed runs the emulator exactly once, with the
  UEFI firmware and the UEFI image; it fails only when the emulator cannot be started or waited for.
\<close>

theorem launcher_boots_built_image:
  assumes docs: "image_docs c uefi_image bios_image" "cargo_docs env_of"
    and build: "build_main c var_os fs = Inr (ls, fs')"
  shows "\<exists>kernel U B. var_os ''CARGO_BIN_FILE_TEST_KERNEL_kernel'' = Some kernel \<and>
      env_of ls ''UEFI_PATH'' = Some U \<and> env_of ls ''BIOS_PATH'' = Some B \<and> U \<noteq> B \<and>
      fs' = fs(U \<mapsto> uefi_image kernel, B \<mapsto> bios_image kernel) \<and>
      launcher_main ovmf spawn wait U B =
        (case spawn (''qemu-system-x86_64'', [''-bios'', ovmf, ''-drive'', ''format=raw,file='' @ U]) of
           (True, child) \<Rightarrow> if fst (wait child) then Inr () else Inl (ExpectFailed ''called Result::unwrap() on an Err value'')
         | (False, _) \<Rightarrow> Inl (ExpectFailed ''called Result::unwrap() on an Err value''))"
proof -
  obtain out_dir kernel where b: "var_os ''CARGO_BIN_FILE_TEST_KERNEL_kernel'' = Some kernel"
    "ls = [''cargo:rustc-env=UEFI_PATH='' @ path_join out_dir ''uefi.img'', ''cargo:rustc-env=BIOS_PATH='' @ path_join out_dir ''bios.img'']"
    "fs' = fs(path_join out_dir ''uefi.img'' \<mapsto> uefi_image kernel, path_join out_dir ''bios.img'' \<mapsto> bios_image kernel)"
    using build_main_ok [OF docs(1) build] by metis
  have "env_of ls ''UEFI_PATH'' = Some (path_join out_dir ''uefi.img'')"
    using docs(2) [unfolded cargo_docs_def, rule_format, of "''UEFI_PATH''" "path_join out_dir ''uefi.img''" ls] by (simp add: b(2))
  moreover have "env_of ls ''BIOS_PATH'' = Some (path_join out_dir ''bios.img'')"
    using docs(2) [unfolded cargo_docs_def, rule_format, of "''BIOS_PATH''" "path_join out_dir ''bios.img''" ls] by (simp add: b(2))
  ultimately show ?thesis
    using b(1,3) path_join_images [of out_dir]
    by (simp add: launcher_main_def launch_command_def unwrap_ok_def Let_def split: prod.splits bool.splits)
qed

definition rustc_env :: "string list \<Rightarrow> string \<rightharpoonup> string" where
  "rustc_env ls = map_of (concat (map (\<lambda>l. let r = drop 16 l in
     if take 16 l = ''cargo:rustc-env='' \<and> CHR ''='' \<in> set r
     then [(takeWhile (\<lambda>c. c \<noteq> CHR ''='') r, tl (dropWhile (\<lambda>c. c \<noteq> CHR ''='') r))] else []) ls))"

lemma rustc_env_docs: "cargo_docs rustc_env"
proof -
  have "rustc_env ls k = Some v"
    if line: "''cargo:rustc-env='' @ k @ ''='' @ v \<in> set ls" and k: "CHR ''='' \<notin> set k"
      and uniq: "\<forall>v'. ''cargo:rustc-env='' @ k @ ''='' @ v' \<in> set ls \<longrightarrow> v' = v" for ls k v
    using line uniq
  proof (induction ls)
    case (Cons l ls)
    let ?r = "drop 16 l" and ?P = "\<lambda>c. c \<noteq> CHR ''=''"
    show ?case
    proof (cases "take 16 l = ''cargo:rustc-env='' \<and> CHR ''='' \<in> set ?r \<and> takeWhile ?P ?r = k")
      case True
      then have ne: "dropWhile ?P ?r \<noteq> []" by (auto simp: dropWhile_eq_Nil_conv)
      with hd_dropWhile [OF ne] have "?r = k @ ''='' @ tl (dropWhile ?P ?r)"
        using True takeWhile_dropWhile_id [of ?P ?r] list.collapse [of "dropWhile ?P ?r"] by simp
      then have "l = ''cargo:rustc-env='' @ k @ ''='' @ tl (dropWhile ?P ?r)"
        using True append_take_drop_id [of 16 l] by simp
      then have "tl (dropWhile ?P ?r) = v" using Cons.prems(2) by (metis list.set_intros(1))
      then show ?thesis using True by (simp add: rustc_env_def Let_def)
    next
      case False
      have "takeWhile ?P (k @ CHR ''='' # v) = k" using k by (induction k) auto
      then have "l \<noteq> ''cargo:rustc-env='' @ k @ ''='' @ v" using False by auto
      then have "''cargo:rustc-env='' @ k @ ''='' @ v \<in> set ls" using Cons.prems(1) by (metis set_ConsD)
      then have "rustc_env ls k = Some v" using Cons.IH Cons.prems(2) by (meson list.set_intros(2))
      then show ?thesis using False by (auto simp: rustc_env_def Let_def)
    qed
  qed simp
  then show ?thesis unfolding cargo_docs_def by blast
qed

theorem launcher_boots_built_image_witness:
  "let c = \<lparr>UefiBoot_create = (\<lambda>k p fs. (True, fs(p \<mapsto> ''U'' @ k))), BiosBoot_create = (\<lambda>k p fs. (True, fs(p \<mapsto> ''B'' @ k)))\<rparr>;
       vars = [''OUT_DIR'' \<mapsto> ''/o'', ''CARGO_BIN_FILE_TEST_KERNEL_kernel'' \<mapsto> ''k'']
   in case build_main c vars Map.empty of
        Inl e \<Rightarrow> False
      | Inr (ls, fs) \<Rightarrow> rustc_env ls ''UEFI_PATH'' = Some ''/o/uefi.img'' \<and>
          (\<exists>U B. rustc_env ls ''UEFI_PATH'' = Some U \<and> rustc_env ls ''BIOS_PATH'' = Some B \<and> fs U = Some ''Uk'' \<and>
             launcher_main ''f'' (\<lambda>cmd. (cmd = (''qemu-system-x86_64'', [''-bios'', ''f'', ''-drive'', ''format=raw,file='' @ U]), ()))
               (\<lambda>_. (True, ())) U B = Inr ())"
proof -
  let ?c = "\<lparr>UefiBoot_create = (\<lambda>k p fs. (True, fs(p \<mapsto> ''U'' @ k))), BiosBoot_create = (\<lambda>k p fs. (True, fs(p \<mapsto> ''B'' @ k)))\<rparr>"
  let ?vars = "[''OUT_DIR'' \<mapsto> ''/o'', ''CARGO_BIN_FILE_TEST_KERNEL_kernel'' \<mapsto> ''k'']"
  let ?ls = "[''cargo:rustc-env=UEFI_PATH=/o/uefi.img'', ''cargo:rustc-env=BIOS_PATH=/o/bios.img'']"
  let ?fs = "[''/o/uefi.img'' \<mapsto> ''Uk'', ''/o/bios.img'' \<mapsto> ''Bk'']"
  have docs: "image_docs ?c (\<lambda>k. ''U'' @ k) (\<lambda>k. ''B'' @ k)" by (simp add: image_docs_def)
  have build: "build_main ?c ?vars Map.empty = Inr (?ls, ?fs)"
    by (simp add: build_main_def unwrap_def unwrap_ok_def path_join_def Let_def)
  have U: "rustc_env ?ls ''UEFI_PATH'' = Some ''/o/uefi.img''" by (simp add: rustc_env_def Let_def)
  from launcher_boots_built_image [OF docs rustc_env_docs build, of "''f''"
      "\<lambda>cmd. (cmd = (''qemu-system-x86_64'', [''-bios'', ''f'', ''-drive'', ''format=raw,file='' @ ''/o/uefi.img'']), ())"
      "\<lambda>_. (True, ())"]
  show ?thesis using U unfolding Let_def build by auto
qed

end
