(* ===== verification/Spec2Isabelle.thy ===== *)
theory Spec2Isabelle
  imports Kernel_Interleaving Demo_Tasks Boot Pcie Acpi_Access Locking Serial Launcher
begin

text \<open>
  A verification of the rix-os kernel: a small x86-64 kernel in Rust (\<^verbatim>\<open>src/kernel/src\<close>) that boots
  on one processor, maps a heap, finds the interrupt controllers and PCI devices, and then runs
  preemptive kernel threads under a timer. The theories follow the modules of the kernel.

  \<^bold>\<open>Conventions.\<close> Machine integers are words. The kernel is built with the development profile, so
  \<open>+\<close>, \<open>-\<close> and \<open>*\<close> panic on overflow (\<open>add_checked\<close>, \<open>sub_checked\<close>, \<open>mul_checked\<close> of \<open>Prelude\<close>), casts
  truncate and atomic increments wrap. A function that can panic returns a \<open>panic + 'a\<close>, composed
  with \<open>and_then\<close>; every \<open>unwrap\<close>, \<open>expect\<close>, index and assertion of the source is such a branch.
  Global statics are fields of a state record that is passed along. Code that is not in the
  repository (the \<^verbatim>\<open>x86_64\<close>, \<^verbatim>\<open>acpi\<close>, \<^verbatim>\<open>aml\<close>, \<^verbatim>\<open>x2apic\<close>, font and boot loader crates) and hardware behind
  ports are parameters: records of functions, with their documented behaviour as a predicate
  (\<open>paging_docs\<close>, \<open>mapper_docs\<close>, \<open>gdt_docs\<close>, \<open>pci_docs\<close>, \<open>bga_docs\<close>, \<open>log_docs\<close>,
  \<open>uart_docs\<close>, \<open>image_docs\<close>, \<open>cargo_docs\<close>) that the properties name,
  and a concrete instance for the witnesses. Log output is kept as records of level, format string
  and arguments.

  \<^bold>\<open>Context switch, scheduler, processes.\<close>
  \<^item> \<open>Byte_Memory\<close>: little-endian loads and stores of a byte memory, used by every raw pointer access.
  \<^item> \<open>Context\<close> (\<^verbatim>\<open>context.rs\<close>, and the trampoline of \<^verbatim>\<open>scheduler.rs\<close>): the naked assembly routines,
    instruction by instruction, on registers and memory. Shown: switching away and back is the
    identity on callee-saved registers, stack pointer and return address.
  \<^item> \<open>Scheduler\<close>, \<open>Thread_Creation\<close>, \<open>Scheduler_Rounds\<close> (\<^verbatim>\<open>scheduler.rs\<close>): thread control blocks, the first
    stack frame, the choice of the next thread, the tick. \<open>Round_Robin\<close> is the abstract specification,
    with a locale for its implementations; the tick refines it, starves no ready thread, and hands over
    the processor with both register sets intact. The locale \<open>thread_service\<close> is what processes rely on.
  \<^item> \<open>Btree_Map\<close>, \<open>Process\<close> (\<^verbatim>\<open>process.rs\<close>): the process table over the standard library's ordered map
    (locale \<open>ordered_map\<close>), creation and exit, and \<open>scheduler::init\<close>.
  \<^item> \<open>Kernel_Invariant\<close>, \<open>Kernel_Steps\<close>, \<open>Kernel_Theorems\<close>: the invariant that ties scheduler and process
    table, the kernel as a state machine of ticks, creations and exits from boot on, and what holds in
    every reachable state: no panic, agreement of both tables, exited threads and processes stay off
    the processor.
  \<^item> \<open>Kernel_Interleaving\<close>: creation and exit split at their locks, any number of them interleaved with each other and with
    ticks, exits of processes still being created included; a weaker invariant that holds throughout and gives the
    full one when nothing is under way and no exit came during the creation, and the exit that is lost when one does.
  \<^item> \<open>Demo_Tasks\<close>: the messages of the two demo threads, whose loops are cut after any number of rounds.

  \<^bold>\<open>Memory.\<close>
  \<^item> \<open>Paging_Crate\<close>: the address and paging types of the \<^verbatim>\<open>x86_64\<close> crate, as parameters.
  \<^item> \<open>Page_Allocator\<close> (\<^verbatim>\<open>memory/page_allocator.rs\<close>): frames are handed out once, each inside a usable region but for
    the last frame of a region whose end is not aligned; the
    locale \<open>frame_source\<close> is the contract of the trait \<open>FrameAllocator\<close>.
  \<^item> \<open>Heap_Allocator\<close> (\<^verbatim>\<open>memory/heap_allocator.rs\<close>): the heap's 8192 pages are mapped to frames of their
    own, proved for every \<open>frame_source\<close>; nothing is handed to the allocator when frames run out.
  \<^item> \<open>Memory\<close>, \<open>Memory_Init\<close> (\<^verbatim>\<open>memory/mod.rs\<close>): the software page walk against the processor's,
    specified with large pages, of which it says where they differ; the
    initialisation, the allocator test (a \<open>partial_function\<close> for its unbounded loop, shown to end).

  \<^bold>\<open>Devices.\<close>
  \<^item> \<open>Port_Io\<close>: ports as functions on a device state; devices that record all accesses.
  \<^item> \<open>Pcie\<close> (\<^verbatim>\<open>pcie.rs\<close>): the bus scan equals an inventory computed from the configuration space.
  \<^item> \<open>Acpi_Handler\<close>, \<open>Acpi_Access\<close> (\<^verbatim>\<open>acpi/handler.rs\<close>): every callback of the ACPI and AML interpreters;
    the lanes that narrow configuration accesses touch (locale \<open>dword_config\<close>), memory round trips, delays.
  \<^item> \<open>Acpi\<close> (\<^verbatim>\<open>acpi/mod.rs\<close>): the search for the S5 values with its eight failure exits, and power-off.
  \<^item> \<open>Apic\<close> (\<^verbatim>\<open>apic.rs\<close>): the sequence of calls that programs the APICs, and the masking of the PICs, whose command
    and data ports are modelled so far as their masks depend on them.
  \<^item> \<open>Console\<close>, \<open>Console_Drawing\<close> (\<^verbatim>\<open>console.rs\<close>): text drawing, pixel by pixel, with the blank for characters the font
    does not have, and where it panics.
  \<^item> \<open>Display\<close> (\<^verbatim>\<open>bga.rs\<close>, \<^verbatim>\<open>qemu.rs\<close>, the logo loop of \<^verbatim>\<open>main.rs\<close>). Console and logo write the frame buffer through a raw
    pointer; a write past the length of the buffer, undefined behaviour in the code, is the outcome \<open>RawOutOfBounds\<close>.
  \<^item> \<open>Logging\<close> (\<^verbatim>\<open>logging.rs\<close>), \<open>Serial\<close> (\<^verbatim>\<open>serial.rs\<close>): which records become lines on the serial port, the
    port behind its lock, and the handlers of panics and failed allocations, which report through it and
    halt, or wait for the lock for ever.

  \<^bold>\<open>Interrupts.\<close>
  \<^item> \<open>Gdt\<close> (\<^verbatim>\<open>gdt.rs\<close>): segment selectors and interrupt stacks.
  \<^item> \<open>Interrupts\<close> (\<^verbatim>\<open>interrupts.rs\<close>): the descriptor table and every handler, over the state of scheduler,
    process table, local APIC, console and devices; end of interrupt is signalled as required.
  \<^item> \<open>Locking\<close>: the order in which threads and handlers take spin locks and mask interrupts, as a step relation with
    interrupts at any point and preemption at every tick; \<open>kernel_main\<close> and any threads that print and allocate never
    deadlock, with the handlers or with each other, while every
    function that takes the scheduler's lock with interrupts enabled can.

  \<^bold>\<open>The whole system.\<close>
  \<^item> \<open>Boot\<close> (\<open>kernel_main\<close> of \<^verbatim>\<open>main.rs\<close>): the initialisation in the order of the code, one definition per phase,
    over one state record; it reaches the idle loop on a machine that offers what it needs. It is followed as one
    sequence: no interrupt is taken between enabling interrupts and the idle loop, which \<open>Locking\<close> looks at.
  \<^item> \<open>Launcher\<close> (\<^verbatim>\<open>build.rs\<close>, \<^verbatim>\<open>src/main.rs\<close>): the host programs that make the disk images and start the emulator.
  \<^item> This theory: the three ways to reach the PCI configuration space agree.

  \<^bold>\<open>Bounds.\<close> The number of ticks in the starvation theorem is bounded by the cyclic distance of a thread.
  The endless loops of the demo tasks are cut after \<open>n\<close> rounds, for every \<open>n\<close>; the final loops of \<open>hlt\<close> in
  \<open>kernel_main\<close> and the fatal handlers are where the models end. Thread creation is followed up to the last
  value of the 64-bit thread counter. A panic inside the panic handler is followed one level, which is
  enough: the second report waits for the lock.

  \<^bold>\<open>Not modelled.\<close> The linked-list heap allocator, the UART driver, the picture decoder and the ACPI and AML
  interpreters (other crates); the text the formatting machinery produces; \<^verbatim>\<open>lib.rs\<close>, which holds crate
  attributes only, and the empty \<^verbatim>\<open>resources.rs\<close>.
\<close>

lemma config_offset: "(ucast (ucast off :: u8) AND 0xFC :: u32) = ucast off AND 0xFC" for off :: u16
proof -
  have "(ucast (ucast off :: u8) :: u32) = ucast off AND mask 8"
    by (rule bit_eqI) (auto simp: bit_simps)
  moreover have "mask 8 AND 0xFC = (0xFC :: u32)" by (simp add: mask_eq_exp_minus_1)
  ultimately show ?thesis by (simp add: and.assoc)
qed

text \<open>
  C24. The ways to the PCI configuration space agree: a read through the ACPI or the AML handler is the read of
  the bus scan of \<^verbatim>\<open>pcie.rs\<close>, for every device and every offset, with the offset reduced to its low eight bits
  (so an offset of the extended space reaches a register of the legacy space) and the value truncated to the
  width of the access; and every access of the AML handler is that of the ACPI handler to the same device.
\<close>

theorem pci_access_paths_agree:
  fixes off :: u16
  assumes "pa_bus pc a = bus" "pa_device pc a = dev" "pa_function pc a = func" "a = PciAddress_new pc seg bus dev func"
  shows "AcpiHandler_read_pci_u32 pc io a off d = pci_config_read io bus dev func (ucast off) d \<and>
     AcpiHandler_read_pci_u16 pc io a off d = apfst ucast (pci_config_read io bus dev func (ucast off) d) \<and>
     AcpiHandler_read_pci_u8 pc io a off d = apfst ucast (pci_config_read io bus dev func (ucast off) d) \<and>
     AmlHandler_read_pci_u32 pc io seg bus dev func off = AcpiHandler_read_pci_u32 pc io a off \<and>
     AmlHandler_read_pci_u16 pc io seg bus dev func off = AcpiHandler_read_pci_u16 pc io a off \<and>
     AmlHandler_read_pci_u8 pc io seg bus dev func off = AcpiHandler_read_pci_u8 pc io a off \<and>
     AmlHandler_write_pci_u32 pc io seg bus dev func off = AcpiHandler_write_pci_u32 pc io a off \<and>
     AmlHandler_write_pci_u16 pc io seg bus dev func off = AcpiHandler_write_pci_u16 pc io a off \<and>
     AmlHandler_write_pci_u8 pc io seg bus dev func off = AcpiHandler_write_pci_u8 pc io a off"
proof -
  have "config_addr pc a off = pci_address_word bus dev func (ucast off)"
    using assms(1-3) by (simp add: config_addr_def pci_config_address_def pci_address_word_def config_offset)
  then have read: "pci_config_read_u32 pc io a off d = pci_config_read io bus dev func (ucast off) d" for d
    by (simp add: pci_config_read_u32_def pci_config_read_def Let_def)
  show ?thesis
    by (simp add: AcpiHandler_read_pci_u32_def AcpiHandler_read_pci_u16_def AcpiHandler_read_pci_u8_def
        AmlHandler_read_pci_u32_def AmlHandler_read_pci_u16_def AmlHandler_read_pci_u8_def
        AmlHandler_write_pci_u32_def AcpiHandler_write_pci_u32_def aml_pci_writes
        assms(4) [symmetric] read fun_eq_iff apfst_def map_prod_def case_prod_beta)
qed

theorem pci_access_paths_agree_witness:
  "AmlHandler_read_pci_u32 tuple_address (recording (\<lambda>_ _. 7)) 0 1 2 3 0x110 [] =
   pci_config_read (recording (\<lambda>_ _. 7)) 1 2 3 0x10 []"
proof -
  have address: "pa_bus tuple_address (0, 1, 2, 3) = 1" "pa_device tuple_address (0, 1, 2, 3) = 2"
      "pa_function tuple_address (0, 1, 2, 3) = 3" "(0, 1, 2, 3) = PciAddress_new tuple_address 0 1 2 3"
    by (simp_all add: tuple_address_def)
  have "ucast (0x110 :: u16) = (0x10 :: u8)" by simp
  with pci_access_paths_agree [OF address, of "recording (\<lambda>_ _. 7)" "0x110" "[]"] show ?thesis by (simp only:)
qed

end
